(* ===== verification/Prelude.thy ===== *)
theory Prelude
  imports Main "HOL-Library.Word"
begin

text \<open>
  Shared vocabulary of the development: the machine types of the C sources, the hint
  collections the component theories extend, and the generic facts on lists, words and
  sums that several components use.

  A C \<^verbatim>\<open>uint8_t\<close> is \<open>byte\<close>, a \<^verbatim>\<open>uint16_t\<close> is \<open>u16\<close>, a \<^verbatim>\<open>uint32_t\<close> is
  \<open>u32\<close>; arithmetic on them wraps as in C. A C \<^verbatim>\<open>int\<close> (lengths, return codes,
  time-outs, all far from the limits of the type) is \<open>int\<close>. A byte buffer is a list.
\<close>

unbundle bit_operations_syntax

type_synonym byte = "8 word"
type_synonym u16 = "16 word"
type_synonym u32 = "32 word"
type_synonym bytes = "byte list"

named_theorems env_simps "what the system calls of the environment do"
named_theorems env_mono "operations that only extend the environment"
named_theorems frame_simps "fields of parsed HCI frames"
named_theorems session_simps "fields of the daemon's session after its operations"

section \<open>Lists\<close>

text \<open>\<^verbatim>\<open>memcpy(dst, src, n)\<close> into a buffer: the first bytes are replaced, the rest stays.\<close>

definition overwrite :: "bytes \<Rightarrow> bytes \<Rightarrow> bytes" where
  "overwrite dst src = src @ drop (length src) dst"

lemma length_overwrite [simp]:
  "length src \<le> length dst \<Longrightarrow> length (overwrite dst src) = length dst"
  by (simp add: overwrite_def)

lemma take_overwrite [simp]: "take (length src) (overwrite dst src) = src"
  by (simp add: overwrite_def)

lemma nth_overwrite_low [simp]: "i < length src \<Longrightarrow> overwrite dst src ! i = src ! i"
  by (simp add: overwrite_def nth_append)

lemma nth_overwrite_high:
  "length src \<le> i \<Longrightarrow> i < length dst \<Longrightarrow> overwrite dst src ! i = dst ! i"
  by (simp add: overwrite_def nth_append)

text \<open>\<^verbatim>\<open>xs + off\<close> for \<open>n\<close> bytes.\<close>

definition slice :: "nat \<Rightarrow> nat \<Rightarrow> 'a list \<Rightarrow> 'a list" where
  "slice off n xs = take n (drop off xs)"

lemma length_slice [simp]: "off + n \<le> length xs \<Longrightarrow> length (slice off n xs) = n"
  by (simp add: slice_def)

lemma nth_slice [simp]: "i < n \<Longrightarrow> off + n \<le> length xs \<Longrightarrow> slice off n xs ! i = xs ! (off + i)"
  by (simp add: slice_def)

lemma slice_append_mid: "slice (length xs) (length ys) (xs @ ys @ zs) = ys"
  by (simp add: slice_def)

lemma map_nth_upt_eq: "n \<le> length xs \<Longrightarrow> map ((!) xs) [0..<n] = take n xs"
  by (rule nth_equalityI) auto

section \<open>Words\<close>

lemma unat_byte_less [simp]: "unat (b :: byte) < 256"
  using unsigned_less [of b, where ?'a = nat] by simp

lemma unat_u16_less [simp]: "unat (w :: u16) < 65536"
  using unsigned_less [of w, where ?'a = nat] by simp

lemma unat_byte_le: "unat (b :: byte) \<le> 255"
  using unat_byte_less [of b] by linarith

lemma unat_ucast_byte_u16 [simp]: "unat (ucast (b :: byte) :: u16) = unat b"
proof -
  have "unat b < 2 ^ 16"
    by (rule less_trans [OF unat_byte_less]) simp
  then show ?thesis
    by (simp add: unsigned_ucast_eq take_bit_nat_eq_self)
qed

lemma unat_of_nat_u16: "n < 65536 \<Longrightarrow> unat (of_nat n :: u16) = n"
  by (simp add: unat_of_nat take_bit_nat_eq_self)

lemma unat_of_nat_byte: "n < 256 \<Longrightarrow> unat (of_nat n :: byte) = n"
  by (simp add: unat_of_nat take_bit_nat_eq_self)

lemma word_and_mask_le: "unat ((w :: 'a::len word) AND m) \<le> unat m"
  by (meson word_and_le1 word_le_nat_alt)

section \<open>Results that may leave early\<close>

text \<open>
  A C function whose remaining statements are skipped on an early \<^verbatim>\<open>return\<close> or
  \<^verbatim>\<open>goto\<close>: a result is \<open>Inl\<close> of the reason or \<open>Inr\<close> of the value, next to
  the state reached. \<open>and_then\<close> runs the rest of the statements on \<open>Inr\<close> only.
\<close>

definition and_then ::
  "('x + 'a) \<times> 's \<Rightarrow> ('a \<Rightarrow> 's \<Rightarrow> ('x + 'b) \<times> 's) \<Rightarrow> ('x + 'b) \<times> 's" where
  "and_then m k = (case m of (Inl x, s) \<Rightarrow> (Inl x, s) | (Inr a, s) \<Rightarrow> k a s)"

lemma and_then_Inl [simp]: "and_then (Inl x, s) k = (Inl x, s)"
  by (simp add: and_then_def)

lemma and_then_Inr [simp]: "and_then (Inr a, s) k = k a s"
  by (simp add: and_then_def)

lemma and_then_eq_Inr:
  "and_then m k = (Inr b, t) \<longleftrightarrow> (\<exists>a s. m = (Inr a, s) \<and> k a s = (Inr b, t))"
  by (cases m rule: prod.exhaust; cases "fst m") (auto simp: and_then_def split: sum.splits)

lemma and_then_eq_Inl:
  "and_then m k = (Inl x, t) \<longleftrightarrow>
    m = (Inl x, t) \<or> (\<exists>a s. m = (Inr a, s) \<and> k a s = (Inl x, t))"
  by (cases m rule: prod.exhaust; cases "fst m") (auto simp: and_then_def split: sum.splits)

text \<open>
  For evaluating concrete runs with the simplifier: only the scrutinee of a case, the
  condition of an \<open>if\<close> and the bound value of a \<open>let\<close> are rewritten before the choice
  is made, so recursive equations unfold one step at a time.
\<close>

lemma and_then_weak: "m = m' \<Longrightarrow> and_then m k = and_then m' k"
  by simp

lemmas eval_congs = if_weak_cong let_weak_cong prod.case_cong_weak option.case_cong_weak
  sum.case_cong_weak and_then_weak

text \<open>
  A relation between the states before and after that composes (a preorder) is kept by a
  sequence when both of its parts keep it.
\<close>

lemma and_then_rel:
  assumes "R s0 (snd m)"
    and "\<And>a s. m = (Inr a, s) \<Longrightarrow> R s (snd (k a s))"
    and "\<And>x y z. R x y \<Longrightarrow> R y z \<Longrightarrow> R x z"
  shows "R s0 (snd (and_then m k))"
proof (cases m)
  case (Pair r s)
  show ?thesis
  proof (cases r)
    case (Inl x)
    with Pair assms(1) show ?thesis by simp
  next
    case (Inr a)
    with Pair assms(1) have "R s0 s" by simp
    moreover from Pair Inr assms(2) have "R s (snd (k a s))" by simp
    ultimately have "R s0 (snd (k a s))" by (rule assms(3))
    with Pair Inr show ?thesis by simp
  qed
qed

end
