(* ===== verification/Posix_Env.thy ===== *)
theory Posix_Env
  imports Prelude
begin

text \<open>
  The operating system as the C programs see it. None of the programs decides what a
  system call answers, so the answers are data of the state: every blocking or failing
  call takes its answer from a list of the environment, and every theorem about a program
  holds for all such lists. What a program does to the outside is the list \<open>acts\<close>.

  Time is a clock in microseconds; a call to \<open>poll\<close> lets the time of its answer pass.
  A signal (SIGINT, SIGTERM) is delivered during a blocking call: the handler
  \<^verbatim>\<open>on_signal\<close> clears the flag \<open>running\<close> (\<^verbatim>\<open>g_running\<close> of
  \<^verbatim>\<open>sw2d_final.c\<close>, \<^verbatim>\<open>running\<close> of \<^verbatim>\<open>sw2d.c\<close>).
\<close>

section \<open>Answers and actions\<close>

datatype errno_t = E_INTR | E_BUSY | E_ALREADY | E_OTHER

text \<open>\<open>poll\<close> on one descriptor: an error, the time-out, or data to read.\<close>

datatype poll_res = P_error | P_timeout | P_ready

text \<open>The answer to one \<open>poll\<close>: microseconds that pass, whether a signal arrives, the result.\<close>

datatype poll_ans = Poll_ans (pa_elapsed: nat) (pa_signal: bool) (pa_result: poll_res)

text \<open>One \<open>read\<close>: an error (with \<open>errno\<close>) or the datagram or chunk the kernel holds.\<close>

datatype read_ans = R_error errno_t | R_data bytes

text \<open>One \<open>write\<close> or \<open>writev\<close>: all bytes, the first \<open>n\<close> of them, or an error.\<close>

datatype write_ans = W_all | W_part nat | W_error errno_t

text \<open>What a program does to the outside, in order.\<close>

datatype action =
    A_write int bytes
  | A_close int
  | A_sleep nat
  | A_system string
  | A_bind int u16 nat \<comment> \<open>descriptor, device, channel\<close>
  | A_ioctl_down int int
  | A_setsockopt int bytes

record env =
  clock :: int
  running :: bool
  errno :: errno_t
  polls :: "poll_ans list"
  reads :: "read_ans list"
  writes :: "write_ans list"
  fds :: "int list"
  statuses :: "(int \<times> errno_t) list"
  naps :: "bool list"
  rands :: "int list"
  acts :: "action list"

text \<open>An environment without scripted answers, the base of the concrete examples.\<close>

definition quiet_env :: env where
  "quiet_env = \<lparr>clock = 0, running = True, errno = E_OTHER, polls = [], reads = [], writes = [],
     fds = [], statuses = [], naps = [], rands = [], acts = []\<rparr>"

abbreviation act :: "action \<Rightarrow> env \<Rightarrow> env" where
  "act a e \<equiv> e\<lparr>acts := acts e @ [a]\<rparr>"

section \<open>System calls\<close>

text \<open>\<^verbatim>\<open>now_ms\<close>: the monotonic clock in milliseconds.\<close>

definition now_ms :: "env \<Rightarrow> int" where
  "now_ms e = clock e div 1000"

text \<open>
  \<open>poll(&pfd, 1, t)\<close> with \<open>t\<close> milliseconds. Without further answers the descriptor stays
  silent: the call lasts its whole time-out. A time-out answer lasts at least as long.
\<close>

definition sys_poll :: "int \<Rightarrow> env \<Rightarrow> int \<times> env" where
  "sys_poll t e = (case polls e of
      [] \<Rightarrow> (0, e\<lparr>clock := clock e + 1000 * t\<rparr>)
    | p # ps \<Rightarrow>
       (let e' = e\<lparr>polls := ps, clock := clock e + int (pa_elapsed p),
                   running := (running e \<and> \<not> pa_signal p)\<rparr>
        in case pa_result p of
             P_error \<Rightarrow> (-1, e')
           | P_timeout \<Rightarrow> (0, e'\<lparr>clock := clock e' + 1000 * t\<rparr>)
           | P_ready \<Rightarrow> (1, e')))"

text \<open>\<open>read(fd, buf, len)\<close>: the number of bytes (negative on error) and the bytes.\<close>

definition sys_read :: "nat \<Rightarrow> env \<Rightarrow> int \<times> bytes \<times> env" where
  "sys_read len e = (case reads e of
      [] \<Rightarrow> (-1, [], e\<lparr>errno := E_OTHER\<rparr>)
    | R_error er # rs \<Rightarrow> (-1, [], e\<lparr>reads := rs, errno := er\<rparr>)
    | R_data bs # rs \<Rightarrow> (int (length (take len bs)), take len bs, e\<lparr>reads := rs\<rparr>))"

text \<open>\<open>write(fd, buf, len)\<close> and a gathering \<open>writev\<close>: the accepted prefix is logged.\<close>

definition sys_write :: "int \<Rightarrow> bytes \<Rightarrow> env \<Rightarrow> int \<times> env" where
  "sys_write fd bs e = (case writes e of
      [] \<Rightarrow> (int (length bs), act (A_write fd bs) e)
    | W_all # ws \<Rightarrow> (int (length bs), act (A_write fd bs) (e\<lparr>writes := ws\<rparr>))
    | W_part n # ws \<Rightarrow>
        (int (length (take n bs)), act (A_write fd (take n bs)) (e\<lparr>writes := ws\<rparr>))
    | W_error er # ws \<Rightarrow> (-1, e\<lparr>writes := ws, errno := er\<rparr>))"

text \<open>\<open>open\<close> and \<open>socket\<close>: a descriptor or a negative number.\<close>

definition sys_fd :: "env \<Rightarrow> int \<times> env" where
  "sys_fd e = (case fds e of
      [] \<Rightarrow> (-1, e\<lparr>errno := E_OTHER\<rparr>)
    | f # fs \<Rightarrow> (f, e\<lparr>fds := fs\<rparr>))"

text \<open>\<open>bind\<close>, \<open>ioctl\<close>, \<open>setsockopt\<close>: a status, success where no answer is scripted.\<close>

definition sys_status :: "action \<Rightarrow> env \<Rightarrow> int \<times> env" where
  "sys_status a e = (case statuses e of
      [] \<Rightarrow> (0, act a e)
    | (r, er) # rs \<Rightarrow> (r, act a (e\<lparr>statuses := rs, errno := er\<rparr>)))"

definition sys_close :: "int \<Rightarrow> env \<Rightarrow> env" where
  "sys_close fd e = act (A_close fd) e"

text \<open>\<open>usleep(us)\<close>; a signal may arrive meanwhile.\<close>

definition usleep :: "nat \<Rightarrow> env \<Rightarrow> env" where
  "usleep us e = (case naps e of
      [] \<Rightarrow> act (A_sleep us) (e\<lparr>clock := clock e + int us\<rparr>)
    | sg # ns \<Rightarrow> act (A_sleep us)
        (e\<lparr>naps := ns, clock := clock e + int us, running := (running e \<and> \<not> sg)\<rparr>))"

text \<open>\<open>sleep(s)\<close>.\<close>

definition sleep :: "nat \<Rightarrow> env \<Rightarrow> env" where
  "sleep s e = usleep (1000000 * s) e"

text \<open>\<open>rand()\<close>: the next value of the C library's generator.\<close>

definition sys_rand :: "env \<Rightarrow> int \<times> env" where
  "sys_rand e = (case rands e of [] \<Rightarrow> (0, e) | r # rs \<Rightarrow> (r, e\<lparr>rands := rs\<rparr>))"

section \<open>The environment only moves forward\<close>

text \<open>
  \<open>env_le e e'\<close>: nothing that happened is undone. The log of actions is extended, the clock
  does not go back, a delivered signal stays delivered, and answers are only consumed.
\<close>

definition env_le :: "env \<Rightarrow> env \<Rightarrow> bool" where
  "env_le e e' \<longleftrightarrow>
     (\<exists>l. acts e' = acts e @ l) \<and> clock e \<le> clock e' \<and> (running e' \<longrightarrow> running e) \<and>
     length (polls e') \<le> length (polls e)"

lemma env_le_refl [simp, intro]: "env_le e e"
  by (simp add: env_le_def)

lemma env_le_trans: "env_le e e' \<Longrightarrow> env_le e' e'' \<Longrightarrow> env_le e e''"
  by (auto simp: env_le_def)

text \<open>The actions between two environments.\<close>

definition new_acts :: "env \<Rightarrow> env \<Rightarrow> action list" where
  "new_acts e e' = drop (length (acts e)) (acts e')"

lemma new_acts_refl [simp]: "new_acts e e = []"
  by (simp add: new_acts_def)

lemma new_acts_eq: "acts e' = acts e @ l \<Longrightarrow> new_acts e e' = l"
  by (simp add: new_acts_def)

lemma env_le_acts: "env_le e e' \<Longrightarrow> acts e' = acts e @ new_acts e e'"
  by (auto simp: env_le_def new_acts_def)

lemma new_acts_trans:
  assumes "env_le e e'" "env_le e' e''"
  shows "new_acts e e'' = new_acts e e' @ new_acts e' e''"
  using assms by (auto simp: env_le_def new_acts_def)

text \<open>
  The facts of the collection \<open>env_mono\<close> have the form "the call returned this, so the
  environment moved forward"; a proof about a sequence of calls destructs each call with
  them and chains the results by transitivity.
\<close>

lemma sys_poll_mono [env_mono]: "sys_poll t e = (r, e') \<Longrightarrow> 0 \<le> t \<Longrightarrow> env_le e e'"
  by (auto simp: sys_poll_def env_le_def Let_def split: list.splits poll_res.splits)

lemma sys_read_mono [env_mono]: "sys_read n e = (r, bs, e') \<Longrightarrow> env_le e e'"
  by (auto simp: sys_read_def env_le_def split: list.splits read_ans.splits)

lemma sys_write_mono [env_mono]: "sys_write fd bs e = (r, e') \<Longrightarrow> env_le e e'"
  by (auto simp: sys_write_def env_le_def split: list.splits write_ans.splits)

lemma sys_fd_mono [env_mono]: "sys_fd e = (r, e') \<Longrightarrow> env_le e e'"
  by (auto simp: sys_fd_def env_le_def split: list.splits)

lemma sys_status_mono [env_mono]: "sys_status a e = (r, e') \<Longrightarrow> env_le e e'"
  by (auto simp: sys_status_def env_le_def split: list.splits)

lemma sys_rand_mono [env_mono]: "sys_rand e = (r, e') \<Longrightarrow> env_le e e'"
  by (auto simp: sys_rand_def env_le_def split: list.splits)

lemma sys_close_mono [simp]: "env_le e (sys_close fd e)"
  by (auto simp: sys_close_def env_le_def)

lemma usleep_mono [simp]: "env_le e (usleep us e)"
  by (auto simp: usleep_def env_le_def split: list.splits)

lemma sleep_mono [simp]: "env_le e (sleep s e)"
  by (simp add: sleep_def)

text \<open>Reading leaves no trace outside.\<close>

lemma acts_sys_poll [env_simps]: "sys_poll t e = (r, e') \<Longrightarrow> acts e' = acts e"
  by (auto simp: sys_poll_def Let_def split: list.splits poll_res.splits)

lemma acts_sys_read [env_simps]: "sys_read n e = (r, bs, e') \<Longrightarrow> acts e' = acts e"
  by (auto simp: sys_read_def split: list.splits read_ans.splits)

lemma acts_sys_rand [env_simps]: "sys_rand e = (r, e') \<Longrightarrow> acts e' = acts e"
  by (auto simp: sys_rand_def split: list.splits)

lemma length_sys_read: "sys_read len e = (n, bs, e') \<Longrightarrow> length bs \<le> len \<and> (0 \<le> n \<longrightarrow> n = int (length bs))"
  by (auto simp: sys_read_def split: list.splits read_ans.splits)

text \<open>A write logs at most one action, on its own descriptor, a prefix of the bytes.\<close>

lemma sys_write_acts:
  "sys_write fd bs e = (n, e') \<Longrightarrow>
     acts e' = acts e \<or> (\<exists>k. acts e' = acts e @ [A_write fd (take k bs)])"
  by (auto simp: sys_write_def intro: exI [of _ "length bs"] split: list.splits write_ans.splits)

text \<open>
  Progress of a loop around \<open>poll\<close>: either an answer is consumed or, when there is none
  left, time passes.
\<close>

lemma sys_poll_progress:
  "sys_poll t e = (r, e') \<Longrightarrow>
     length (polls e') < length (polls e) \<or>
     (polls e = [] \<and> r = 0 \<and> e' = e\<lparr>clock := clock e + 1000 * t\<rparr>)"
  by (auto simp: sys_poll_def Let_def split: list.splits poll_res.splits)

lemma sys_read_frame:
  "sys_read n e = (r, bs, e') \<Longrightarrow> polls e' = polls e \<and> clock e' = clock e \<and> running e' = running e"
  by (auto simp: sys_read_def split: list.splits read_ans.splits)

lemma now_ms_later: "now_ms (e\<lparr>clock := clock e + 1000 * t\<rparr>) = now_ms e + t"
  by (simp add: now_ms_def)

text \<open>
  \<open>acts_in P e e'\<close>: the environment moved forward and every action on the way satisfies
  \<open>P\<close>. It composes, so the trace of a sequence of calls is known from its parts.
\<close>

definition acts_in :: "(action \<Rightarrow> bool) \<Rightarrow> env \<Rightarrow> env \<Rightarrow> bool" where
  "acts_in P e e' \<longleftrightarrow> env_le e e' \<and> list_all P (new_acts e e')"

lemma acts_in_refl [simp, intro]: "acts_in P e e"
  by (simp add: acts_in_def)

lemma acts_in_trans: "acts_in P e e' \<Longrightarrow> acts_in P e' e'' \<Longrightarrow> acts_in P e e''"
  unfolding acts_in_def using new_acts_trans [of e e' e''] env_le_trans [of e e' e''] by simp

lemma acts_in_mono: "acts_in P e e' \<Longrightarrow> (\<And>a. P a \<Longrightarrow> Q a) \<Longrightarrow> acts_in Q e e'"
  by (auto simp: acts_in_def list_all_iff)

lemma acts_in_env: "acts_in P e e' \<Longrightarrow> env_le e e'"
  by (simp add: acts_in_def)

lemma acts_in_all: "acts_in P e e' \<Longrightarrow> a \<in> set (new_acts e e') \<Longrightarrow> P a"
  by (auto simp: acts_in_def list_all_iff)

lemma acts_in_silent: "env_le e e' \<Longrightarrow> acts e' = acts e \<Longrightarrow> acts_in P e e'"
  by (simp add: acts_in_def new_acts_def)

lemma acts_in_one: "env_le e e' \<Longrightarrow> acts e' = acts e @ [a] \<Longrightarrow> P a \<Longrightarrow> acts_in P e e'"
  by (simp add: acts_in_def new_acts_def)

lemma sys_write_acts_in:
  "sys_write fd bs e = (n, e') \<Longrightarrow> (\<And>k. P (A_write fd (take k bs))) \<Longrightarrow> acts_in P e e'"
  using sys_write_acts [of fd bs e n e'] sys_write_mono [of fd bs e n e']
  by (metis acts_in_one acts_in_silent)

lemma usleep_acts: "acts (usleep us e) = acts e @ [A_sleep us]"
  by (simp add: usleep_def split: list.split)

lemma usleep_acts_in: "P (A_sleep us) \<Longrightarrow> acts_in P e (usleep us e)"
  by (rule acts_in_one [OF usleep_mono usleep_acts])

section \<open>Interfaces\<close>

text \<open>
  What a program may do to its environment, as a relation \<open>R\<close> between the environments
  before and after, closed under sequencing. \<open>W\<close> says which writes \<open>R\<close> admits and \<open>S\<close>
  which pauses. The programs are shown once to stay within every such relation; each
  interpretation is then a property of everything they do.
\<close>

locale env_effect =
  fixes R :: "env \<Rightarrow> env \<Rightarrow> bool" and W :: "int \<Rightarrow> bytes \<Rightarrow> bool" and S :: "nat \<Rightarrow> bool"
  assumes R_refl: "R e e"
    and R_trans: "R e e' \<Longrightarrow> R e' e'' \<Longrightarrow> R e e''"
    and R_poll: "sys_poll t e = (r, e') \<Longrightarrow> 0 \<le> t \<Longrightarrow> R e e'"
    and R_read: "sys_read n e = (k, bs, e') \<Longrightarrow> R e e'"
    and R_rand: "sys_rand e = (k, e') \<Longrightarrow> R e e'"
    and R_write: "sys_write fd bs e = (k, e') \<Longrightarrow> W fd bs \<Longrightarrow> R e e'"
    and R_usleep: "S us \<Longrightarrow> R e (usleep us e)"
begin

lemma R_and_then:
  assumes "and_then m k = (r, st')"
    and "\<And>r1 st1. m = (r1, st1) \<Longrightarrow> R e (env_of st1)"
    and "\<And>a st1. m = (Inr a, st1) \<Longrightarrow> k a st1 = (r, st') \<Longrightarrow> R (env_of st1) (env_of st')"
  shows "R e (env_of st')"
proof -
  obtain r1 st1 where m: "m = (r1, st1)" by fastforce
  then have 1: "R e (env_of st1)" by (rule assms(2))
  show ?thesis
  proof (cases r1)
    case (Inl x)
    with m 1 assms(1) show ?thesis by simp
  next
    case (Inr a)
    with m assms(1) assms(3) have "R (env_of st1) (env_of st')" by simp
    with 1 show ?thesis by (rule R_trans)
  qed
qed

end

text \<open>
  The relation of logged actions is such an effect for every admitted set of actions: a
  write is admitted with all its prefixes, since the kernel may accept fewer bytes.
\<close>

lemma acts_in_effect:
  "env_effect (acts_in P) (\<lambda>fd bs. \<forall>k. P (A_write fd (take k bs))) (\<lambda>us. P (A_sleep us))"
proof
  fix e e' e'' :: env and t n k r bs fd us
  show "acts_in P e e" by simp
  show "acts_in P e e' \<Longrightarrow> acts_in P e' e'' \<Longrightarrow> acts_in P e e''" by (rule acts_in_trans)
  show "sys_poll t e = (r, e') \<Longrightarrow> 0 \<le> t \<Longrightarrow> acts_in P e e'"
    by (simp add: acts_in_silent sys_poll_mono acts_sys_poll)
  show "sys_read n e = (k, bs, e') \<Longrightarrow> acts_in P e e'"
    by (simp add: acts_in_silent sys_read_mono acts_sys_read)
  show "sys_rand e = (k, e') \<Longrightarrow> acts_in P e e'"
    by (simp add: acts_in_silent sys_rand_mono acts_sys_rand)
  show "sys_write fd bs e = (k, e') \<Longrightarrow> \<forall>k. P (A_write fd (take k bs)) \<Longrightarrow> acts_in P e e'"
    by (simp add: sys_write_acts_in)
  show "P (A_sleep us) \<Longrightarrow> acts_in P e (usleep us e)" by (rule usleep_acts_in)
qed

text \<open>Keeping the table of descriptors: nothing is opened and nothing closed.\<close>

fun is_close :: "action \<Rightarrow> bool" where
  "is_close (A_close fd) = True"
| "is_close _ = False"

definition fds_kept :: "env \<Rightarrow> env \<Rightarrow> bool" where
  "fds_kept e e' \<longleftrightarrow> fds e' = fds e \<and> acts_in (\<lambda>a. \<not> is_close a) e e'"

lemma fds_sys_calls:
  "sys_poll t e = (r, e') \<Longrightarrow> fds e' = fds e"
  "sys_read n e = (k, bs, e') \<Longrightarrow> fds e' = fds e"
  "sys_rand e = (k, e') \<Longrightarrow> fds e' = fds e"
  "sys_write fd bs e = (k, e') \<Longrightarrow> fds e' = fds e"
  "fds (usleep us e) = fds e"
  by (auto simp: sys_poll_def sys_read_def sys_rand_def sys_write_def usleep_def Let_def
      split: list.splits poll_res.splits read_ans.splits write_ans.splits)

lemma fds_kept_effect: "env_effect fds_kept (\<lambda>fd bs. True) (\<lambda>us. True)"
proof -
  note a = acts_in_effect [of "\<lambda>a. \<not> is_close a"]
  show ?thesis
    by (rule env_effect.intro)
      (auto simp: fds_kept_def fds_sys_calls
        intro: env_effect.R_trans [OF a] env_effect.R_poll [OF a] env_effect.R_read [OF a]
          env_effect.R_rand [OF a] env_effect.R_write [OF a] env_effect.R_usleep [OF a])
qed

interpretation silence: env_effect fds_kept "\<lambda>fd bs. True" "\<lambda>us. True"
  by (rule fds_kept_effect)

end
