(* ===== verification/Le_Bytes.thy ===== *)
theory Le_Bytes
  imports Prelude
begin

text \<open>
  Little-endian 16-bit accessors (\<^verbatim>\<open>get_le16\<close> and \<^verbatim>\<open>put_le16\<close>, repeated in
  \<^verbatim>\<open>hci_transport_user.c\<close>, \<^verbatim>\<open>sw2d_final.c\<close>, \<^verbatim>\<open>sw2d.c\<close> and
  \<^verbatim>\<open>two_socket_test.c\<close>), and the interface every wire format of the programs
  implements: an encoder whose output its decoder reads back.
\<close>

section \<open>16-bit accessors\<close>

text \<open>\<^verbatim>\<open>get_le16(p + off)\<close>: the two bytes at an offset.\<close>

definition get_le16 :: "bytes \<Rightarrow> nat \<Rightarrow> u16" where
  "get_le16 p off = ucast (p ! off) OR push_bit 8 (ucast (p ! (off + 1)))"

text \<open>The two bytes \<^verbatim>\<open>put_le16(p, v)\<close> stores at \<^verbatim>\<open>p[0]\<close> and \<^verbatim>\<open>p[1]\<close>.\<close>

definition put_le16 :: "u16 \<Rightarrow> bytes" where
  "put_le16 v = [ucast v, ucast (drop_bit 8 v)]"

lemma length_put_le16 [simp]: "length (put_le16 v) = 2"
  by (simp add: put_le16_def)

lemma put_le16_nth [simp]: "put_le16 v ! 0 = ucast v" "put_le16 v ! Suc 0 = ucast (drop_bit 8 v)"
  by (simp_all add: put_le16_def)

lemma le16_halves: "(ucast (ucast v :: byte) :: u16) OR push_bit 8 (ucast (ucast (drop_bit 8 v) :: byte)) = v"
proof (rule bit_word_eqI)
  fix n
  assume "n < LENGTH(16)"
  then show "bit ((ucast (ucast v :: byte) :: u16) OR
      push_bit 8 (ucast (ucast (drop_bit 8 v) :: byte))) n = bit v n"
    by (cases "n < 8") (auto simp: bit_simps)
qed

lemma get_put_le16: "get_le16 (put_le16 v) 0 = v"
  by (simp add: get_le16_def le16_halves)

lemma get_le16_append: "length xs = off \<Longrightarrow> get_le16 (xs @ put_le16 v @ ys) off = v"
  by (simp add: get_le16_def put_le16_def nth_append le16_halves)

lemma get_le16_cong:
  "xs ! off = ys ! off \<Longrightarrow> xs ! (off + 1) = ys ! (off + 1) \<Longrightarrow> get_le16 xs off = get_le16 ys off"
  by (simp add: get_le16_def)

lemma get_le16_drop: "n \<le> length xs \<Longrightarrow> get_le16 (drop n xs) off = get_le16 xs (n + off)"
  by (simp add: get_le16_def)

lemma put_get_le16:
  assumes "off + 1 < length p"
  shows "put_le16 (get_le16 p off) = slice off 2 p"
proof -
  have lo: "(ucast (get_le16 p off) :: byte) = p ! off"
    by (rule bit_word_eqI) (auto simp: get_le16_def bit_simps)
  have hi: "(ucast (drop_bit 8 (get_le16 p off)) :: byte) = p ! (off + 1)"
    by (rule bit_word_eqI) (auto simp: get_le16_def bit_simps dest: bit_imp_le_length)
  show ?thesis
    by (rule nth_equalityI) (use assms in \<open>auto simp: put_le16_def lo hi less_2_cases_iff numeral_2_eq_2 less_Suc_eq\<close>)
qed

section \<open>The wire-format interface\<close>

text \<open>
  What a component that builds packets promises the component that reads them: on the
  values in its domain the decoder reads back what the encoder wrote. Clients get that two
  different values never share a wire image, and that a decoded image is the value's.
\<close>

locale codec =
  fixes enc :: "'a \<Rightarrow> bytes" and dec :: "bytes \<Rightarrow> 'a option" and dom_ok :: "'a \<Rightarrow> bool"
  assumes dec_enc: "dom_ok x \<Longrightarrow> dec (enc x) = Some x"
begin

lemma enc_inj: "dom_ok x \<Longrightarrow> dom_ok y \<Longrightarrow> enc x = enc y \<Longrightarrow> x = y"
  using dec_enc by (metis option.inject)

lemma dec_unique: "dom_ok x \<Longrightarrow> dec (enc x) = Some y \<Longrightarrow> y = x"
  using dec_enc by simp

lemma enc_many_inj:
  "list_all dom_ok xs \<Longrightarrow> list_all dom_ok ys \<Longrightarrow> map enc xs = map enc ys \<Longrightarrow> xs = ys"
proof (induction xs arbitrary: ys)
  case Nil
  then show ?case by simp
next
  case (Cons x xs)
  then obtain y ys' where ys: "ys = y # ys'" by (cases ys) auto
  with Cons.prems have "x = y" by (auto intro: enc_inj)
  with Cons ys show ?case by auto
qed

end

text \<open>A format whose images all have the same length can be laid end to end.\<close>

locale fixed_codec = codec +
  fixes width :: nat
  assumes enc_width: "dom_ok x \<Longrightarrow> length (enc x) = width"
begin

lemma enc_prefix:
  "dom_ok x \<Longrightarrow> dom_ok y \<Longrightarrow> enc x @ r = enc y @ s \<Longrightarrow> x = y \<and> r = s"
  using enc_width [of x] enc_width [of y] enc_inj by (metis append_eq_append_conv)

end

definition dec_le16 :: "bytes \<Rightarrow> u16 option" where
  "dec_le16 p = (if length p = 2 then Some (get_le16 p 0) else None)"

interpretation le16: fixed_codec put_le16 dec_le16 "\<lambda>_. True" 2
  by unfold_locales (simp_all add: dec_le16_def get_put_le16)

lemmas put_le16_inj = le16.enc_inj [OF TrueI TrueI]

end
