(* ===== verification/Hci_Transport.thy ===== *)
theory Hci_Transport
  imports Posix_Env Le_Bytes
begin

text \<open>
  The transport layer \<^verbatim>\<open>hci_transport_user.c\<close>: opening the exclusive HCI user channel,
  sending commands and ACL data, reading and parsing one frame, cancelling a pending
  connection and initialising the controller.

  A \<^verbatim>\<open>hci_user_frame_t\<close> is the record \<open>frame\<close>; its pointer \<^verbatim>\<open>payload\<close>
  into \<^verbatim>\<open>raw\<close> is the offset from the start of \<^verbatim>\<open>raw\<close>. A frame variable the code
  declares without initialising it starts with arbitrary contents, the argument \<open>junk\<close>.
  Progress messages on \<^verbatim>\<open>stderr\<close> are left out.
\<close>

section \<open>Protocol constants\<close>

abbreviation (input) HCI_COMMAND_PKT :: byte where "HCI_COMMAND_PKT \<equiv> 0x01"
abbreviation (input) HCI_ACLDATA_PKT :: byte where "HCI_ACLDATA_PKT \<equiv> 0x02"
abbreviation (input) HCI_EVENT_PKT :: byte where "HCI_EVENT_PKT \<equiv> 0x04"

abbreviation (input) EVT_CMD_COMPLETE :: byte where "EVT_CMD_COMPLETE \<equiv> 0x0e"
abbreviation (input) EVT_CMD_STATUS :: byte where "EVT_CMD_STATUS \<equiv> 0x0f"
abbreviation (input) EVT_DISCONN_COMPLETE :: byte where "EVT_DISCONN_COMPLETE \<equiv> 0x05"
abbreviation (input) EVT_NUM_COMP_PKTS :: byte where "EVT_NUM_COMP_PKTS \<equiv> 0x13"
abbreviation (input) EVT_ENCRYPT_CHANGE :: byte where "EVT_ENCRYPT_CHANGE \<equiv> 0x08"
abbreviation (input) EVT_LE_META :: byte where "EVT_LE_META \<equiv> 0x3e"
abbreviation (input) EVT_LE_CONN_COMPLETE :: byte where "EVT_LE_CONN_COMPLETE \<equiv> 0x01"

abbreviation (input) OGF_LE_CTL :: u16 where "OGF_LE_CTL \<equiv> 0x08"
abbreviation (input) OCF_LE_SET_EVENT_MASK :: u16 where "OCF_LE_SET_EVENT_MASK \<equiv> 0x0001"
abbreviation (input) OCF_LE_CREATE_CONN :: u16 where "OCF_LE_CREATE_CONN \<equiv> 0x000d"
abbreviation (input) OCF_LE_CREATE_CONN_CANCEL :: u16 where "OCF_LE_CREATE_CONN_CANCEL \<equiv> 0x000e"
abbreviation (input) OCF_LE_START_ENCRYPTION :: u16 where "OCF_LE_START_ENCRYPTION \<equiv> 0x0019"
abbreviation (input) OCF_LE_LTK_REQ_REPLY :: u16 where "OCF_LE_LTK_REQ_REPLY \<equiv> 0x001a"
abbreviation (input) OCF_HCI_RESET :: u16 where "OCF_HCI_RESET \<equiv> 0x0003"

abbreviation (input) HCI_CHANNEL_RAW :: nat where "HCI_CHANNEL_RAW \<equiv> 0"
abbreviation (input) HCI_CHANNEL_USER :: nat where "HCI_CHANNEL_USER \<equiv> 1"

section \<open>Frames\<close>

record frame =
  pkt_type :: byte
  evt_code :: byte
  subevent :: byte
  status :: byte
  opcode :: u16
  handle :: u16
  cid :: u16
  acl_len :: u16
  l2cap_len :: u16
  payload :: nat
  payload_len :: u16
  raw :: bytes
  raw_len :: u16

text \<open>\<^verbatim>\<open>f.payload[i]\<close> and \<^verbatim>\<open>get_le16(f.payload + i)\<close>.\<close>

definition pl_byte :: "frame \<Rightarrow> nat \<Rightarrow> byte" where
  "pl_byte f i = raw f ! (payload f + i)"

definition pl_le16 :: "frame \<Rightarrow> nat \<Rightarrow> u16" where
  "pl_le16 f i = get_le16 (raw f) (payload f + i)"

text \<open>\<^verbatim>\<open>memcpy(dst, f.payload + i, n)\<close>.\<close>

definition pl_slice :: "frame \<Rightarrow> nat \<Rightarrow> nat \<Rightarrow> bytes" where
  "pl_slice f i n = slice (payload f + i) n (raw f)"

text \<open>The branch of \<^verbatim>\<open>hci_user_read_frame\<close> for HCI events.\<close>

definition parse_event :: "frame \<Rightarrow> frame" where
  "parse_event f0 = (let
     f1 = f0\<lparr>evt_code := raw f0 ! 1, payload := 3, payload_len := ucast (raw f0 ! 2),
             subevent := 0, status := 0, opcode := 0\<rparr>;
     f2 = (if evt_code f1 = EVT_LE_META \<and> 2 \<le> payload_len f1
           then f1\<lparr>subevent := pl_byte f1 0\<rparr> else f1);
     f3 = (if evt_code f2 = EVT_CMD_STATUS \<and> 4 \<le> payload_len f2
           then f2\<lparr>status := pl_byte f2 0, opcode := pl_le16 f2 2\<rparr> else f2);
     f4 = (if evt_code f3 = EVT_DISCONN_COMPLETE \<and> 4 \<le> payload_len f3
           then f3\<lparr>handle := pl_le16 f3 1 AND 0x0fff, status := pl_byte f3 3\<rparr> else f3)
   in (if evt_code f4 = EVT_ENCRYPT_CHANGE \<and> 4 \<le> payload_len f4
       then f4\<lparr>status := pl_byte f4 0, handle := pl_le16 f4 1 AND 0x0fff\<rparr> else f4))"

text \<open>The branch for ACL data.\<close>

definition parse_acl :: "frame \<Rightarrow> frame" where
  "parse_acl f = f\<lparr>handle := get_le16 (raw f) 1 AND 0x0fff,
                   acl_len := get_le16 (raw f) 3,
                   l2cap_len := get_le16 (raw f) 5,
                   cid := get_le16 (raw f) 7,
                   payload := 9,
                   payload_len := get_le16 (raw f) 5\<rparr>"

text \<open>What \<^verbatim>\<open>hci_user_read_frame\<close> makes of the \<open>n\<close> bytes now in \<^verbatim>\<open>raw\<close>.\<close>

definition parse_frame :: "nat \<Rightarrow> frame \<Rightarrow> frame" where
  "parse_frame n f0 = (let f = f0\<lparr>raw_len := of_nat n, pkt_type := raw f0 ! 0\<rparr> in
     if raw f ! 0 = HCI_EVENT_PKT \<and> 3 \<le> n then parse_event f
     else if raw f ! 0 = HCI_ACLDATA_PKT \<and> 9 \<le> n then parse_acl f
     else f)"

definition hci_user_read_frame :: "frame \<Rightarrow> int \<Rightarrow> env \<Rightarrow> int \<times> frame \<times> env" where
  "hci_user_read_frame f timeout_ms e = (let (pr, e1) = sys_poll timeout_ms e in
     if pr < 0 then (-1, f, e1)
     else if pr = 0 then (0, f, e1)
     else (let (n, bs, e2) = sys_read 512 e1; f' = f\<lparr>raw := overwrite (raw f) bs\<rparr> in
       if n < 1 then (if n < 0 then -1 else 0, f', e2)
       else (1, parse_frame (nat n) f', e2)))"

section \<open>Sending\<close>

definition hci_opcode :: "u16 \<Rightarrow> u16 \<Rightarrow> u16" where
  "hci_opcode ogf ocf = (ocf AND 0x03ff) OR push_bit 10 ogf"

text \<open>The bytes gathered by the \<^verbatim>\<open>iovec\<close> of \<^verbatim>\<open>hci_user_send_cmd\<close>; \<open>None\<close> is NULL.\<close>

definition cmd_packet :: "u16 \<Rightarrow> u16 \<Rightarrow> bytes option \<Rightarrow> byte \<Rightarrow> bytes" where
  "cmd_packet ogf ocf params plen =
     [HCI_COMMAND_PKT] @ put_le16 (hci_opcode ogf ocf) @ [plen] @
     (case params of None \<Rightarrow> [] | Some ps \<Rightarrow> if 0 < plen then take (unat plen) ps else [])"

definition hci_user_send_cmd ::
  "int \<Rightarrow> u16 \<Rightarrow> u16 \<Rightarrow> bytes option \<Rightarrow> byte \<Rightarrow> env \<Rightarrow> int \<times> env" where
  "hci_user_send_cmd fd ogf ocf params plen e =
     (let (n, e1) = sys_write fd (cmd_packet ogf ocf params plen) e
      in if n < 0 then (-1, e1) else (0, e1))"

definition acl_packet :: "u16 \<Rightarrow> u16 \<Rightarrow> bytes \<Rightarrow> u16 \<Rightarrow> bytes" where
  "acl_packet hdl ch data len =
     [HCI_ACLDATA_PKT] @ put_le16 ((hdl AND 0x0fff) OR push_bit 12 2) @ put_le16 (4 + len) @
     put_le16 len @ put_le16 ch @ take (unat len) data"

definition hci_user_acl_send :: "int \<Rightarrow> u16 \<Rightarrow> u16 \<Rightarrow> bytes \<Rightarrow> u16 \<Rightarrow> env \<Rightarrow> int \<times> env" where
  "hci_user_acl_send fd hdl ch data len e =
     (if 512 < len then (-1, e)
      else (let (n, e1) = sys_write fd (acl_packet hdl ch data len) e
            in if n < 0 then (-1, e1) else (0, e1)))"

section \<open>Waiting for command completion\<close>

text \<open>A Command Complete event for an opcode, as the loops recognise it.\<close>

definition cmd_complete_for :: "u16 \<Rightarrow> frame \<Rightarrow> bool" where
  "cmd_complete_for op f \<longleftrightarrow> pkt_type f = HCI_EVENT_PKT \<and> evt_code f = EVT_CMD_COMPLETE \<and>
     4 \<le> payload_len f \<and> pl_le16 f 1 = op"

function wait_cmd_loop :: "u16 \<Rightarrow> int \<Rightarrow> frame \<Rightarrow> int \<Rightarrow> env \<Rightarrow> int \<times> env" where
  "wait_cmd_loop op timeout_ms junk waited e =
     (if waited < timeout_ms then
        (let s = timeout_ms - waited;
             slice_ms = (if 200 < s then 200 else s);
             (rc, f, e1) = hci_user_read_frame junk slice_ms e
         in if 0 < rc \<and> cmd_complete_for op f
            then (if pl_byte f 3 = 0 then 0 else -1, e1)
            else wait_cmd_loop op timeout_ms junk (waited + slice_ms) e1)
      else (-1, e))"
  by pat_completeness auto
termination
  by (relation "measure (\<lambda>(op, t, j, w, e). nat (t - w))") (auto simp: Let_def split: if_splits)

declare wait_cmd_loop.simps [simp del]

definition wait_cmd_complete :: "u16 \<Rightarrow> int \<Rightarrow> frame \<Rightarrow> env \<Rightarrow> int \<times> env" where
  "wait_cmd_complete op timeout_ms junk e = wait_cmd_loop op timeout_ms junk 0 e"

text \<open>
  The drain loop of \<^verbatim>\<open>hci_user_cancel_connect\<close>: at most \<open>k\<close> more reads, ended by the
  first completion of opcode 0x200e or by a read without a frame.
\<close>

fun cancel_drain :: "nat \<Rightarrow> frame \<Rightarrow> env \<Rightarrow> nat \<times> env" where
  "cancel_drain 0 f e = (0, e)"
| "cancel_drain (Suc k) f e =
     (let (rc, f', e1) = hci_user_read_frame f 200 e
      in if rc \<le> 0 then (0, e1)
         else if cmd_complete_for 0x200e f' then (1, e1)
         else cancel_drain k f' e1)"

definition hci_user_cancel_connect :: "int \<Rightarrow> frame \<Rightarrow> env \<Rightarrow> int \<times> env" where
  "hci_user_cancel_connect fd junk e =
     (let (rc, e1) = hci_user_send_cmd fd OGF_LE_CTL OCF_LE_CREATE_CONN_CANCEL None 0 e
      in if rc < 0 then (-1, e1)
         else (let (drained, e2) = cancel_drain 5 junk e1 in (0, e2)))"

section \<open>Controller initialisation\<close>

text \<open>
  The loop that waits for the completion of HCI\_Reset: up to \<open>k\<close> reads, the frame variable
  is shared by the rounds.
\<close>

fun reset_wait :: "nat \<Rightarrow> frame \<Rightarrow> env \<Rightarrow> bool \<times> env" where
  "reset_wait 0 f e = (False, e)"
| "reset_wait (Suc k) f e =
     (let (rc, f', e1) = hci_user_read_frame f 200 e
      in if rc \<le> 0 then reset_wait k f' e1
         else if pkt_type f' = HCI_EVENT_PKT \<and> evt_code f' = EVT_CMD_COMPLETE \<and>
                 3 \<le> payload_len f' \<and> pl_le16 f' 1 = 0x0C03
         then (True, e1)
         else reset_wait k f' e1)"

definition hci_user_init :: "int \<Rightarrow> frame \<Rightarrow> env \<Rightarrow> int \<times> env" where
  "hci_user_init fd junk e =
     (let (rc, e1) = hci_user_send_cmd fd 0x03 OCF_HCI_RESET None 0 e
      in if rc < 0 then (-1, e1)
         else (let (got_reset, e2) = reset_wait 10 junk e1;
                   (rc2, e3) = hci_user_send_cmd fd OGF_LE_CTL OCF_LE_SET_EVENT_MASK
                     (Some [0xFF, 0x1F, 0, 0, 0, 0, 0, 0]) 8 e2
               in if rc2 < 0 then (-1, e3)
                  else (let (w, e4) = wait_cmd_complete 0x2001 1000 junk e3 in (0, e4))))"

section \<open>Opening and closing the channel\<close>

text \<open>
  \<^verbatim>\<open>hci_bring_down\<close>: a temporary raw socket, bound to the device, carries the ioctl
  HCIDEVDOWN. Errors that mean "already down" are accepted.
\<close>

definition hci_bring_down :: "int \<Rightarrow> env \<Rightarrow> int \<times> env" where
  "hci_bring_down dev_id e =
     (let (ctl, e1) = sys_fd e
      in if ctl < 0 then (-1, e1)
         else (let (b, e2) = sys_status (A_bind ctl (word_of_int dev_id) HCI_CHANNEL_RAW) e1
               in if b < 0 \<and> errno e2 \<noteq> E_BUSY \<and> errno e2 \<noteq> E_ALREADY
                  then (-1, sys_close ctl e2)
                  else (let (i, e3) = sys_status (A_ioctl_down ctl dev_id) e2
                        in if i < 0 \<and> errno e3 \<noteq> E_ALREADY then (-1, sys_close ctl e3)
                           else (0, usleep 100000 (sys_close ctl e3)))))"

text \<open>
  \<^verbatim>\<open>hci_user_open\<close>; \<open>route\<close> is the answer of libbluetooth's \<^verbatim>\<open>hci_get_route(NULL)\<close>.
\<close>

definition hci_user_open :: "int \<Rightarrow> env \<Rightarrow> int \<times> env" where
  "hci_user_open route e =
     (let dev_id = (if route < 0 then 0 else route);
          (down, e1) = hci_bring_down dev_id e;
          (fd, e2) = sys_fd e1
      in if fd < 0 then (-1, e2)
         else (let (b, e3) = sys_status (A_bind fd (word_of_int dev_id) HCI_CHANNEL_USER) e2
               in if b < 0 then (-1, sys_close fd e3) else (fd, e3)))"

definition hci_user_close :: "int \<Rightarrow> env \<Rightarrow> env" where
  "hci_user_close fd e = (if 0 \<le> fd then sys_close fd e else e)"

section \<open>Effects on the environment\<close>

text \<open>A frame buffer has 512 bytes; reading keeps its size.\<close>

definition wf_frame :: "frame \<Rightarrow> bool" where
  "wf_frame f \<longleftrightarrow> length (raw f) = 512"

lemma raw_parse_event [frame_simps]: "raw (parse_event f) = raw f"
  by (simp add: parse_event_def Let_def)

lemma raw_parse_frame [frame_simps]: "raw (parse_frame n f) = raw f"
  by (simp add: parse_frame_def parse_acl_def raw_parse_event Let_def)

lemma read_frame_mono [env_mono]:
  assumes "hci_user_read_frame f t e = (rc, f', e')" and "0 \<le> t"
  shows "env_le e e'"
  using assms
  by (auto simp: hci_user_read_frame_def Let_def split: prod.splits if_splits
      dest!: sys_poll_mono sys_read_mono intro: env_le_trans)

lemma acts_read_frame [env_simps]:
  "hci_user_read_frame f t e = (rc, f', e') \<Longrightarrow> acts e' = acts e"
  by (auto simp: hci_user_read_frame_def Let_def split: prod.splits if_splits
      dest!: acts_sys_poll acts_sys_read)

lemma wf_read_frame:
  "hci_user_read_frame f t e = (rc, f', e') \<Longrightarrow> wf_frame f \<Longrightarrow> wf_frame f'"
  by (auto simp: hci_user_read_frame_def Let_def wf_frame_def frame_simps
      split: prod.splits if_splits dest!: length_sys_read)

lemma read_frame_rc: "hci_user_read_frame f t e = (rc, f', e') \<Longrightarrow> rc \<in> {-1, 0, 1}"
  by (auto simp: hci_user_read_frame_def Let_def split: prod.splits if_splits)

text \<open>The loops around \<^verbatim>\<open>hci_user_read_frame\<close> progress as the loops around \<open>poll\<close> do.\<close>

lemma read_frame_progress:
  "hci_user_read_frame f t e = (rc, f', e') \<Longrightarrow>
     length (polls e') < length (polls e) \<or>
     (polls e = [] \<and> rc = 0 \<and> e' = e\<lparr>clock := clock e + 1000 * t\<rparr>)"
  by (auto simp: hci_user_read_frame_def Let_def split: prod.splits if_splits
      dest!: sys_poll_progress sys_read_frame)

text \<open>
  The order that makes a loop with a deadline end: fewer answers left, or no answer left
  and less time to the deadline.
\<close>

definition poll_before :: "((int \<times> env) \<times> (int \<times> env)) set" where
  "poll_before = measures [\<lambda>(d, e). length (polls e), \<lambda>(d, e). nat (d - now_ms e)]"

lemma wf_poll_before [simp]: "wf poll_before"
  by (simp add: poll_before_def)

lemma read_frame_before:
  "(rc, f', e') = hci_user_read_frame f t e \<Longrightarrow> 0 < t \<Longrightarrow> now_ms e < d \<Longrightarrow>
     ((d, e'), (d, e)) \<in> poll_before"
  using read_frame_progress [of f t e rc f' e'] by (auto simp: poll_before_def now_ms_later)

lemma send_cmd_mono [env_mono]: "hci_user_send_cmd fd ogf ocf ps n e = (rc, e') \<Longrightarrow> env_le e e'"
  by (auto simp: hci_user_send_cmd_def Let_def split: prod.splits if_splits dest!: sys_write_mono)

lemma acl_send_mono [env_mono]: "hci_user_acl_send fd h c d n e = (rc, e') \<Longrightarrow> env_le e e'"
  by (auto simp: hci_user_acl_send_def Let_def split: prod.splits if_splits dest!: sys_write_mono)

lemma wait_cmd_loop_mono: "wait_cmd_loop op t junk w e = (rc, e') \<Longrightarrow> env_le e e'"
proof (induction op t junk w e rule: wait_cmd_loop.induct)
  case (1 op t junk w e)
  show ?case
  proof (cases "w < t")
    case True
    define s where "s = (if 200 < t - w then 200 else t - w)"
    obtain rc1 f e1 where r: "hci_user_read_frame junk s e = (rc1, f, e1)" by (metis prod_cases3)
    have le: "env_le e e1"
      by (rule read_frame_mono [OF r]) (use True in \<open>simp add: s_def\<close>)
    show ?thesis
    proof (cases "0 < rc1 \<and> cmd_complete_for op f")
      case True
      with r le \<open>w < t\<close> "1.prems" show ?thesis
        by (subst (asm) wait_cmd_loop.simps) (simp add: Let_def flip: s_def)
    next
      case False
      with r \<open>w < t\<close> "1.prems" have "wait_cmd_loop op t junk (w + s) e1 = (rc, e')"
        by (subst (asm) wait_cmd_loop.simps) (auto simp add: Let_def simp flip: s_def)
      with "1.IH" [OF \<open>w < t\<close> refl refl, folded s_def, OF r [symmetric] refl] False
      have "env_le e1 e'" by simp
      with le show ?thesis by (rule env_le_trans)
    qed
  next
    case False
    with "1.prems" show ?thesis by (subst (asm) wait_cmd_loop.simps) simp
  qed
qed

lemma wait_cmd_complete_mono [env_mono]: "wait_cmd_complete op t junk e = (rc, e') \<Longrightarrow> env_le e e'"
  by (simp add: wait_cmd_complete_def wait_cmd_loop_mono)

lemma cancel_drain_mono [env_mono]: "cancel_drain k f e = (d, e') \<Longrightarrow> env_le e e'"
proof (induction k f e rule: cancel_drain.induct)
  case (2 k f e)
  obtain rc f1 e1 where r: "hci_user_read_frame f 200 e = (rc, f1, e1)" by (metis prod_cases3)
  then have "env_le e e1" by (rule read_frame_mono) simp
  with 2 r show ?case by (auto simp: Let_def intro: env_le_trans split: if_splits)
qed simp

lemma cancel_connect_mono [env_mono]: "hci_user_cancel_connect fd junk e = (rc, e') \<Longrightarrow> env_le e e'"
  by (auto simp: hci_user_cancel_connect_def Let_def split: prod.splits if_splits
      dest!: send_cmd_mono cancel_drain_mono intro: env_le_trans)

lemma reset_wait_mono [env_mono]: "reset_wait k f e = (g, e') \<Longrightarrow> env_le e e'"
proof (induction k f e rule: reset_wait.induct)
  case (2 k f e)
  obtain rc f1 e1 where r: "hci_user_read_frame f 200 e = (rc, f1, e1)" by (metis prod_cases3)
  then have "env_le e e1" by (rule read_frame_mono) simp
  with 2 r show ?case by (auto simp: Let_def intro: env_le_trans split: if_splits)
qed simp

lemma hci_user_init_mono [env_mono]: "hci_user_init fd junk e = (rc, e') \<Longrightarrow> env_le e e'"
  by (auto simp: hci_user_init_def Let_def split: prod.splits if_splits
      dest!: send_cmd_mono reset_wait_mono wait_cmd_complete_mono) (meson env_le_trans)+

lemma hci_bring_down_mono [env_mono]: "hci_bring_down d e = (rc, e') \<Longrightarrow> env_le e e'"
  by (auto simp: hci_bring_down_def Let_def split: prod.splits if_splits
      dest!: sys_fd_mono sys_status_mono) (meson env_le_trans sys_close_mono usleep_mono)+

lemma hci_user_open_mono [env_mono]: "hci_user_open r e = (fd, e') \<Longrightarrow> env_le e e'"
  by (auto simp: hci_user_open_def Let_def split: prod.splits if_splits
      dest!: sys_fd_mono sys_status_mono hci_bring_down_mono) (meson env_le_trans sys_close_mono)+

lemma hci_user_close_mono [simp]: "env_le e (hci_user_close fd e)"
  by (simp add: hci_user_close_def)

section \<open>The wire formats\<close>

lemma length_cmd_packet:
  "length (cmd_packet ogf ocf (Some ps) (of_nat (length ps))) = 4 + length ps"
  if "length ps < 256"
  using that by (cases "ps = []") (auto simp: cmd_packet_def unat_of_nat_byte word_gt_0 of_nat_eq_0_iff
      word_of_nat_eq_0_iff dest: nat_dvd_not_less)

lemma length_acl_packet: "length data = unat len \<Longrightarrow> length (acl_packet h c data len) = 9 + length data"
  by (simp add: acl_packet_def)

lemma hdl_flags_and: "((h AND 0x0fff) OR push_bit 12 2) AND 0x0fff = (h AND 0x0fff :: u16)"
  by (simp add: bit.conj_disj_distrib2 and.assoc)

text \<open>Reading back, field by field, what \<open>acl_packet\<close> laid out.\<close>

lemma acl_packet_type: "acl_packet h c data len ! 0 = HCI_ACLDATA_PKT"
  by (simp add: acl_packet_def)

lemma acl_packet_handle:
  "get_le16 (acl_packet h c data len @ r) 1 = (h AND 0x0fff) OR push_bit 12 2"
  using get_le16_append [of "[HCI_ACLDATA_PKT]" 1] by (simp add: acl_packet_def)

lemma acl_packet_lens:
  "get_le16 (acl_packet h c data len @ r) 3 = 4 + len"
  "get_le16 (acl_packet h c data len @ r) 5 = len"
  "get_le16 (acl_packet h c data len @ r) 7 = c"
  using get_le16_append [of "[HCI_ACLDATA_PKT] @ put_le16 ((h AND 0x0fff) OR push_bit 12 2)" 3 "4 + len"]
    get_le16_append [of "[HCI_ACLDATA_PKT] @ put_le16 ((h AND 0x0fff) OR push_bit 12 2) @
      put_le16 (4 + len)" 5 len]
    get_le16_append [of "[HCI_ACLDATA_PKT] @ put_le16 ((h AND 0x0fff) OR push_bit 12 2) @
      put_le16 (4 + len) @ put_le16 len" 7 c]
  by (simp_all add: acl_packet_def)

lemma acl_packet_handle_12:
  "get_le16 (acl_packet h c data len @ r) (Suc 0) AND 0x0fff = h AND 0x0fff"
  by (metis One_nat_def acl_packet_handle hdl_flags_and)

lemmas acl_packet_fields = acl_packet_type acl_packet_handle acl_packet_lens

lemma acl_packet_payload:
  "length data = unat len \<Longrightarrow> slice 9 (length data) (acl_packet h c data len @ r) = data"
  by (simp add: acl_packet_def slice_def)

text \<open>The decoder of ACL packets is the parser itself, run on a clear frame.\<close>

definition zero_frame :: frame where
  "zero_frame = \<lparr>pkt_type = 0, evt_code = 0, subevent = 0, status = 0, opcode = 0, handle = 0,
     cid = 0, acl_len = 0, l2cap_len = 0, payload = 0, payload_len = 0, raw = replicate 512 0,
     raw_len = 0\<rparr>"

lemma wf_zero_frame [simp]: "wf_frame zero_frame"
  by (simp add: wf_frame_def zero_frame_def)

definition dec_acl :: "bytes \<Rightarrow> (u16 \<times> u16 \<times> bytes) option" where
  "dec_acl bs = (let f = parse_frame (length bs) (zero_frame\<lparr>raw := overwrite (raw zero_frame) bs\<rparr>)
     in if pkt_type f = HCI_ACLDATA_PKT \<and> 9 \<le> length bs
        then Some (handle f, cid f, pl_slice f 0 (unat (payload_len f))) else None)"

definition acl_ok :: "u16 \<times> u16 \<times> bytes \<Rightarrow> bool" where
  "acl_ok = (\<lambda>(h, c, d). h AND 0x0fff = h \<and> length d \<le> 503)"

definition enc_acl :: "u16 \<times> u16 \<times> bytes \<Rightarrow> bytes" where
  "enc_acl = (\<lambda>(h, c, d). acl_packet h c d (of_nat (length d)))"

lemma parse_acl_packet:
  fixes f0 :: frame and c :: u16
  assumes "length d = unat len" and "h AND 0x0fff = h"
  defines "f \<equiv> parse_frame (length (acl_packet h c d len))
                 (f0\<lparr>raw := overwrite (raw f0) (acl_packet h c d len)\<rparr>)"
  shows "pkt_type f = HCI_ACLDATA_PKT" "handle f = h" "cid f = c" "acl_len f = 4 + len"
    "l2cap_len f = len" "payload_len f = len" "payload f = 9" "pl_slice f 0 (length d) = d"
proof -
  let ?p = "acl_packet h c d len"
  have len: "length ?p = 9 + length d" using assms(1) by (rule length_acl_packet)
  have f: "f = parse_acl (f0\<lparr>raw := overwrite (raw f0) ?p, raw_len := of_nat (length ?p),
                              pkt_type := HCI_ACLDATA_PKT\<rparr>)"
    unfolding f_def parse_frame_def Let_def overwrite_def
    using len by (simp add: nth_append acl_packet_fields(1))
  show "pkt_type f = HCI_ACLDATA_PKT" "handle f = h" "cid f = c" "acl_len f = 4 + len"
    "l2cap_len f = len" "payload_len f = len" "payload f = 9" "pl_slice f 0 (length d) = d"
    unfolding f parse_acl_def pl_slice_def overwrite_def
    using assms(2) by (simp_all add: acl_packet_handle_12 acl_packet_lens acl_packet_payload [OF assms(1)])
qed

interpretation acl: codec enc_acl dec_acl acl_ok
proof
  fix x :: "u16 \<times> u16 \<times> bytes"
  assume ok: "acl_ok x"
  obtain h c d where x: "x = (h, c, d)" by (metis prod_cases3)
  let ?n = "of_nat (length d) :: u16"
  from ok x have n: "length d = unat ?n" and h: "h AND 0x0fff = h"
    by (simp_all add: acl_ok_def unat_of_nat_u16)
  show "dec_acl (enc_acl x) = Some x"
    using parse_acl_packet [OF n h, of c zero_frame] n length_acl_packet [OF n, of h c]
    by (simp add: x dec_acl_def enc_acl_def Let_def)
qed

section \<open>A frame that is waiting\<close>

text \<open>
  The environment after one \<open>poll\<close> that reported data and the \<open>read\<close> of it: \<open>dt\<close>
  microseconds passed, a signal came or not, \<open>ps\<close> and \<open>rs\<close> are the remaining answers.
\<close>

definition after_read :: "nat \<Rightarrow> bool \<Rightarrow> poll_ans list \<Rightarrow> read_ans list \<Rightarrow> env \<Rightarrow> env" where
  "after_read dt sg ps rs e =
     e\<lparr>polls := ps, reads := rs, clock := clock e + int dt, running := running e \<and> \<not> sg\<rparr>"

lemma after_read_fields [simp]:
  "polls (after_read dt sg ps rs e) = ps" "reads (after_read dt sg ps rs e) = rs"
  "writes (after_read dt sg ps rs e) = writes e" "acts (after_read dt sg ps rs e) = acts e"
  "rands (after_read dt sg ps rs e) = rands e" "naps (after_read dt sg ps rs e) = naps e"
  "running (after_read dt sg ps rs e) = (running e \<and> \<not> sg)"
  "clock (after_read dt sg ps rs e) = clock e + int dt"
  by (simp_all add: after_read_def)

lemma read_frame_ready:
  assumes "polls e = Poll_ans dt sg P_ready # ps" and "reads e = R_data bs # rs"
    and "bs \<noteq> []" "length bs \<le> 512"
  shows "hci_user_read_frame f t e =
    (1, parse_frame (length bs) (f\<lparr>raw := overwrite (raw f) bs\<rparr>), after_read dt sg ps rs e)"
  using assms
  by (cases bs) (auto simp: hci_user_read_frame_def sys_poll_def sys_read_def after_read_def Let_def
      nat_add_distrib)

section \<open>Properties of the transport\<close>



section \<open>The fields of a frame\<close>

lemma read_frame_one:
  assumes "hci_user_read_frame f t e = (1, f', e')"
  obtains bs rs where "reads e = R_data bs # rs" and "take 512 bs \<noteq> []"
    and "f' = parse_frame (length (take 512 bs)) (f\<lparr>raw := overwrite (raw f) (take 512 bs)\<rparr>)"
proof -
  obtain pr e1 where p: "sys_poll t e = (pr, e1)" by fastforce
  then have r: "reads e1 = reads e"
    by (auto simp: sys_poll_def Let_def split: list.splits poll_res.splits)
  from assms p obtain n bs e2 where "sys_read 512 e1 = (n, bs, e2)" "\<not> n < 1"
    "f' = parse_frame (nat n) (f\<lparr>raw := overwrite (raw f) bs\<rparr>)"
    by (auto simp: hci_user_read_frame_def Let_def split: if_splits prod.splits)
  with r that show thesis
    by (auto simp: sys_read_def split: list.splits read_ans.splits)
qed

lemma parse_event_header:
  "evt_code (parse_event f) = raw f ! 1" "payload (parse_event f) = 3"
  "payload_len (parse_event f) = ucast (raw f ! 2)" "pkt_type (parse_event f) = pkt_type f"
  by (simp_all add: parse_event_def Let_def)

text \<open>
  \<open>decodes f p f'\<close>: \<open>f'\<close> is what reading the packet \<open>p\<close> may make of the frame \<open>f\<close>. The buffer
  keeps its 512 bytes and starts with the packet. An event of three or more bytes gives code
  and payload, which lies in the buffer; ACL data of nine or more bytes gives handle, channel
  and payload. After every other packet the decoded fields are those of \<open>f\<close>.
\<close>

definition decodes :: "frame \<Rightarrow> bytes \<Rightarrow> frame \<Rightarrow> bool" where
  "decodes f p f' \<longleftrightarrow>
     wf_frame f' \<and> take (length p) (raw f') = p \<and> pkt_type f' = p ! 0 \<and>
     (if p ! 0 = HCI_EVENT_PKT \<and> 3 \<le> length p then
        evt_code f' = p ! 1 \<and> payload f' = 3 \<and> payload_len f' = ucast (p ! 2) \<and>
        payload f' + unat (payload_len f') \<le> length (raw f')
      else if p ! 0 = HCI_ACLDATA_PKT \<and> 9 \<le> length p then
        handle f' = get_le16 p 1 AND 0x0fff \<and> cid f' = get_le16 p 7 \<and> payload f' = 9 \<and>
        payload_len f' = get_le16 p 5
      else f' = f\<lparr>raw := raw f', raw_len := raw_len f', pkt_type := pkt_type f'\<rparr>)"

lemma parse_frame_decodes:
  assumes "wf_frame f" and "p \<noteq> []" "length p \<le> 512"
  shows "decodes f p (parse_frame (length p) (f\<lparr>raw := overwrite (raw f) p\<rparr>))" (is "decodes f p ?f'")
proof -
  have raw: "raw ?f' = overwrite (raw f) p" by (simp add: raw_parse_frame)
  have wf: "wf_frame ?f'" using assms by (simp add: wf_frame_def raw)
  have b: "overwrite (raw f) p ! i = p ! i" if "i < length p" for i using that by simp
  have b0: "overwrite (raw f) p ! 0 = p ! 0" using assms(2) by (intro b) simp
  have g: "get_le16 (overwrite (raw f) p) i = get_le16 p i" if "i + 1 < length p" for i
    using that by (intro get_le16_cong b) simp_all
  have len: "3 + unat (x :: byte) \<le> 512" for x using unat_byte_le [of x] by linarith
  have event: "evt_code ?f' = p ! 1" "payload ?f' = 3" "payload_len ?f' = ucast (p ! 2)"
    if "p ! 0 = HCI_EVENT_PKT" "3 \<le> length p"
    using that b [of 1] b [of 2] by (simp_all add: parse_frame_def Let_def parse_event_header b0)
  have acl: "handle ?f' = get_le16 p 1 AND 0x0fff \<and> cid ?f' = get_le16 p 7 \<and> payload ?f' = 9 \<and>
      payload_len ?f' = get_le16 p 5"
    if "p ! 0 = HCI_ACLDATA_PKT" "9 \<le> length p"
    using that g [of 1] g [of 5] g [of 7] by (simp add: parse_frame_def Let_def parse_acl_def b0)
  have other: "?f' = f\<lparr>raw := raw ?f', raw_len := raw_len ?f', pkt_type := pkt_type ?f'\<rparr>"
    if "\<not> (p ! 0 = HCI_EVENT_PKT \<and> 3 \<le> length p)" "\<not> (p ! 0 = HCI_ACLDATA_PKT \<and> 9 \<le> length p)"
    using that by (auto simp: parse_frame_def Let_def b0)
  have "pkt_type ?f' = p ! 0" by (simp add: parse_frame_def Let_def parse_event_header parse_acl_def b0)
  with wf raw event acl other len show ?thesis by (simp add: decodes_def wf_frame_def)
qed



end
