(* ===== verification/Session.thy ===== *)
theory Session
  imports Hci_Transport
begin

text \<open>
  The session of \<^verbatim>\<open>sw2d_final.c\<close>: its states, its context \<^verbatim>\<open>session_t\<close>, the
  wrappers that send on it, and the two receive loops \<^verbatim>\<open>rx_await\<close> (wait for an HCI event)
  and \<^verbatim>\<open>rx_await_acl\<close> (wait for data on an L2CAP channel). Both loops run until their
  deadline; that they end is part of their definition.
\<close>

abbreviation (input) ATT_CID :: u16 where "ATT_CID \<equiv> 0x0004"
abbreviation (input) SMP_CID :: u16 where "SMP_CID \<equiv> 0x0006"

section \<open>State\<close>

datatype session_state =
    STATE_DISCONNECTED
  | STATE_CONNECTED_UNENCRYPTED
  | STATE_SMP_PAIRING_SENT
  | STATE_SMP_CONFIRM_RANDOM
  | STATE_ENCRYPTION_START_SENT
  | STATE_ENCRYPTED
  | STATE_ATT_READY
  | STATE_GATT_READY
  | STATE_NOTIFICATIONS_ENABLED
  | STATE_UHID_RUNNING

text \<open>The value of the enumerator in C; the states are ordered by it.\<close>

fun state_rank :: "session_state \<Rightarrow> nat" where
  "state_rank STATE_DISCONNECTED = 0"
| "state_rank STATE_CONNECTED_UNENCRYPTED = 1"
| "state_rank STATE_SMP_PAIRING_SENT = 2"
| "state_rank STATE_SMP_CONFIRM_RANDOM = 3"
| "state_rank STATE_ENCRYPTION_START_SENT = 4"
| "state_rank STATE_ENCRYPTED = 5"
| "state_rank STATE_ATT_READY = 6"
| "state_rank STATE_GATT_READY = 7"
| "state_rank STATE_NOTIFICATIONS_ENABLED = 8"
| "state_rank STATE_UHID_RUNNING = 9"

lemma state_rank_inj [simp]: "state_rank a = state_rank b \<longleftrightarrow> a = b"
  by (cases a; cases b) simp_all

instantiation session_state :: linorder
begin

definition less_eq_session_state :: "session_state \<Rightarrow> session_state \<Rightarrow> bool" where
  "a \<le> b \<longleftrightarrow> state_rank a \<le> state_rank b"

definition less_session_state :: "session_state \<Rightarrow> session_state \<Rightarrow> bool" where
  "a < b \<longleftrightarrow> state_rank a < state_rank b"

instance
  by standard (auto simp: less_eq_session_state_def less_session_state_def)

end

record session =
  hci_fd :: int
  conn_handle :: u16
  state :: session_state
  verbose :: bool
  peer_addr_type :: byte
  local_addr_type :: byte
  peer_addr :: bytes
  local_addr :: bytes
  smp_tk :: bytes
  smp_preq :: bytes
  smp_pres :: bytes
  smp_mrand :: bytes
  smp_srand :: bytes
  smp_mconfirm :: bytes
  smp_sconfirm :: bytes
  smp_stk :: bytes
  att_mtu :: u16
  svc_start :: u16
  svc_end :: u16
  report_handle :: u16
  report_cccd :: u16
  last_disconnect_reason :: byte
  did_cancel :: bool

text \<open>The indeterminate contents of the local variables the code declares uninitialised.\<close>

record stack =
  jframe :: frame
  jbuf :: bytes

definition wf_stack :: "stack \<Rightarrow> bool" where
  "wf_stack j \<longleftrightarrow> wf_frame (jframe j) \<and> 64 \<le> length (jbuf j)"

section \<open>Sending\<close>

definition le_create_conn_params :: "session \<Rightarrow> bytes" where
  "le_create_conn_params s = put_le16 0x0010 @ put_le16 0x0010 @ [0x00, peer_addr_type s] @
     take 6 (peer_addr s) @ [local_addr_type s] @ put_le16 0x0028 @ put_le16 0x0038 @
     put_le16 0x0000 @ put_le16 0x0C80 @ put_le16 0x0001 @ put_le16 0x0001"

definition le_create_conn :: "session \<Rightarrow> env \<Rightarrow> int \<times> env" where
  "le_create_conn s e = hci_user_send_cmd (hci_fd s) OGF_LE_CTL OCF_LE_CREATE_CONN
     (Some (le_create_conn_params s)) 25 e"

definition smp_send :: "session \<Rightarrow> bytes \<Rightarrow> u16 \<Rightarrow> env \<Rightarrow> int \<times> env" where
  "smp_send s data len e = hci_user_acl_send (hci_fd s) (conn_handle s) SMP_CID data len e"

definition att_send :: "session \<Rightarrow> bytes \<Rightarrow> u16 \<Rightarrow> env \<Rightarrow> int \<times> env" where
  "att_send s data len e = hci_user_acl_send (hci_fd s) (conn_handle s) ATT_CID data len e"

section \<open>Waiting for an event\<close>

text \<open>Whether an event is the awaited one.\<close>

definition awaited :: "byte \<Rightarrow> byte \<Rightarrow> frame \<Rightarrow> bool" where
  "awaited evt sub f \<longleftrightarrow>
     (if evt = EVT_LE_META then evt_code f = EVT_LE_META \<and> subevent f = sub else evt_code f = evt)"

text \<open>
  What \<^verbatim>\<open>rx_await\<close> does with an event: \<open>Some rc\<close> where it returns \<open>rc\<close>, \<open>None\<close> where it
  keeps waiting.
\<close>

definition rx_event :: "byte \<Rightarrow> byte \<Rightarrow> frame \<Rightarrow> session \<Rightarrow> int option \<times> session" where
  "rx_event evt sub f s =
     (if evt_code f = EVT_DISCONN_COMPLETE
      then (Some (-2), s\<lparr>last_disconnect_reason := status f\<rparr>)
      else (let s1 = (if evt_code f = EVT_ENCRYPT_CHANGE \<and> status f = 0x00 \<and>
                         handle f = conn_handle s
                      then s\<lparr>state := STATE_ENCRYPTED\<rparr> else s);
                conn = (evt_code f = EVT_LE_META \<and> subevent f = EVT_LE_CONN_COMPLETE \<and>
                        19 \<le> payload_len f);
                s2 = (if conn \<and> pl_byte f 1 = 0x00
                      then s1\<lparr>conn_handle := pl_le16 f 2 AND 0x0fff\<rparr> else s1)
            in if conn \<and> pl_byte f 1 \<noteq> 0x00 then (Some (-1), s1)
               else if awaited evt sub f then (Some 0, s2)
               else (None, s2)))"

text \<open>The copy to the caller's buffer \<open>out\<close> (contents and capacity), if there is one.\<close>

definition rx_copy_out :: "frame \<Rightarrow> (bytes \<times> u16) option \<Rightarrow> (bytes \<times> u16) option" where
  "rx_copy_out f out = (case out of None \<Rightarrow> None
     | Some (buf, cap) \<Rightarrow>
         if 0 < payload_len f
         then (let cp = (if payload_len f < cap then payload_len f else cap)
               in Some (overwrite buf (pl_slice f 0 (unat cp)), cp))
         else Some (buf, cap))"

function rx_await_loop ::
  "byte \<Rightarrow> byte \<Rightarrow> int \<Rightarrow> frame \<Rightarrow> (bytes \<times> u16) option \<Rightarrow> session \<Rightarrow> env \<Rightarrow>
   int \<times> (bytes \<times> u16) option \<times> session \<times> env" where
  "rx_await_loop evt sub deadline f out s e =
     (if running e then
        (let rem = deadline - now_ms e in
         if rem \<le> 0 then (-1, out, s, e)
         else (let (rc, f', e') = hci_user_read_frame f (if 500 < rem then 500 else rem) e in
           if rc \<le> 0 then rx_await_loop evt sub deadline f' out s e'
           else if pkt_type f' = HCI_EVENT_PKT then
             (case rx_event evt sub f' s of
                (Some r, s') \<Rightarrow> (r, if r = 0 then rx_copy_out f' out else out, s', e')
              | (None, s') \<Rightarrow> rx_await_loop evt sub deadline f' out s' e')
           else rx_await_loop evt sub deadline f' out s e'))
      else (-1, out, s, e))"
  by pat_completeness auto
termination
  by (relation "inv_image poll_before (\<lambda>(evt, sub, d, f, out, s, e). (d, e))")
    (auto intro: read_frame_before split: if_splits)

declare rx_await_loop.simps [simp del]

definition rx_await ::
  "frame \<Rightarrow> byte \<Rightarrow> byte \<Rightarrow> (bytes \<times> u16) option \<Rightarrow> int \<Rightarrow> session \<Rightarrow> env \<Rightarrow>
   int \<times> (bytes \<times> u16) option \<times> session \<times> env" where
  "rx_await junk evt sub out timeout_ms s e =
     rx_await_loop evt sub (now_ms e + timeout_ms) junk out s e"

section \<open>Waiting for data\<close>

function rx_await_acl_loop ::
  "u16 \<Rightarrow> int \<Rightarrow> frame \<Rightarrow> bytes \<Rightarrow> u16 \<Rightarrow> session \<Rightarrow> env \<Rightarrow> int \<times> bytes \<times> u16 \<times> session \<times> env" where
  "rx_await_acl_loop ch deadline f out out_len s e =
     (if running e then
        (let rem = deadline - now_ms e in
         if rem \<le> 0 then (-1, out, out_len, s, e)
         else (let (rc, f', e') = hci_user_read_frame f (if 500 < rem then 500 else rem) e in
           if rc \<le> 0 then rx_await_acl_loop ch deadline f' out out_len s e'
           else if pkt_type f' = HCI_EVENT_PKT then
             (if evt_code f' = EVT_DISCONN_COMPLETE
              then (-2, out, out_len, s\<lparr>last_disconnect_reason := status f'\<rparr>, e')
              else rx_await_acl_loop ch deadline f' out out_len
                (if evt_code f' = EVT_ENCRYPT_CHANGE \<and> status f' = 0x00
                 then s\<lparr>state := STATE_ENCRYPTED\<rparr> else s) e')
           else if pkt_type f' = HCI_ACLDATA_PKT \<and> handle f' = conn_handle s \<and> cid f' = ch then
             (if payload_len f' \<le> out_len
              then (0, overwrite out (pl_slice f' 0 (unat (payload_len f'))), payload_len f', s, e')
              else (0, out, out_len, s, e'))
           else rx_await_acl_loop ch deadline f' out out_len s e'))
      else (-1, out, out_len, s, e))"
  by pat_completeness auto
termination
  by (relation "inv_image poll_before (\<lambda>(ch, d, f, out, n, s, e). (d, e))")
    (auto intro: read_frame_before split: if_splits)

declare rx_await_acl_loop.simps [simp del]

definition rx_await_acl ::
  "frame \<Rightarrow> u16 \<Rightarrow> bytes \<Rightarrow> u16 \<Rightarrow> int \<Rightarrow> session \<Rightarrow> env \<Rightarrow> int \<times> bytes \<times> u16 \<times> session \<times> env" where
  "rx_await_acl junk ch out out_len timeout_ms s e =
     rx_await_acl_loop ch (now_ms e + timeout_ms) junk out out_len s e"

end
