(* ===== verification/Await.thy ===== *)
theory Await
  imports Session
begin

text \<open>
  The shape the two receive loops of \<^verbatim>\<open>sw2d_final.c\<close> share: read frames until a handler
  gives a result, the deadline passes or a signal arrives. The loops are shown equal to
  this shape with their own handlers, and what every such loop guarantees is proved once,
  in the locale \<open>frame_handler\<close>, for every handler that keeps an invariant.
\<close>

function await_loop ::
  "(frame \<Rightarrow> 's \<Rightarrow> 'r option \<times> 's) \<Rightarrow> int \<Rightarrow> frame \<Rightarrow> 's \<Rightarrow> env \<Rightarrow> 'r option \<times> 's \<times> env" where
  "await_loop h d f s e =
     (if running e \<and> now_ms e < d then
        (let (rc, f', e') = hci_user_read_frame f (if 500 < d - now_ms e then 500 else d - now_ms e) e
         in if rc \<le> 0 then await_loop h d f' s e'
            else (case h f' s of
                (Some r, s') \<Rightarrow> (Some r, s', e')
              | (None, s') \<Rightarrow> await_loop h d f' s' e'))
      else (None, s, e))"
  by pat_completeness auto
termination
  by (relation "inv_image poll_before (\<lambda>(h, d, f, s, e). (d, e))")
    (auto intro: read_frame_before split: if_splits)

declare await_loop.simps [simp del]

lemma await_loop_stop: "\<not> (running e \<and> now_ms e < d) \<Longrightarrow> await_loop h d f s e = (None, s, e)"
  by (subst await_loop.simps) (rule if_not_P)

lemma await_loop_read:
  assumes "running e" "now_ms e < d"
    and "hci_user_read_frame f (if 500 < d - now_ms e then 500 else d - now_ms e) e = (rc, f', e')"
  shows "await_loop h d f s e = (if rc \<le> 0 then await_loop h d f' s e'
     else (case h f' s of (Some r, s') \<Rightarrow> (Some r, s', e') | (None, s') \<Rightarrow> await_loop h d f' s' e'))"
  using assms by (subst await_loop.simps) simp

section \<open>What the loop guarantees\<close>

definition handler_keeps :: "(frame \<Rightarrow> 's \<Rightarrow> 'r option \<times> 's) \<Rightarrow> ('s \<Rightarrow> bool) \<Rightarrow> bool" where
  "handler_keeps h I \<longleftrightarrow> (\<forall>f s s'. wf_frame f \<longrightarrow> I s \<longrightarrow> h f s = (None, s') \<longrightarrow> I s')"

lemma handler_keepsD: "handler_keeps h I \<Longrightarrow> wf_frame f \<Longrightarrow> I s \<Longrightarrow> h f s = (None, s') \<Longrightarrow> I s'"
  by (auto simp: handler_keeps_def)

lemma await_loop_facts:
  assumes "await_loop h d f s e = (r, s', e')" "wf_frame f" "I s"
    and "handler_keeps h I"
  shows "env_le e e' \<and> acts e' = acts e \<and>
    (r = None \<longrightarrow> I s' \<and> (\<not> running e' \<or> d \<le> now_ms e')) \<and>
    (\<forall>x. r = Some x \<longrightarrow> (\<exists>f0 s0. wf_frame f0 \<and> I s0 \<and> h f0 s0 = (Some x, s')))"
  using assms
proof (induction h d f s e rule: await_loop.induct)
  case (1 h d f s e)
  show ?case
  proof (cases "running e \<and> now_ms e < d")
    case False
    with "1.prems" show ?thesis by (auto simp: await_loop_stop)
  next
    case True
    define t where "t = (if 500 < d - now_ms e then 500 else d - now_ms e)"
    obtain rc f1 e1 where rd: "hci_user_read_frame f t e = (rc, f1, e1)" by (metis prod_cases3)
    have t: "0 < t" using True by (simp add: t_def)
    have e1: "env_le e e1" "acts e1 = acts e" and wf1: "wf_frame f1"
      using read_frame_mono [OF rd] acts_read_frame [OF rd] wf_read_frame [OF rd] t "1.prems" by auto
    note unf = await_loop_read [OF _ _ rd [unfolded t_def], of h s]
    show ?thesis
    proof (cases "rc \<le> 0")
      case True
      with unf \<open>running e \<and> now_ms e < d\<close> "1.prems" have "await_loop h d f1 s e1 = (r, s', e')" by simp
      from "1.IH"(1) [OF \<open>running e \<and> now_ms e < d\<close> refl rd [symmetric, unfolded t_def] refl True this wf1
          "1.prems"(3,4)] e1 show ?thesis using env_le_trans by metis
    next
      case False
      obtain q s2 where h: "h f1 s = (q, s2)" by fastforce
      show ?thesis
      proof (cases q)
        case (Some x)
        with unf \<open>running e \<and> now_ms e < d\<close> "1.prems" False h have "r = Some x" "s' = s2" "e' = e1" by auto
        with e1 h wf1 Some "1.prems" show ?thesis by blast
      next
        case None
        with unf \<open>running e \<and> now_ms e < d\<close> "1.prems" False h
        have nxt: "await_loop h d f1 s2 e1 = (r, s', e')" by simp
        have I2: "I s2" using handler_keepsD [OF "1.prems"(4) wf1 "1.prems"(3)] h None by simp
        from "1.IH"(2) [OF \<open>running e \<and> now_ms e < d\<close> refl rd [symmetric, unfolded t_def] refl False
            h [symmetric] None nxt wf1 I2 "1.prems"(4)] e1 show ?thesis using env_le_trans by metis
      qed
    qed
  qed
qed

locale frame_handler =
  fixes h :: "frame \<Rightarrow> 's \<Rightarrow> 'r option \<times> 's" and I :: "'s \<Rightarrow> bool"
  assumes h_inv: "wf_frame f \<Longrightarrow> I s \<Longrightarrow> h f s = (None, s') \<Longrightarrow> I s'"
begin

lemma keeps: "handler_keeps h I"
  using h_inv by (auto simp: handler_keeps_def)

lemmas loop_facts = await_loop_facts [OF _ _ _ keeps]

lemma loop_env: "await_loop h d f s e = (r, s', e') \<Longrightarrow> wf_frame f \<Longrightarrow> I s \<Longrightarrow>
    env_le e e' \<and> acts e' = acts e"
  using loop_facts by blast

lemma loop_gives_up: "await_loop h d f s e = (None, s', e') \<Longrightarrow> wf_frame f \<Longrightarrow> I s \<Longrightarrow>
    I s' \<and> (\<not> running e' \<or> d \<le> now_ms e')"
  using loop_facts by blast

lemma loop_result: "await_loop h d f s e = (Some x, s', e') \<Longrightarrow> wf_frame f \<Longrightarrow> I s \<Longrightarrow>
    \<exists>f0 s0. wf_frame f0 \<and> I s0 \<and> h f0 s0 = (Some x, s')"
  using loop_facts by blast

end

text \<open>Entered before its deadline, the loop makes progress: it reads or lets time pass.\<close>

lemma poll_before_trans:
  "((d, a), (d, b)) \<in> poll_before \<Longrightarrow> ((d, b), (d, c)) \<in> poll_before \<Longrightarrow> ((d, a), (d, c)) \<in> poll_before"
  by (auto simp: poll_before_def)

lemma await_loop_progress:
  "await_loop h d f s e = (r, s', e') \<Longrightarrow> running e \<Longrightarrow> now_ms e < d \<Longrightarrow>
     ((d, e'), (d, e)) \<in> poll_before"
proof (induction h d f s e rule: await_loop.induct)
  case (1 h d f s e)
  define t where "t = (if 500 < d - now_ms e then 500 else d - now_ms e)"
  have run: "running e \<and> now_ms e < d" using "1.prems" by simp
  obtain rc f1 e1 where rd: "hci_user_read_frame f t e = (rc, f1, e1)" by (metis prod_cases3)
  have before: "((d, e1), (d, e)) \<in> poll_before"
    using read_frame_before [OF rd [symmetric]] run by (simp add: t_def)
  note unf = await_loop_read [OF "1.prems"(2,3) rd [unfolded t_def], of h s]
  have again: "((d, e'), (d, e)) \<in> poll_before"
    if "await_loop h d f1 s2 e1 = (r, s', e')"
      and "await_loop h d f1 s2 e1 = (r, s', e') \<Longrightarrow> running e1 \<Longrightarrow> now_ms e1 < d \<Longrightarrow>
             ((d, e'), (d, e1)) \<in> poll_before" for s2
  proof (cases "running e1 \<and> now_ms e1 < d")
    case True
    with that before show ?thesis by (blast intro: poll_before_trans)
  next
    case False
    with that(1) before show ?thesis by (simp add: await_loop_stop)
  qed
  show ?case
  proof (cases "rc \<le> 0")
    case True
    with unf "1.prems" have "await_loop h d f1 s e1 = (r, s', e')" by simp
    from again [OF this "1.IH"(1) [OF run refl rd [symmetric, unfolded t_def] refl True]]
    show ?thesis .
  next
    case False
    obtain q s2 where h: "h f1 s = (q, s2)" by fastforce
    show ?thesis
    proof (cases q)
      case (Some x)
      with unf "1.prems" False h before show ?thesis by simp
    next
      case None
      with unf "1.prems" False h have "await_loop h d f1 s2 e1 = (r, s', e')" by simp
      from again [OF this "1.IH"(2) [OF run refl rd [symmetric, unfolded t_def] refl False h [symmetric] None]]
      show ?thesis .
    qed
  qed
qed

section \<open>The two loops as instances\<close>

definition event_handler ::
  "byte \<Rightarrow> byte \<Rightarrow> frame \<Rightarrow> (bytes \<times> u16) option \<times> session \<Rightarrow> int option \<times> (bytes \<times> u16) option \<times> session" where
  "event_handler evt sub f st =
     (if pkt_type f = HCI_EVENT_PKT
      then (case rx_event evt sub f (snd st) of
              (Some r, s') \<Rightarrow> (Some r, if r = 0 then rx_copy_out f (fst st) else fst st, s')
            | (None, s') \<Rightarrow> (None, fst st, s'))
      else (None, st))"

definition acl_handler ::
  "u16 \<Rightarrow> frame \<Rightarrow> bytes \<times> u16 \<times> session \<Rightarrow> int option \<times> bytes \<times> u16 \<times> session" where
  "acl_handler ch f = (\<lambda>(out, n, s).
     if pkt_type f = HCI_EVENT_PKT then
       (if evt_code f = EVT_DISCONN_COMPLETE
        then (Some (-2), out, n, s\<lparr>last_disconnect_reason := status f\<rparr>)
        else (None, out, n, if evt_code f = EVT_ENCRYPT_CHANGE \<and> status f = 0x00
                            then s\<lparr>state := STATE_ENCRYPTED\<rparr> else s))
     else if pkt_type f = HCI_ACLDATA_PKT \<and> handle f = conn_handle s \<and> cid f = ch then
       (if payload_len f \<le> n
        then (Some 0, overwrite out (pl_slice f 0 (unat (payload_len f))), payload_len f, s)
        else (Some 0, out, n, s))
     else (None, out, n, s))"

definition or_timeout :: "int option \<times> 's \<times> env \<Rightarrow> int \<times> 's \<times> env" where
  "or_timeout = (\<lambda>(r, s, e). (case r of None \<Rightarrow> -1 | Some x \<Rightarrow> x, s, e))"

lemma rx_await_loop_eq:
  "rx_await_loop evt sub d f out s e =
     (case or_timeout (await_loop (event_handler evt sub) d f (out, s) e) of
        (rc, (out', s'), e') \<Rightarrow> (rc, out', s', e'))"
proof (induction evt sub d f out s e rule: rx_await_loop.induct)
  case (1 evt sub d f out s e)
  note IH = "1.IH"
  show ?case
  proof (cases "running e \<and> now_ms e < d")
    case False
    then show ?thesis
      by (subst rx_await_loop.simps) (auto simp: await_loop_stop or_timeout_def)
  next
    case True
    define t where "t = (if 500 < d - now_ms e then 500 else d - now_ms e)"
    obtain rc f1 e1 where rd: "hci_user_read_frame f t e = (rc, f1, e1)" by (metis prod_cases3)
    have gt: "\<not> d - now_ms e \<le> 0" "running e" "now_ms e < d" using True by auto
    note IHs = IH [OF gt(2) refl gt(1) refl rd [unfolded t_def, symmetric] refl]
    note unf = await_loop_read [OF gt(2,3) rd [unfolded t_def], of "event_handler evt sub" "(out, s)"]
    obtain q s2 where q: "rx_event evt sub f1 s = (q, s2)" by fastforce
    have "rx_await_loop evt sub d f out s e =
      (if rc \<le> 0 then rx_await_loop evt sub d f1 out s e1
       else if pkt_type f1 = HCI_EVENT_PKT then
         (case q of Some r \<Rightarrow> (r, if r = 0 then rx_copy_out f1 out else out, s2, e1)
          | None \<Rightarrow> rx_await_loop evt sub d f1 out s2 e1)
       else rx_await_loop evt sub d f1 out s e1)"
      using True rd q unfolding t_def
      by (subst rx_await_loop.simps) (simp add: Let_def split: option.splits)
    moreover have "event_handler evt sub f1 (out, s) =
      (if pkt_type f1 = HCI_EVENT_PKT
       then (case q of Some r \<Rightarrow> (Some r, if r = 0 then rx_copy_out f1 out else out, s2)
             | None \<Rightarrow> (None, out, s2))
       else (None, out, s))"
      by (simp add: event_handler_def q split: option.split)
    ultimately show ?thesis
      using IHs(1) IHs(2) [OF _ _ q [symmetric]] IHs(3) unfolding unf
      by (cases q; cases "rc \<le> 0"; cases "pkt_type f1 = HCI_EVENT_PKT") (simp_all add: or_timeout_def)
  qed
qed

lemma rx_await_acl_loop_eq:
  "rx_await_acl_loop ch d f out n s e =
     (case or_timeout (await_loop (acl_handler ch) d f (out, n, s) e) of
        (rc, (out', n', s'), e') \<Rightarrow> (rc, out', n', s', e'))"
proof (induction ch d f out n s e rule: rx_await_acl_loop.induct)
  case (1 ch d f out n s e)
  note IH = "1.IH"
  show ?case
  proof (cases "running e \<and> now_ms e < d")
    case False
    then show ?thesis
      by (subst rx_await_acl_loop.simps) (auto simp: await_loop_stop or_timeout_def)
  next
    case True
    define t where "t = (if 500 < d - now_ms e then 500 else d - now_ms e)"
    obtain rc f1 e1 where rd: "hci_user_read_frame f t e = (rc, f1, e1)" by (metis prod_cases3)
    have gt: "\<not> d - now_ms e \<le> 0" "running e" "now_ms e < d" using True by auto
    define m where "m \<longleftrightarrow> pkt_type f1 = HCI_ACLDATA_PKT \<and> handle f1 = conn_handle s \<and> cid f1 = ch"
    note IHs = IH [OF gt(2) refl gt(1) refl rd [unfolded t_def, symmetric] refl,
        folded m_def]
    note unf = await_loop_read [OF gt(2,3) rd [unfolded t_def], of "acl_handler ch" "(out, n, s)"]
    have "rx_await_acl_loop ch d f out n s e =
      (if rc \<le> 0 then rx_await_acl_loop ch d f1 out n s e1
       else if pkt_type f1 = HCI_EVENT_PKT then
         (if evt_code f1 = EVT_DISCONN_COMPLETE
          then (-2, out, n, s\<lparr>last_disconnect_reason := status f1\<rparr>, e1)
          else rx_await_acl_loop ch d f1 out n
            (if evt_code f1 = EVT_ENCRYPT_CHANGE \<and> status f1 = 0x00
             then s\<lparr>state := STATE_ENCRYPTED\<rparr> else s) e1)
       else if m then
         (if payload_len f1 \<le> n
          then (0, overwrite out (pl_slice f1 0 (unat (payload_len f1))), payload_len f1, s, e1)
          else (0, out, n, s, e1))
       else rx_await_acl_loop ch d f1 out n s e1)"
      using True rd unfolding t_def
      by (subst rx_await_acl_loop.simps) (simp add: Let_def m_def)
    moreover have "acl_handler ch f1 (out, n, s) =
      (if pkt_type f1 = HCI_EVENT_PKT then
         (if evt_code f1 = EVT_DISCONN_COMPLETE
          then (Some (-2), out, n, s\<lparr>last_disconnect_reason := status f1\<rparr>)
          else (None, out, n, if evt_code f1 = EVT_ENCRYPT_CHANGE \<and> status f1 = 0x00
                              then s\<lparr>state := STATE_ENCRYPTED\<rparr> else s))
       else if m then
         (if payload_len f1 \<le> n
          then (Some 0, overwrite out (pl_slice f1 0 (unat (payload_len f1))), payload_len f1, s)
          else (Some 0, out, n, s))
       else (None, out, n, s))"
      by (simp add: acl_handler_def m_def)
    ultimately show ?thesis
      using IHs unfolding unf
      by (cases "rc \<le> 0"; cases "pkt_type f1 = HCI_EVENT_PKT"; cases "evt_code f1 = EVT_DISCONN_COMPLETE";
          cases m;
          cases "payload_len f1 \<le> n") (simp_all add: or_timeout_def)
  qed
qed

section \<open>Results of the receive loops\<close>

text \<open>
  The loops change two fields of the session only; the state moves to "encrypted" if at all.
\<close>

definition session_kept :: "session \<Rightarrow> session \<Rightarrow> bool" where
  "session_kept s0 s \<longleftrightarrow>
     (\<exists>st r. s = s0\<lparr>state := st, last_disconnect_reason := r\<rparr> \<and>
             (st = state s0 \<or> st = STATE_ENCRYPTED))"

lemma session_keptI:
  "st = state s0 \<or> st = STATE_ENCRYPTED \<Longrightarrow>
     session_kept s0 (s0\<lparr>state := st, last_disconnect_reason := r\<rparr>)"
  by (auto simp: session_kept_def)

lemma session_keptE:
  assumes "session_kept s0 s"
  obtains st r where "s = s0\<lparr>state := st, last_disconnect_reason := r\<rparr>"
    "st = state s0 \<or> st = STATE_ENCRYPTED"
  using assms by (auto simp: session_kept_def)

lemma session_kept_refl [simp]: "session_kept s s"
  using session_keptI [of "state s" s "last_disconnect_reason s"] by simp

lemma session_keptD:
  assumes "session_kept s0 s"
  shows "hci_fd s = hci_fd s0" "conn_handle s = conn_handle s0" "smp_tk s = smp_tk s0"
    "smp_preq s = smp_preq s0" "smp_pres s = smp_pres s0" "smp_mrand s = smp_mrand s0"
    "smp_srand s = smp_srand s0" "smp_mconfirm s = smp_mconfirm s0" "smp_sconfirm s = smp_sconfirm s0"
    "smp_stk s = smp_stk s0" "peer_addr s = peer_addr s0" "local_addr s = local_addr s0"
    "peer_addr_type s = peer_addr_type s0" "local_addr_type s = local_addr_type s0"
    "att_mtu s = att_mtu s0" "report_handle s = report_handle s0" "report_cccd s = report_cccd s0"
    "did_cancel s = did_cancel s0" "svc_start s = svc_start s0" "svc_end s = svc_end s0"
  using assms by (auto elim!: session_keptE)

lemma session_kept_update:
  assumes "session_kept s0 s" and "st = state s \<or> st = STATE_ENCRYPTED"
  shows "session_kept s0 (s\<lparr>state := st, last_disconnect_reason := r\<rparr>)"
proof -
  obtain st0 r0 where s: "s = s0\<lparr>state := st0, last_disconnect_reason := r0\<rparr>"
    "st0 = state s0 \<or> st0 = STATE_ENCRYPTED"
    using assms(1) by (rule session_keptE)
  have "s\<lparr>state := st, last_disconnect_reason := r\<rparr> = s0\<lparr>state := st, last_disconnect_reason := r\<rparr>"
    by (rule session.equality) (simp_all add: s(1))
  moreover have "st = state s0 \<or> st = STATE_ENCRYPTED"
    using assms(2) s by auto
  ultimately show ?thesis by (simp add: session_keptI)
qed

lemma session_kept_enc:
  assumes "session_kept s0 s"
  shows "session_kept s0 (s\<lparr>state := STATE_ENCRYPTED\<rparr>)"
proof -
  have "s\<lparr>state := STATE_ENCRYPTED\<rparr> =
      s\<lparr>state := STATE_ENCRYPTED, last_disconnect_reason := last_disconnect_reason s\<rparr>"
    by (rule session.equality) simp_all
  with session_kept_update [OF assms, of STATE_ENCRYPTED] show ?thesis by metis
qed

lemma session_kept_reason:
  "session_kept s0 s \<Longrightarrow> session_kept s0 (s\<lparr>last_disconnect_reason := r\<rparr>)"
  using session_kept_update [of s0 s "state s" r] by simp

interpretation acl_await: frame_handler "acl_handler ch" "\<lambda>(out, n, s). out = out0 \<and> n = n0 \<and> session_kept s0 s"
  for ch out0 n0 s0
  by unfold_locales (auto simp: acl_handler_def session_kept_enc split: if_splits)

lemma rx_await_acl_result:
  assumes "rx_await_acl junk ch out n t s e = (rc, out', n', s', e')" and "wf_frame junk"
  shows "env_le e e' \<and> acts e' = acts e \<and> session_kept s s' \<and> rc \<in> {0, -1, -2} \<and>
    (rc \<noteq> 0 \<longrightarrow> out' = out \<and> n' = n) \<and>
    (rc = -1 \<longrightarrow> \<not> running e' \<or> now_ms e + t \<le> now_ms e') \<and>
    (rc = 0 \<longrightarrow> (\<exists>f. wf_frame f \<and> pkt_type f = HCI_ACLDATA_PKT \<and> cid f = ch \<and>
        handle f = conn_handle s \<and>
        (if payload_len f \<le> n
         then out' = overwrite out (pl_slice f 0 (unat (payload_len f))) \<and> n' = payload_len f
         else out' = out \<and> n' = n)))"
proof -
  obtain r st' where l: "await_loop (acl_handler ch) (now_ms e + t) junk (out, n, s) e = (r, st', e')"
    and rc: "(case r of None \<Rightarrow> -1 | Some x \<Rightarrow> x) = rc" and st': "st' = (out', n', s')"
    using assms(1) unfolding rx_await_acl_def rx_await_acl_loop_eq
    by (auto simp: or_timeout_def split: prod.splits)
  note facts = acl_await.loop_facts [OF l assms(2), of out n s]
  show ?thesis
  proof (cases r)
    case None
    with facts rc st' show ?thesis by auto
  next
    case (Some x)
    with facts obtain f0 s0 where wf: "wf_frame f0" and k: "session_kept s s0"
      and h: "acl_handler ch f0 (out, n, s0) = (Some x, st')" by auto
    from facts have env: "env_le e e'" "acts e' = acts e" by auto
    have "conn_handle s0 = conn_handle s" using k by (rule session_keptD)
    with h wf k env Some rc st' show ?thesis
      by (auto simp: acl_handler_def session_kept_reason split: if_splits)
  qed
qed

text \<open>\<^verbatim>\<open>rx_await\<close> also records the handle of a new connection.\<close>

definition link_kept :: "session \<Rightarrow> session \<Rightarrow> bool" where
  "link_kept s0 s \<longleftrightarrow>
     (\<exists>c st r. s = s0\<lparr>conn_handle := c, state := st, last_disconnect_reason := r\<rparr>)"

lemma link_keptI: "s = s0\<lparr>conn_handle := c, state := st, last_disconnect_reason := r\<rparr> \<Longrightarrow> link_kept s0 s"
  by (auto simp: link_kept_def)

lemma link_kept_refl [simp]: "link_kept s s"
  by (rule link_keptI [where c = "conn_handle s" and st = "state s" and r = "last_disconnect_reason s"]) simp

lemma link_kept_trans:
  assumes "link_kept s0 s1" "link_kept s1 s2"
  shows "link_kept s0 s2"
proof -
  obtain c1 t1 r1 where 1: "s1 = s0\<lparr>conn_handle := c1, state := t1, last_disconnect_reason := r1\<rparr>"
    using assms(1) by (auto simp: link_kept_def)
  obtain c2 t2 r2 where 2: "s2 = s1\<lparr>conn_handle := c2, state := t2, last_disconnect_reason := r2\<rparr>"
    using assms(2) by (auto simp: link_kept_def)
  have "s2 = s0\<lparr>conn_handle := c2, state := t2, last_disconnect_reason := r2\<rparr>"
    by (rule session.equality) (simp_all add: 1 2)
  then show ?thesis by (rule link_keptI)
qed

lemma link_kept_updates:
  "link_kept s (s\<lparr>conn_handle := c\<rparr>)" "link_kept s (s\<lparr>state := st\<rparr>)"
  "link_kept s (s\<lparr>last_disconnect_reason := r\<rparr>)"
proof -
  show "link_kept s (s\<lparr>conn_handle := c\<rparr>)"
    by (rule link_keptI [where c = c and st = "state s" and r = "last_disconnect_reason s"])
      (rule session.equality, simp_all)
  show "link_kept s (s\<lparr>state := st\<rparr>)"
    by (rule link_keptI [where c = "conn_handle s" and st = st and r = "last_disconnect_reason s"])
      (rule session.equality, simp_all)
  show "link_kept s (s\<lparr>last_disconnect_reason := r\<rparr>)"
    by (rule link_keptI [where c = "conn_handle s" and st = "state s" and r = r])
      (rule session.equality, simp_all)
qed

lemma link_keptD:
  assumes "link_kept s0 s"
  shows "hci_fd s = hci_fd s0" "smp_tk s = smp_tk s0" "peer_addr s = peer_addr s0"
    "local_addr s = local_addr s0" "peer_addr_type s = peer_addr_type s0"
    "local_addr_type s = local_addr_type s0" "did_cancel s = did_cancel s0"
    "report_handle s = report_handle s0" "report_cccd s = report_cccd s0"
  using assms by (auto simp: link_kept_def)

lemma rx_event_kept: "rx_event evt sub f s = (r, s') \<Longrightarrow> link_kept s s'"
  by (auto simp: rx_event_def Let_def split: if_splits
      intro: link_kept_updates link_kept_trans [OF link_kept_updates(2) link_kept_updates(1)])

lemma rx_event_Some_0: "rx_event evt sub f s = (Some 0, s') \<Longrightarrow> awaited evt sub f"
  by (auto simp: rx_event_def Let_def split: if_splits)

lemma rx_event_rc: "rx_event evt sub f s = (Some r, s') \<Longrightarrow> r \<in> {0, -1, -2}"
  by (auto simp: rx_event_def Let_def split: if_splits)

interpretation event_await: frame_handler "event_handler evt sub" "\<lambda>(out, s). out = out0 \<and> link_kept s0 s"
  for evt sub out0 s0
  by unfold_locales
    (auto simp: event_handler_def split: if_splits option.splits prod.splits
      dest: rx_event_kept intro: link_kept_trans)

lemma rx_await_result:
  assumes "rx_await junk evt sub out t s e = (rc, out', s', e')" and "wf_frame junk"
  shows "env_le e e' \<and> acts e' = acts e \<and> rc \<in> {0, -1, -2} \<and> link_kept s s' \<and>
    (rc = 0 \<longrightarrow> (\<exists>f s0. wf_frame f \<and> pkt_type f = HCI_EVENT_PKT \<and> awaited evt sub f \<and>
        rx_event evt sub f s0 = (Some 0, s') \<and> out' = rx_copy_out f out))"
proof -
  obtain r st' where l: "await_loop (event_handler evt sub) (now_ms e + t) junk (out, s) e = (r, st', e')"
    and rc: "(case r of None \<Rightarrow> -1 | Some x \<Rightarrow> x) = rc" and st': "st' = (out', s')"
    using assms(1) unfolding rx_await_def rx_await_loop_eq
    by (auto simp: or_timeout_def split: prod.splits)
  note facts = event_await.loop_facts [OF l assms(2), of out s]
  show ?thesis
  proof (cases r)
    case None
    with facts rc st' show ?thesis by auto
  next
    case (Some x)
    with facts obtain f0 s0 where wf: "wf_frame f0" and k: "link_kept s s0"
      and h: "event_handler evt sub f0 (out, s0) = (Some x, st')" by auto
    from h st' have p: "pkt_type f0 = HCI_EVENT_PKT" and q: "rx_event evt sub f0 s0 = (Some x, s')"
      and o: "out' = (if x = 0 then rx_copy_out f0 out else out)"
      by (auto simp: event_handler_def split: if_splits option.splits prod.splits)
    from facts have "env_le e e'" "acts e' = acts e" by auto
    with wf k p q o rc Some rx_event_Some_0 [of evt sub f0 s0 s'] rx_event_rc [OF q]
      link_kept_trans [OF k rx_event_kept [OF q]]
    show ?thesis by auto
  qed
qed

lemma rx_await_acl_progress:
  assumes "(rc, out', n', s', e') = rx_await_acl junk ch out n (d - now_ms e) s e"
    and "running e" "now_ms e < d"
  shows "((d, e'), (d, e)) \<in> poll_before"
proof -
  obtain r st' where "await_loop (acl_handler ch) d junk (out, n, s) e = (r, st', e')"
    using assms(1) unfolding rx_await_acl_def rx_await_acl_loop_eq
    by (auto simp: or_timeout_def split: prod.splits)
  then show ?thesis using assms(2,3) by (rule await_loop_progress)
qed

end
