(* ===== verification/Smp.thy ===== *)
theory Smp
  imports Prelude
begin

text \<open>
  The Security Manager functions of \<^verbatim>\<open>sw2d_final.c\<close>: \<^verbatim>\<open>smp_c1\<close> (confirm values) and
  \<^verbatim>\<open>smp_s1\<close> (short term key). The block cipher AES-128 comes from OpenSSL and is the
  parameter \<open>e\<close> of the model, \<open>e key block\<close>.
\<close>

type_synonym cipher = "bytes \<Rightarrow> bytes \<Rightarrow> bytes"

abbreviation (input) xor_bytes :: "bytes \<Rightarrow> bytes \<Rightarrow> bytes" where
  "xor_bytes xs ys \<equiv> map2 (XOR) xs ys"

definition c1_p1 :: "bytes \<Rightarrow> bytes \<Rightarrow> byte \<Rightarrow> byte \<Rightarrow> bytes" where
  "c1_p1 preq pres iat rat = take 7 pres @ take 7 preq @ [rat, iat]"

definition c1_p2 :: "bytes \<Rightarrow> bytes \<Rightarrow> bytes" where
  "c1_p2 ia ra = replicate 4 0 @ take 6 ia @ take 6 ra"

definition smp_c1 ::
  "cipher \<Rightarrow> bytes \<Rightarrow> bytes \<Rightarrow> bytes \<Rightarrow> bytes \<Rightarrow> byte \<Rightarrow> bytes \<Rightarrow> byte \<Rightarrow> bytes \<Rightarrow> bytes" where
  "smp_c1 e k r preq pres iat ia rat ra =
     (let p1 = c1_p1 preq pres iat rat;
          tmp = e k (xor_bytes r p1);
          p2 = c1_p2 ia ra
      in e k (xor_bytes tmp p2))"

definition smp_s1 :: "cipher \<Rightarrow> bytes \<Rightarrow> bytes \<Rightarrow> bytes \<Rightarrow> bytes" where
  "smp_s1 e k r1 r2 = e k (take 8 r1 @ take 8 r2)"

section \<open>What the cipher provides\<close>

text \<open>
  Documented behaviour of AES-128 in ECB mode without padding, used as a hypothesis: a
  16-byte block is mapped to a 16-byte block, and no two blocks to the same one.
\<close>

definition block_cipher :: "cipher \<Rightarrow> bool" where
  "block_cipher e \<longleftrightarrow>
     (\<forall>k x. length x = 16 \<longrightarrow> length (e k x) = 16) \<and>
     (\<forall>k x y. length x = 16 \<longrightarrow> length y = 16 \<longrightarrow> e k x = e k y \<longrightarrow> x = y)"

lemma block_cipher_length: "block_cipher e \<Longrightarrow> length x = 16 \<Longrightarrow> length (e k x) = 16"
  by (simp add: block_cipher_def)

lemma block_cipher_inj:
  "block_cipher e \<Longrightarrow> length x = 16 \<Longrightarrow> length y = 16 \<Longrightarrow> e k x = e k y \<longleftrightarrow> x = y"
  by (auto simp: block_cipher_def)

text \<open>A concrete cipher with these properties, for witnesses: XOR with a fixed-size pad.\<close>

definition pad_cipher :: cipher where
  "pad_cipher k x = map2 (XOR) x (take 16 (k @ replicate 16 0))"

lemma byte_xor_cancel: "(x :: byte) XOR z = y XOR z \<longleftrightarrow> x = y"
  by (metis xor.assoc xor_self_eq xor.right_neutral)

lemma xor_bytes_cancel:
  "length xs = length zs \<Longrightarrow> length ys = length zs \<Longrightarrow> xor_bytes xs zs = xor_bytes ys zs \<longleftrightarrow> xs = ys"
proof (induction zs arbitrary: xs ys)
  case Nil
  then show ?case by simp
next
  case (Cons z zs)
  then show ?case by (auto simp: length_Suc_conv byte_xor_cancel)
qed

lemma block_cipher_pad: "block_cipher pad_cipher"
  by (auto simp: block_cipher_def pad_cipher_def xor_bytes_cancel)

section \<open>Properties\<close>

lemma length_c1_p1 [simp]: "length preq = 7 \<Longrightarrow> length pres = 7 \<Longrightarrow> length (c1_p1 preq pres iat rat) = 16"
  by (simp add: c1_p1_def)

lemma length_c1_p2 [simp]: "length ia = 6 \<Longrightarrow> length ra = 6 \<Longrightarrow> length (c1_p2 ia ra) = 16"
  by (simp add: c1_p2_def)

lemma c1_p2_inj:
  "length ia = 6 \<Longrightarrow> length ra = 6 \<Longrightarrow> length ia' = 6 \<Longrightarrow> length ra' = 6 \<Longrightarrow>
     c1_p2 ia ra = c1_p2 ia' ra' \<longleftrightarrow> ia = ia' \<and> ra = ra'"
  by (auto simp: c1_p2_def)

lemma length_smp_c1:
  "block_cipher e \<Longrightarrow> length r = 16 \<Longrightarrow> length preq = 7 \<Longrightarrow> length pres = 7 \<Longrightarrow>
     length ia = 6 \<Longrightarrow> length ra = 6 \<Longrightarrow> length (smp_c1 e k r preq pres iat ia rat ra) = 16"
  by (simp add: smp_c1_def Let_def block_cipher_length)

text \<open>
  The confirm value commits to the random number: the same confirm for the same exchange
  means the same random number.
\<close>

lemma smp_c1_inj:
  assumes "block_cipher e" "length r = 16" "length r' = 16" "length preq = 7" "length pres = 7"
    "length ia = 6" "length ra = 6"
    and "smp_c1 e k r preq pres iat ia rat ra = smp_c1 e k r' preq pres iat ia rat ra"
  shows "r = r'"
proof -
  let ?p1 = "c1_p1 preq pres iat rat" and ?p2 = "c1_p2 ia ra"
  have "xor_bytes (e k (xor_bytes r ?p1)) ?p2 = xor_bytes (e k (xor_bytes r' ?p1)) ?p2"
    using assms by (simp add: smp_c1_def Let_def block_cipher_inj block_cipher_length)
  then have "e k (xor_bytes r ?p1) = e k (xor_bytes r' ?p1)"
    using assms by (simp add: xor_bytes_cancel block_cipher_length)
  then have "xor_bytes r ?p1 = xor_bytes r' ?p1"
    using assms by (simp add: block_cipher_inj)
  then show ?thesis using assms by (simp add: xor_bytes_cancel)
qed

text \<open>
  With the address types equal, exchanging initiator and responder changes the confirm
  value unless the two addresses are the same.
\<close>

lemma smp_c1_swap:
  assumes "block_cipher e" "length r = 16" "length preq = 7" "length pres = 7"
    "length ia = 6" "length ra = 6"
  shows "smp_c1 e k r preq pres t ia t ra = smp_c1 e k r preq pres t ra t ia \<longleftrightarrow> ia = ra"
proof -
  let ?x = "e k (xor_bytes r (c1_p1 preq pres t t))"
  have x: "length ?x = 16" using assms by (simp add: block_cipher_length)
  have comm: "map2 (XOR) xs ys = map2 (XOR) ys xs" if "length xs = length ys" for xs ys :: bytes
    using that by (induction xs ys rule: list_induct2) (simp_all add: xor.commute)
  have "smp_c1 e k r preq pres t ia t ra = smp_c1 e k r preq pres t ra t ia \<longleftrightarrow>
      xor_bytes ?x (c1_p2 ia ra) = xor_bytes ?x (c1_p2 ra ia)"
    using assms x by (simp add: smp_c1_def Let_def block_cipher_inj)
  also have "\<dots> \<longleftrightarrow> xor_bytes (c1_p2 ia ra) ?x = xor_bytes (c1_p2 ra ia) ?x"
    using assms x by (simp add: comm [of ?x])
  also have "\<dots> \<longleftrightarrow> c1_p2 ia ra = c1_p2 ra ia"
    using assms x by (simp add: xor_bytes_cancel)
  also have "\<dots> \<longleftrightarrow> ia = ra" using assms by (auto simp: c1_p2_inj)
  finally show ?thesis .
qed

end
