(* ===== verification/Pairing.thy ===== *)
theory Pairing
  imports Await Smp
begin

text \<open>
  Phases 1 to 3 of the session loop in \<^verbatim>\<open>main\<close> of \<^verbatim>\<open>sw2d_final.c\<close>: connect, pair
  with SMP Just Works, start the encryption. Every block of the C code is a definition on
  the session and the environment; \<^verbatim>\<open>goto reconnect\<close> is the result \<open>Inl Reconnect\<close>.
  Local buffers start with the indeterminate contents \<open>jbuf\<close>, local frames with \<open>jframe\<close>.
\<close>

abbreviation (input) SMP_OP_PAIRING_REQ :: byte where "SMP_OP_PAIRING_REQ \<equiv> 0x01"
abbreviation (input) SMP_OP_PAIRING_RSP :: byte where "SMP_OP_PAIRING_RSP \<equiv> 0x02"
abbreviation (input) SMP_OP_CONFIRM :: byte where "SMP_OP_CONFIRM \<equiv> 0x03"
abbreviation (input) SMP_OP_RANDOM :: byte where "SMP_OP_RANDOM \<equiv> 0x04"
abbreviation (input) SMP_OP_PAIRING_FAILED :: byte where "SMP_OP_PAIRING_FAILED \<equiv> 0x05"
abbreviation (input) SMP_OP_SECURITY_REQUEST :: byte where "SMP_OP_SECURITY_REQUEST \<equiv> 0x0b"
abbreviation (input) EVT_LE_LTK_REQUEST :: byte where "EVT_LE_LTK_REQUEST \<equiv> 0x05"

datatype exit = Reconnect

type_synonym 'a step_res = "(exit + 'a) \<times> (session \<times> env)"

section \<open>Phase 1: connect\<close>

text \<open>
  The head of the loop body: reset of the per-connection fields, then the cancel of a
  pending connection. The reset comes first, so the reason tested is the reset one.
\<close>

definition session_start :: "stack \<Rightarrow> session \<Rightarrow> env \<Rightarrow> session \<times> env" where
  "session_start j s e =
     (let s1 = s\<lparr>state := STATE_DISCONNECTED, conn_handle := 0, att_mtu := 0,
                 last_disconnect_reason := 0\<rparr>;
          e1 = (if did_cancel s1 \<or> last_disconnect_reason s1 \<noteq> 0
                then usleep 50000 (snd (hci_user_cancel_connect (hci_fd s1) (jframe j) e)) else e)
      in (s1\<lparr>did_cancel := True\<rparr>, e1))"

definition phase_connect :: "stack \<Rightarrow> session \<Rightarrow> env \<Rightarrow> unit step_res" where
  "phase_connect j s e =
     (let (rc, e1) = le_create_conn s e
      in if rc < 0 then (Inl Reconnect, s, e1)
         else (let (rc2, out, s2, e2) =
                 rx_await (jframe j) EVT_LE_META EVT_LE_CONN_COMPLETE None 10000 s e1
               in if rc2 \<noteq> 0 then (Inl Reconnect, s2, e2)
                  else (Inr (), s2\<lparr>state := STATE_CONNECTED_UNENCRYPTED\<rparr>, usleep 200000 e2)))"

section \<open>Phase 2: SMP Just Works\<close>

text \<open>2a: the optional Security Request.\<close>

definition send_security_request :: "bool \<Rightarrow> session \<Rightarrow> env \<Rightarrow> unit step_res" where
  "send_security_request send_security_req s e =
     (if send_security_req
      then (let (rc, e1) = smp_send s [SMP_OP_SECURITY_REQUEST, 0x01] 2 e
            in if rc < 0 then (Inl Reconnect, s, e1) else (Inr (), s, e1))
      else (Inr (), s, e))"

text \<open>2b: the Pairing Request.\<close>

definition pairing_preq :: bytes where
  "pairing_preq = [SMP_OP_PAIRING_REQ, 0x03, 0x00, 0x01, 0x10, 0x03, 0x03]"

definition send_pairing_request :: "session \<Rightarrow> env \<Rightarrow> unit step_res" where
  "send_pairing_request s e =
     (let s1 = s\<lparr>smp_preq := pairing_preq\<rparr>;
          (rc, e1) = smp_send s1 pairing_preq 7 e
      in if rc < 0 then (Inl Reconnect, s1, e1)
         else (Inr (), s1\<lparr>state := STATE_SMP_PAIRING_SENT\<rparr>, e1))"

text \<open>2c: the Pairing Response, with one retry after a Security Request echo.\<close>

definition store_pairing_response :: "bytes \<Rightarrow> session \<Rightarrow> session" where
  "store_pairing_response buf s = s\<lparr>smp_pres := take 7 buf, state := STATE_SMP_CONFIRM_RANDOM\<rparr>"

definition await_pairing_response :: "stack \<Rightarrow> session \<Rightarrow> env \<Rightarrow> unit step_res" where
  "await_pairing_response j s e =
     (let (rc, buf, blen, s1, e1) = rx_await_acl (jframe j) SMP_CID (take 32 (jbuf j)) 32 5000 s e
      in if rc = -2 then (Inl Reconnect, s1, e1)
         else if rc \<noteq> 0 \<or> blen < 7 \<or> buf ! 0 \<noteq> SMP_OP_PAIRING_RSP then
           (if 2 \<le> blen \<and> buf ! 0 = SMP_OP_PAIRING_FAILED then (Inl Reconnect, s1, e1)
            else if 2 \<le> blen \<and> buf ! 0 = SMP_OP_SECURITY_REQUEST then
              (let (rc2, buf2, blen2, s2, e2) = rx_await_acl (jframe j) SMP_CID buf 32 5000 s1 e1
               in if rc2 \<noteq> 0 \<or> blen2 < 7 \<or> buf2 ! 0 \<noteq> SMP_OP_PAIRING_RSP
                  then (Inl Reconnect, s2, e2)
                  else (Inr (), store_pairing_response buf2 s2, e2))
            else (Inl Reconnect, s1, e1))
         else (Inr (), store_pairing_response buf s1, e1))"

text \<open>2d: the master random number, 16 values of \<^verbatim>\<open>rand() & 0xFF\<close>, and its confirm value.\<close>

fun rand_bytes :: "nat \<Rightarrow> env \<Rightarrow> bytes \<times> env" where
  "rand_bytes 0 e = ([], e)"
| "rand_bytes (Suc k) e =
     (let (r, e1) = sys_rand e; (bs, e2) = rand_bytes k e1
      in ((word_of_int r AND 0xFF) # bs, e2))"

definition make_confirm :: "cipher \<Rightarrow> session \<Rightarrow> env \<Rightarrow> session \<times> env" where
  "make_confirm c s e =
     (let (mr, e1) = rand_bytes 16 e;
          s1 = s\<lparr>smp_mrand := mr\<rparr>
      in (s1\<lparr>smp_mconfirm := smp_c1 c (smp_tk s1) (smp_mrand s1) (smp_preq s1) (smp_pres s1)
              (local_addr_type s1) (local_addr s1) (peer_addr_type s1) (peer_addr s1)\<rparr>, e1))"

text \<open>2e to 2h: exchange of Confirm and Random. \<open>op\<close> is the opcode, \<open>v\<close> the 16 bytes.\<close>

definition smp_send_value :: "byte \<Rightarrow> bytes \<Rightarrow> session \<Rightarrow> env \<Rightarrow> unit step_res" where
  "smp_send_value op v s e =
     (let (rc, e1) = smp_send s (op # take 16 v) 17 e
      in if rc < 0 then (Inl Reconnect, s, e1) else (Inr (), s, e1))"

definition send_confirm :: "session \<Rightarrow> env \<Rightarrow> unit step_res" where
  "send_confirm s e = smp_send_value SMP_OP_CONFIRM (smp_mconfirm s) s e"

definition send_random :: "session \<Rightarrow> env \<Rightarrow> unit step_res" where
  "send_random s e = smp_send_value SMP_OP_RANDOM (smp_mrand s) s e"

definition smp_await_value :: "stack \<Rightarrow> byte \<Rightarrow> session \<Rightarrow> env \<Rightarrow> bytes step_res" where
  "smp_await_value j op s e =
     (let (rc, buf, blen, s1, e1) = rx_await_acl (jframe j) SMP_CID (take 32 (jbuf j)) 32 5000 s e
      in if rc = -2 then (Inl Reconnect, s1, e1)
         else if rc \<noteq> 0 \<or> blen \<noteq> 17 \<or> buf ! 0 \<noteq> op then (Inl Reconnect, s1, e1)
         else (Inr (slice 1 16 buf), s1, e1))"

definition await_confirm :: "stack \<Rightarrow> session \<Rightarrow> env \<Rightarrow> unit step_res" where
  "await_confirm j s e = and_then (smp_await_value j SMP_OP_CONFIRM s e)
     (\<lambda>v (s1, e1). (Inr (), s1\<lparr>smp_sconfirm := v\<rparr>, e1))"

definition await_random :: "stack \<Rightarrow> session \<Rightarrow> env \<Rightarrow> unit step_res" where
  "await_random j s e = and_then (smp_await_value j SMP_OP_RANDOM s e)
     (\<lambda>v (s1, e1). (Inr (), s1\<lparr>smp_srand := v\<rparr>, e1))"

text \<open>2i and 2j: check of the slave's confirm value, then the short term key.\<close>

definition expected_sconfirm :: "cipher \<Rightarrow> session \<Rightarrow> bytes" where
  "expected_sconfirm c s = smp_c1 c (smp_tk s) (smp_srand s) (smp_preq s) (smp_pres s)
     (peer_addr_type s) (peer_addr s) (local_addr_type s) (local_addr s)"

definition verify_confirm :: "cipher \<Rightarrow> session \<Rightarrow> env \<Rightarrow> unit step_res" where
  "verify_confirm c s e =
     (if take 16 (expected_sconfirm c s) \<noteq> take 16 (smp_sconfirm s) then (Inl Reconnect, s, e)
      else (Inr (), s\<lparr>smp_stk := smp_s1 c (smp_tk s) (smp_mrand s) (smp_srand s)\<rparr>, e))"

definition phase_smp :: "cipher \<Rightarrow> stack \<Rightarrow> bool \<Rightarrow> session \<Rightarrow> env \<Rightarrow> unit step_res" where
  "phase_smp c j sec s e =
     and_then (send_security_request sec s e) (\<lambda>_ (s, e).
     and_then (send_pairing_request s e) (\<lambda>_ (s, e).
     and_then (await_pairing_response j s e) (\<lambda>_ (s, e).
     (case make_confirm c s e of (s, e) \<Rightarrow>
     and_then (send_confirm s e) (\<lambda>_ (s, e).
     and_then (await_confirm j s e) (\<lambda>_ (s, e).
     and_then (send_random s e) (\<lambda>_ (s, e).
     and_then (await_random j s e) (\<lambda>_ (s, e).
     verify_confirm c s e))))))))"

section \<open>Phase 3: encryption\<close>

definition start_encryption_params :: "session \<Rightarrow> bytes" where
  "start_encryption_params s =
     put_le16 (conn_handle s) @ replicate 8 0 @ put_le16 0 @ take 16 (smp_stk s)"

definition start_encryption :: "session \<Rightarrow> env \<Rightarrow> unit step_res" where
  "start_encryption s e =
     (let (rc, e1) = hci_user_send_cmd (hci_fd s) OGF_LE_CTL OCF_LE_START_ENCRYPTION
            (Some (start_encryption_params s)) 28 e
      in if rc < 0 then (Inl Reconnect, s, e1)
         else (Inr (), s\<lparr>state := STATE_ENCRYPTION_START_SENT\<rparr>, e1))"

text \<open>3a: the reply to a Long Term Key Request.\<close>

definition ltk_reply :: "session \<Rightarrow> frame \<Rightarrow> env \<Rightarrow> env" where
  "ltk_reply s f e =
     (if evt_code f = EVT_LE_META \<and> subevent f = EVT_LE_LTK_REQUEST \<and> 13 \<le> payload_len f
      then snd (hci_user_send_cmd (hci_fd s) OGF_LE_CTL OCF_LE_LTK_REQ_REPLY
             (Some (put_le16 (pl_le16 f 1 AND 0x0fff) @ take 16 (smp_stk s))) 18 e)
      else e)"

lemma polls_sys_write: "sys_write fd bs e = (n, e') \<Longrightarrow> polls e' = polls e \<and> clock e' = clock e \<and> running e' = running e"
  by (auto simp: sys_write_def split: list.splits write_ans.splits)

lemma poll_before_ltk_reply:
  "((d, ltk_reply s f e1), (d, e)) \<in> poll_before \<longleftrightarrow> ((d, e1), (d, e)) \<in> poll_before"
proof -
  have "polls (ltk_reply s f e1) = polls e1 \<and> clock (ltk_reply s f e1) = clock e1"
    by (auto simp: ltk_reply_def hci_user_send_cmd_def Let_def split: prod.splits dest: polls_sys_write)
  then show ?thesis by (simp add: poll_before_def now_ms_def)
qed

text \<open>
  The wait for the Encryption Change event. The result says whether the link is encrypted
  when the loop ends, or leaves with a disconnect.
\<close>

function encryption_loop :: "stack \<Rightarrow> session \<Rightarrow> int \<Rightarrow> env \<Rightarrow> (exit + bool) \<times> env" where
  "encryption_loop j s dl e =
     (if now_ms e < dl \<and> running e then
        (let (rc, f, e1) = hci_user_read_frame (jframe j) 500 e in
         if rc \<le> 0 then encryption_loop j s dl e1
         else if pkt_type f = HCI_EVENT_PKT then
           (if evt_code f = EVT_DISCONN_COMPLETE then (Inl Reconnect, e1)
            else if evt_code f = EVT_ENCRYPT_CHANGE \<and> status f = 0x00 \<and> handle f = conn_handle s
              then (Inr True, ltk_reply s f e1)
            else encryption_loop j s dl (ltk_reply s f e1))
         else encryption_loop j s dl e1)
      else (Inr False, e))"
  by pat_completeness auto
termination
  by (relation "inv_image poll_before (\<lambda>(j, s, d, e). (d, e))")
    (auto simp: poll_before_ltk_reply intro: read_frame_before)

declare encryption_loop.simps [simp del]

definition await_encryption :: "stack \<Rightarrow> session \<Rightarrow> env \<Rightarrow> unit step_res" where
  "await_encryption j s e =
     (case encryption_loop j s (now_ms e + 10000) e of
        (Inl x, e1) \<Rightarrow> (Inl x, s, e1)
      | (Inr encrypted, e1) \<Rightarrow>
          if \<not> encrypted then (Inl Reconnect, s, e1)
          else (Inr (), s\<lparr>state := STATE_ENCRYPTED, did_cancel := False\<rparr>, e1))"

definition phase_encrypt :: "stack \<Rightarrow> session \<Rightarrow> env \<Rightarrow> unit step_res" where
  "phase_encrypt j s e =
     and_then (start_encryption s e) (\<lambda>_ (s, e). await_encryption j s e)"

end
