(* ===== verification/Gatt.thy ===== *)
theory Gatt
  imports Pairing
begin

text \<open>
  Phases 4 and 5 of the session loop in \<^verbatim>\<open>main\<close> of \<^verbatim>\<open>sw2d_final.c\<close>: ATT MTU
  exchange, discovery of services and characteristics, the write that enables
  notifications, and the loop that receives input reports.
\<close>

abbreviation (input) ATT_OP_ERROR_RSP :: byte where "ATT_OP_ERROR_RSP \<equiv> 0x01"
abbreviation (input) ATT_OP_MTU_REQ :: byte where "ATT_OP_MTU_REQ \<equiv> 0x02"
abbreviation (input) ATT_OP_MTU_RSP :: byte where "ATT_OP_MTU_RSP \<equiv> 0x03"
abbreviation (input) ATT_OP_READ_BY_TYPE_REQ :: byte where "ATT_OP_READ_BY_TYPE_REQ \<equiv> 0x08"
abbreviation (input) ATT_OP_READ_BY_TYPE_RSP :: byte where "ATT_OP_READ_BY_TYPE_RSP \<equiv> 0x09"
abbreviation (input) ATT_OP_READ_BY_GROUP_REQ :: byte where "ATT_OP_READ_BY_GROUP_REQ \<equiv> 0x10"
abbreviation (input) ATT_OP_READ_BY_GROUP_RSP :: byte where "ATT_OP_READ_BY_GROUP_RSP \<equiv> 0x11"
abbreviation (input) ATT_OP_WRITE_REQ :: byte where "ATT_OP_WRITE_REQ \<equiv> 0x12"
abbreviation (input) ATT_OP_WRITE_RSP :: byte where "ATT_OP_WRITE_RSP \<equiv> 0x13"
abbreviation (input) ATT_OP_HANDLE_NOTIFY :: byte where "ATT_OP_HANDLE_NOTIFY \<equiv> 0x1b"

section \<open>Phase 4: ATT and GATT\<close>

text \<open>4a: the MTU exchange; without a good answer the default of 23 is kept.\<close>

definition mtu_exchange :: "stack \<Rightarrow> session \<Rightarrow> env \<Rightarrow> unit step_res" where
  "mtu_exchange j s e =
     (let (r, e1) = att_send s [ATT_OP_MTU_REQ, 0xFF, 0x00] 3 e
      in if r < 0 then (Inl Reconnect, s, e1)
         else (let (rc, buf, blen, s2, e2) =
                 rx_await_acl (jframe j) ATT_CID (take 32 (jbuf j)) 32 2000 s e1
               in (Inr (),
                   s2\<lparr>att_mtu := (if rc = 0 \<and> 3 \<le> blen \<and> buf ! 0 = ATT_OP_MTU_RSP
                                   then get_le16 buf 1 else 23),
                      state := STATE_ATT_READY\<rparr>, e2)))"

text \<open>4b: the first primary service, or the full handle range.\<close>

definition discover_services :: "stack \<Rightarrow> session \<Rightarrow> env \<Rightarrow> unit step_res" where
  "discover_services j s e =
     (let (r, e1) = att_send s [ATT_OP_READ_BY_GROUP_REQ, 0x01, 0x00, 0xFF, 0xFF, 0x00, 0x28] 7 e
      in if r < 0 then (Inl Reconnect, s, e1)
         else (let (rc, buf, blen, s2, e2) =
                 rx_await_acl (jframe j) ATT_CID (take 64 (jbuf j)) 64 3000 s e1;
                   (st, en) = (if rc = 0 \<and> 6 \<le> blen \<and> buf ! 0 = ATT_OP_READ_BY_GROUP_RSP
                               then (get_le16 buf 2, get_le16 buf 4) else (0x0001, 0xFFFF))
               in (Inr (), s2\<lparr>svc_start := st, svc_end := en\<rparr>, e2)))"

text \<open>
  4c: characteristics. One answer: the last characteristic with the notify property
  becomes the report characteristic.
\<close>

definition note_characteristic :: "bytes \<Rightarrow> u16 \<Rightarrow> session \<Rightarrow> session" where
  "note_characteristic buf blen s =
     (if buf ! 0 = ATT_OP_READ_BY_TYPE_RSP \<and> 7 \<le> blen \<and> buf ! 4 AND 0x10 \<noteq> 0
      then s\<lparr>report_handle := get_le16 buf 5, report_cccd := get_le16 buf 5 + 1\<rparr> else s)"

function characteristics_loop :: "stack \<Rightarrow> int \<Rightarrow> session \<Rightarrow> env \<Rightarrow> unit step_res" where
  "characteristics_loop j dl s e =
     (if now_ms e < dl \<and> running e then
        (let (rc, buf, blen, s1, e1) =
               rx_await_acl (jframe j) ATT_CID (take 64 (jbuf j)) 64 (dl - now_ms e) s e
         in if rc = -2 then (Inl Reconnect, s1, e1)
            else if rc \<noteq> 0 then characteristics_loop j dl s1 e1
            else (let s2 = note_characteristic buf blen s1
                  in if buf ! 0 = ATT_OP_ERROR_RSP then (Inr (), s2, e1)
                     else characteristics_loop j dl s2 e1))
      else (Inr (), s, e))"
  by pat_completeness auto
termination
  by (relation "inv_image poll_before (\<lambda>(j, d, s, e). (d, e))")
    (auto intro: rx_await_acl_progress)

declare characteristics_loop.simps [simp del]

definition characteristics_request :: "session \<Rightarrow> bytes" where
  "characteristics_request s =
     [ATT_OP_READ_BY_TYPE_REQ,
      ucast (svc_start s AND 0xFF), ucast (drop_bit 8 (svc_start s)),
      ucast (svc_end s AND 0xFF), ucast (drop_bit 8 (svc_end s)), 0x03, 0x28]"

definition discover_characteristics :: "stack \<Rightarrow> session \<Rightarrow> env \<Rightarrow> unit step_res" where
  "discover_characteristics j s e =
     (let (r, e1) = att_send s (characteristics_request s) 7 e
      in if r < 0 then (Inl Reconnect, s, e1)
         else and_then (characteristics_loop j (now_ms e1 + 3000) s e1) (\<lambda>_ (s2, e2).
           (Inr (),
            (if report_handle s2 = 0 then s2\<lparr>report_handle := 0x000E, report_cccd := 0x000F\<rparr> else s2)
              \<lparr>state := STATE_GATT_READY\<rparr>, e2)))"

text \<open>4d: the write of 0x0001 to the configuration descriptor; any answer is accepted.\<close>

definition cccd_request :: "session \<Rightarrow> bytes" where
  "cccd_request s =
     [ATT_OP_WRITE_REQ, ucast (report_cccd s AND 0xFF), ucast (drop_bit 8 (report_cccd s)), 0x01, 0x00]"

definition enable_cccd :: "stack \<Rightarrow> session \<Rightarrow> env \<Rightarrow> unit step_res" where
  "enable_cccd j s e =
     (let (r, e1) = att_send s (cccd_request s) 5 e
      in if r < 0 then (Inl Reconnect, s, e1)
         else (let (rc, buf, blen, s2, e2) =
                 rx_await_acl (jframe j) ATT_CID (take 16 (jbuf j)) 16 2000 s e1
               in (Inr (), s2\<lparr>state := STATE_NOTIFICATIONS_ENABLED\<rparr>, e2)))"

definition phase_gatt :: "stack \<Rightarrow> session \<Rightarrow> env \<Rightarrow> unit step_res" where
  "phase_gatt j s e =
     and_then (mtu_exchange j s e) (\<lambda>_ (s, e).
     and_then (discover_services j s e) (\<lambda>_ (s, e).
     and_then (discover_characteristics j s e) (\<lambda>_ (s, e).
     enable_cccd j s e)))"

section \<open>Phase 5: input reports\<close>

text \<open>Whether a frame is an input report 0x09 of the subscribed characteristic.\<close>

definition is_report :: "session \<Rightarrow> frame \<Rightarrow> bool" where
  "is_report s f \<longleftrightarrow>
     pkt_type f = HCI_ACLDATA_PKT \<and> handle f = conn_handle s \<and> cid f = ATT_CID \<and>
     3 \<le> payload_len f \<and> pl_byte f 0 = ATT_OP_HANDLE_NOTIFY \<and>
     pl_le16 f 1 = report_handle s \<and> 1 \<le> payload_len f - 3 \<and> pl_byte f 3 = 0x09"

text \<open>
  The report loop. It has no deadline, so it is bounded by \<open>fuel\<close>: \<open>None\<close> means that it is
  still running. The result is the session, the number of reports and the environment.
\<close>

fun report_loop :: "nat \<Rightarrow> stack \<Rightarrow> session \<Rightarrow> nat \<Rightarrow> env \<Rightarrow> (session \<times> nat \<times> env) option" where
  "report_loop 0 j s count e = None"
| "report_loop (Suc fuel) j s count e =
     (if running e \<and> state s = STATE_NOTIFICATIONS_ENABLED then
        (let (rc, f, e1) = hci_user_read_frame (jframe j) 1000 e
         in if rc \<le> 0 then report_loop fuel j s count e1
            else if pkt_type f = HCI_EVENT_PKT \<and> evt_code f = EVT_DISCONN_COMPLETE
            then Some (s\<lparr>last_disconnect_reason := status f\<rparr>, count, e1)
            else report_loop fuel j s (if is_report s f then count + 1 else count) e1)
      else Some (s, count, e))"

section \<open>One session\<close>

text \<open>The link: phases 1 to 3 after the head of the loop body.\<close>

definition link_phases :: "cipher \<Rightarrow> stack \<Rightarrow> bool \<Rightarrow> session \<Rightarrow> env \<Rightarrow> unit step_res" where
  "link_phases c j sec s e =
     (case session_start j s e of (s, e) \<Rightarrow>
        and_then (phase_connect j s e) (\<lambda>_ (s, e).
        and_then (phase_smp c j sec s e) (\<lambda>_ (s, e).
        phase_encrypt j s e)))"

definition session_setup :: "cipher \<Rightarrow> stack \<Rightarrow> bool \<Rightarrow> session \<Rightarrow> env \<Rightarrow> unit step_res" where
  "session_setup c j sec s e =
     and_then (link_phases c j sec s e) (\<lambda>_ (s, e). phase_gatt j s e)"

text \<open>The body of the loop up to the label \<^verbatim>\<open>reconnect\<close>.\<close>

definition session_cycle :: "nat \<Rightarrow> cipher \<Rightarrow> stack \<Rightarrow> bool \<Rightarrow> session \<Rightarrow> env \<Rightarrow> (session \<times> env) option" where
  "session_cycle fuel c j sec s e =
     (case session_setup c j sec s e of
        (Inl Reconnect, s1, e1) \<Rightarrow> Some (s1, e1)
      | (Inr _, s1, e1) \<Rightarrow>
          (case report_loop fuel j s1 0 e1 of
             None \<Rightarrow> None
           | Some (s2, n, e2) \<Rightarrow> Some (s2\<lparr>did_cancel := False\<rparr>, e2)))"

text \<open>The reconnect loop with its back-off: \<open>fuel\<close> sessions, each with \<open>fuel\<close> reads of reports.\<close>

definition next_backoff :: "nat \<Rightarrow> nat" where
  "next_backoff b = (if b < 16 then b * 2 else b)"

fun reconnect_loop :: "nat \<Rightarrow> cipher \<Rightarrow> stack \<Rightarrow> bool \<Rightarrow> nat \<Rightarrow> session \<Rightarrow> env \<Rightarrow> env option" where
  "reconnect_loop 0 c j sec backoff s e = None"
| "reconnect_loop (Suc fuel) c j sec backoff s e =
     (if \<not> running e then Some e
      else case session_cycle (Suc fuel) c j sec s e of
             None \<Rightarrow> None
           | Some (s1, e1) \<Rightarrow>
               if \<not> running e1 then Some e1
               else reconnect_loop fuel c j sec (next_backoff backoff) s1 (sleep backoff e1))"

end
