(* ===== verification/Advertising.thy ===== *)
theory Advertising
  imports Hci_Transport
begin

text \<open>
  Finding the controller (\<^verbatim>\<open>sw2d_final.c\<close>): the address helpers, the parser of
  advertising data \<^verbatim>\<open>adv_data_has_switch2_pro\<close> and the scan loop
  \<^verbatim>\<open>scan_for_peer_user\<close> over the LE Advertising Report events.
\<close>

abbreviation (input) LE_PUBLIC_ADDRESS :: byte where "LE_PUBLIC_ADDRESS \<equiv> 0x00"
abbreviation (input) LE_RANDOM_ADDRESS :: byte where "LE_RANDOM_ADDRESS \<equiv> 0x01"
abbreviation (input) EVT_LE_ADV_REPORT :: byte where "EVT_LE_ADV_REPORT \<equiv> 0x02"
abbreviation (input) OCF_LE_SET_SCAN_PARAMS :: u16 where "OCF_LE_SET_SCAN_PARAMS \<equiv> 0x000b"
abbreviation (input) OCF_LE_SET_SCAN_ENABLE :: u16 where "OCF_LE_SET_SCAN_ENABLE \<equiv> 0x000c"

section \<open>Addresses\<close>

definition addr_type_name :: "byte \<Rightarrow> string" where
  "addr_type_name t = (if t = LE_PUBLIC_ADDRESS then ''public''
     else if t = LE_RANDOM_ADDRESS then ''random'' else ''unknown'')"

definition addr_is_zero :: "bytes \<Rightarrow> bool" where
  "addr_is_zero addr \<longleftrightarrow> (\<forall>i \<in> set [0..<6]. addr ! i = 0)"

definition addr_looks_static_random :: "bytes \<Rightarrow> bool" where
  "addr_looks_static_random addr \<longleftrightarrow> addr ! 5 AND 0xC0 = 0xC0"

section \<open>Advertising data\<close>

text \<open>
  One manufacturer element at \<open>m = data + di + 2\<close> of declared length \<open>el\<close>: the identifiers
  the code accepts it with, first with VID/PID right after the company, then (for \<open>el\<close> at
  least 10) after three more bytes.
\<close>

definition manufacturer_match :: "bytes \<Rightarrow> nat \<Rightarrow> byte \<Rightarrow> (u16 \<times> u16 \<times> u16) option" where
  "manufacturer_match data m el =
     (let c = get_le16 data (m + 0);
          vid = (if 7 \<le> el then get_le16 data (m + 2) else 0);
          pid = (if 7 \<le> el then get_le16 data (m + 4) else 0)
      in if c = 0x0553 \<and> vid = 0x057E \<and> pid = 0x2069 then Some (c, vid, pid)
         else (let (vid', pid') = (if c = 0x0553 \<and> 10 \<le> el
                  then (get_le16 data (m + 5), get_le16 data (m + 7)) else (vid, pid))
               in if c = 0x0553 \<and> vid' = 0x057E \<and> pid' = 0x2069 then Some (c, vid', pid')
                  else None))"

text \<open>The loop over the AD elements from offset \<open>di\<close>.\<close>

function adv_elements :: "bytes \<Rightarrow> nat \<Rightarrow> nat \<Rightarrow> (u16 \<times> u16 \<times> u16) option" where
  "adv_elements data dlen di =
     (if di + 2 < dlen then
        (let el = data ! di; ty = data ! (di + 1)
         in if el = 0 \<or> dlen < di + 1 + unat el then None
            else case (if ty = 0xFF \<and> 7 \<le> el then manufacturer_match data (di + 2) el else None) of
                   Some ids \<Rightarrow> Some ids
                 | None \<Rightarrow> adv_elements data dlen (di + (1 + unat el)))
      else None)"
  by pat_completeness auto
termination
  by (relation "measure (\<lambda>(data, dlen, di). dlen - di)") auto

declare adv_elements.simps [simp del]

definition adv_data_has_switch2_pro :: "bytes \<Rightarrow> byte \<Rightarrow> (u16 \<times> u16 \<times> u16) option" where
  "adv_data_has_switch2_pro data dlen = adv_elements data (unat dlen) 0"

section \<open>Advertising reports\<close>

text \<open>
  The loop over the reports of one event: report \<open>ri\<close> of \<open>nrep\<close> starts at \<open>off\<close> in the
  payload, of which \<open>plen\<close> bytes count. The result is the peer's address and type.
\<close>

function scan_reports :: "frame \<Rightarrow> nat \<Rightarrow> nat \<Rightarrow> nat \<Rightarrow> nat \<Rightarrow> (bytes \<times> byte) option" where
  "scan_reports f plen nrep ri off =
     (if ri < nrep \<and> off + 10 \<le> plen then
        (let atype = pl_byte f (off + 1); dlen = pl_byte f (off + 8)
         in if plen < off + 10 + unat dlen then None
            else case adv_data_has_switch2_pro (drop (payload f + off + 9) (raw f)) dlen of
                   Some ids \<Rightarrow> Some (pl_slice f (off + 2) 6, atype)
                 | None \<Rightarrow> scan_reports f plen nrep (ri + 1) (off + (10 + unat dlen)))
      else None)"
  by pat_completeness auto
termination
  by (relation "measure (\<lambda>(f, plen, nrep, ri, off). nrep - ri)") auto

declare scan_reports.simps [simp del]

text \<open>What the scan loop does with one frame: the clamp of the length, then the reports.\<close>

definition scan_frame :: "frame \<Rightarrow> (bytes \<times> byte) option" where
  "scan_frame f =
     (if pkt_type f \<noteq> HCI_EVENT_PKT \<or> evt_code f \<noteq> EVT_LE_META \<or>
         subevent f \<noteq> EVT_LE_ADV_REPORT \<or> payload_len f < 3 then None
      else (let plen = (if 3 \<le> raw_len f \<and> raw_len f - 3 < payload_len f
                        then raw_len f - 3 else payload_len f)
            in scan_reports f (unat plen) (unat (pl_byte f 1)) 0 2))"

text \<open>The loop of \<^verbatim>\<open>scan_for_peer_user\<close>; the frame is declared in its body.\<close>

function scan_loop :: "int \<Rightarrow> frame \<Rightarrow> env \<Rightarrow> (bytes \<times> byte) option \<times> env" where
  "scan_loop deadline junk e =
     (if running e \<and> now_ms e < deadline then
        (let rem = deadline - now_ms e;
             (rc, f, e1) = hci_user_read_frame junk (if 500 < rem then 500 else rem) e
         in if rc \<le> 0 then scan_loop deadline junk e1
            else case scan_frame f of
                   Some found \<Rightarrow> (Some found, e1)
                 | None \<Rightarrow> scan_loop deadline junk e1)
      else (None, e))"
  by pat_completeness auto
termination
  by (relation "inv_image poll_before (\<lambda>(d, j, e). (d, e))")
    (auto intro: read_frame_before split: if_splits)

declare scan_loop.simps [simp del]

text \<open>
  \<^verbatim>\<open>scan_for_peer_user\<close>: passive scan parameters, enable, the loop, disable. The result is
  the peer found, or \<open>None\<close> where the code returns -1.
\<close>

definition scan_for_peer_user ::
  "int \<Rightarrow> byte \<Rightarrow> int \<Rightarrow> frame \<Rightarrow> env \<Rightarrow> (bytes \<times> byte) option \<times> env" where
  "scan_for_peer_user fd own_type timeout_ms junk e =
     (let params = put_le16 0x0010 @ put_le16 0x0010 @ [0x00, own_type, 0x00];
          (r1, e1) = hci_user_send_cmd fd OGF_LE_CTL OCF_LE_SET_SCAN_PARAMS (Some params) 7 e
      in if r1 < 0 then (None, e1)
         else (let (r2, e2) = hci_user_send_cmd fd OGF_LE_CTL OCF_LE_SET_SCAN_ENABLE
                     (Some [0x01, 0x00]) 2 e1
               in if r2 < 0 then (None, e2)
                  else (let (found, e3) = scan_loop (now_ms e2 + timeout_ms) junk e2;
                            (r3, e4) = hci_user_send_cmd fd OGF_LE_CTL OCF_LE_SET_SCAN_ENABLE
                              (Some [0x00, 0x00]) 2 e3
                        in (found, e4))))"

section \<open>The advertising parser against its specification\<close>

text \<open>
  Advertising data is a sequence of elements: a length, a type, and the content. The
  specification says which element makes the advertiser a Switch 2 Pro controller, with no
  mention of offsets into a buffer.
\<close>

definition tlv :: "(byte \<times> bytes) list \<Rightarrow> bytes" where
  "tlv els = concat (map (\<lambda>(ty, bs). of_nat (length bs + 1) # ty # bs) els)"

definition switch2_element :: "byte \<times> bytes \<Rightarrow> bool" where
  "switch2_element = (\<lambda>(ty, bs). ty = 0xFF \<and> 6 \<le> length bs \<and> get_le16 bs 0 = 0x0553 \<and>
     (get_le16 bs 2 = 0x057E \<and> get_le16 bs 4 = 0x2069 \<or>
      9 \<le> length bs \<and> get_le16 bs 5 = 0x057E \<and> get_le16 bs 7 = 0x2069))"

definition switch2_advertiser :: "(byte \<times> bytes) list \<Rightarrow> bool" where
  "switch2_advertiser els \<longleftrightarrow> list_ex switch2_element els"

lemma get_le16_inner:
  "length pre = m \<Longrightarrow> k + 1 < length bs \<Longrightarrow> get_le16 (pre @ bs @ post) (m + k) = get_le16 bs k"
  by (auto simp: get_le16_def nth_append)

lemma manufacturer_match_inner:
  assumes "6 \<le> length bs" "unat el = length bs + 1" "length pre = m"
  shows "manufacturer_match (pre @ bs @ post) m el =
    (if switch2_element (0xFF, bs) then Some (0x0553, 0x057E, 0x2069) else None)"
proof -
  have le: "7 \<le> el" "10 \<le> el \<longleftrightarrow> 9 \<le> length bs"
    using assms(1,2) by (simp_all add: word_le_nat_alt)
  note g = get_le16_inner [OF assms(3), of _ bs post]
  show ?thesis
    using assms(1) le g [of 0] g [of 2] g [of 4] g [of 5] g [of 7]
    by (cases "9 \<le> length bs")
      (simp_all add: manufacturer_match_def switch2_element_def Let_def)
qed

lemma adv_elements_stop: "dlen \<le> di + 2 \<Longrightarrow> adv_elements data dlen di = None"
  by (subst adv_elements.simps) simp

lemma adv_elements_tlv:
  "list_all (\<lambda>(ty, bs). length bs \<le> 254) els \<Longrightarrow>
   adv_elements (pre @ tlv els @ post) (length pre + length (tlv els)) (length pre) =
     (if switch2_advertiser els then Some (0x0553, 0x057E, 0x2069) else None)"
proof (induction els arbitrary: pre)
  case Nil
  then show ?case by (simp add: adv_elements_stop tlv_def switch2_advertiser_def)
next
  case (Cons x els)
  obtain ty bs where x: "x = (ty, bs)" by fastforce
  define el :: byte where "el = of_nat (length bs + 1)"
  define data where "data = pre @ tlv (x # els) @ post"
  define dlen where "dlen = length pre + length (tlv (x # els))"
  have n: "length bs \<le> 254" using Cons.prems x by simp
  then have el: "unat el = length bs + 1" unfolding el_def by (intro unat_of_nat_byte) simp
  have tl: "tlv (x # els) = el # ty # bs @ tlv els" by (simp add: x tlv_def el_def)
  have data: "data = (pre @ [el, ty]) @ bs @ (tlv els @ post)" by (simp add: data_def tl)
  have dlen: "dlen = length pre + 2 + length bs + length (tlv els)" by (simp add: dlen_def tl)
  have IH: "adv_elements data dlen (length pre + (1 + unat el)) =
      (if switch2_advertiser els then Some (0x0553, 0x057E, 0x2069) else None)"
    using Cons.IH [of "(pre @ [el, ty]) @ bs"] Cons.prems el
    by (simp add: data dlen x add.assoc add.left_commute)
  have h: "data ! length pre = el" "data ! (length pre + 1) = ty"
    by (simp_all add: data nth_append)
  have le: "7 \<le> el \<longleftrightarrow> 6 \<le> length bs" using el by (simp add: word_le_nat_alt)
  have pos: "el \<noteq> 0" using el by auto
  have "adv_elements data dlen (length pre) =
     (if switch2_advertiser (x # els) then Some (0x0553, 0x057E, 0x2069) else None)"
  proof (cases "length bs + length (tlv els) = 0")
    case True
    then have "els = []" by (cases els) (auto simp: tlv_def)
    with True dlen x show ?thesis
      by (simp add: adv_elements_stop switch2_advertiser_def switch2_element_def)
  next
    case False
    have mm: "(if ty = 0xFF \<and> 7 \<le> el then manufacturer_match data (length pre + 2) el else None) =
        (if switch2_element x then Some (0x0553, 0x057E, 0x2069) else None)"
      using manufacturer_match_inner [of bs el "pre @ [el, ty]" "length pre + 2" "tlv els @ post"] el
      unfolding data le x by (auto simp: switch2_element_def)
    have "adv_elements data dlen (length pre) =
        (case (if ty = 0xFF \<and> 7 \<le> el then manufacturer_match data (length pre + 2) el else None) of
           Some ids \<Rightarrow> Some ids | None \<Rightarrow> adv_elements data dlen (length pre + (1 + unat el)))"
      using False dlen el h pos by (subst adv_elements.simps) (simp add: Let_def)
    with IH mm show ?thesis by (simp add: switch2_advertiser_def)
  qed
  then show ?case unfolding data_def dlen_def .
qed

text \<open>
  C14. On every well-formed advertising payload, at any place of a buffer, the byte parser
  decides exactly the specification: it reports the identifiers of the controller if one
  of the elements is a manufacturer element of the company 0x0553 with VID 0x057E and PID
  0x2069 in one of the two layouts, and nothing otherwise.
\<close>

theorem adv_data_spec:
  assumes "length (tlv els) < 256"
  shows "adv_data_has_switch2_pro (tlv els @ post) (of_nat (length (tlv els))) =
    (if switch2_advertiser els then Some (0x0553, 0x057E, 0x2069) else None)"
proof -
  have "length bs + 2 \<le> length (tlv els)" if "(ty, bs) \<in> set els" for ty bs
    using that by (induction els) (auto simp: tlv_def)
  with assms have "list_all (\<lambda>(ty, bs). length bs \<le> 254) els" by (fastforce simp: list_all_iff)
  from adv_elements_tlv [OF this, of "[]" post] assms show ?thesis
    by (simp add: adv_data_has_switch2_pro_def unat_of_nat_byte)
qed

text \<open>The payload of the captures: flags, then the company, three bytes, VID and PID.\<close>

theorem adv_data_spec_witness:
  "adv_data_has_switch2_pro (tlv [(0x01, [0x06]), (0xFF, [0x53, 0x05, 1, 0, 3, 0x7E, 0x05, 0x69, 0x20])] @ [0xAA])
     14 = Some (0x0553, 0x057E, 0x2069)"
  using adv_data_spec [of "[(0x01, [0x06]), (0xFF, [0x53, 0x05, 1, 0, 3, 0x7E, 0x05, 0x69, 0x20])]" "[0xAA]"]
  by (simp add: tlv_def switch2_advertiser_def switch2_element_def get_le16_def)

section \<open>Only received bytes are looked at\<close>

lemma prefix_nth: "take n xs = take n ys \<Longrightarrow> i < n \<Longrightarrow> xs ! i = ys ! i"
  by (metis nth_take)

lemma prefix_le16: "take n xs = take n ys \<Longrightarrow> i + 1 < n \<Longrightarrow> get_le16 xs i = get_le16 ys i"
  by (intro get_le16_cong prefix_nth) auto

lemma manufacturer_match_prefix:
  assumes "take n xs = take n ys" "m + 5 < n" "10 \<le> el \<Longrightarrow> m + 8 < n"
  shows "manufacturer_match xs m el = manufacturer_match ys m el"
proof -
  note g = prefix_le16 [OF assms(1)]
  show ?thesis
    using assms(2,3) g [of "m + 0"] g [of "m + 2"] g [of "m + 4"] g [of "m + 5"] g [of "m + 7"]
    by (cases "10 \<le> el") (simp_all add: manufacturer_match_def Let_def)
qed

lemma adv_elements_prefix:
  "take n xs = take n ys \<Longrightarrow> adv_elements xs n di = adv_elements ys n di"
proof (induction xs n di rule: adv_elements.induct)
  case (1 xs n di)
  show ?case
  proof (cases "di + 2 < n")
    case True
    define el where "el = xs ! di"
    have y: "ys ! di = el" "ys ! (di + 1) = xs ! (di + 1)"
      using True 1(2) by (auto simp: el_def intro: prefix_nth [symmetric])
    show ?thesis
    proof (cases "el = 0 \<or> n < di + 1 + unat el")
      case True
      with \<open>di + 2 < n\<close> y show ?thesis
        by (subst (1 2) adv_elements.simps) (auto simp: Let_def el_def)
    next
      case False
      have mm: "manufacturer_match xs (di + 2) el = manufacturer_match ys (di + 2) el" if "7 \<le> el"
        using False that 1(2) by (intro manufacturer_match_prefix) (auto simp: word_le_nat_alt)
      then have q: "(if xs ! (di + 1) = 0xFF \<and> 7 \<le> el then manufacturer_match xs (di + 2) el else None) =
          (if xs ! (di + 1) = 0xFF \<and> 7 \<le> el then manufacturer_match ys (di + 2) el else None)" by simp
      note IH = 1(1) [OF \<open>di + 2 < n\<close> refl refl, folded el_def, OF False _ 1(2)]
      show ?thesis
        using \<open>di + 2 < n\<close> False y q IH
        by (subst (1 2) adv_elements.simps) (simp add: Let_def flip: el_def split: option.split)
    qed
  next
    case False
    then show ?thesis by (simp add: adv_elements_stop)
  qed
qed

lemma scan_reports_prefix:
  assumes "take n (raw f) = take n r" "payload f = 3" "plen + 3 \<le> n" "n \<le> length (raw f)"
    "length r = length (raw f)"
  shows "scan_reports f plen nrep ri off = scan_reports (f\<lparr>raw := r\<rparr>) plen nrep ri off"
  using assms
proof (induction f plen nrep ri off rule: scan_reports.induct)
  case (1 f plen nrep ri off)
  let ?g = "f\<lparr>raw := r\<rparr>"
  show ?case
  proof (cases "ri < nrep \<and> off + 10 \<le> plen")
    case True
    have b: "pl_byte ?g k = pl_byte f k" if "k < plen" for k
      using that "1.prems" by (simp add: pl_byte_def prefix_nth [OF "1.prems"(1)])
    define dlen where "dlen = pl_byte f (off + 8)"
    show ?thesis
    proof (cases "plen < off + 10 + unat dlen")
      case big: True
      show ?thesis
        using True big b by (subst (1 2) scan_reports.simps) (simp add: Let_def dlen_def)
    next
      case False
      have sl: "pl_slice ?g (off + 2) 6 = pl_slice f (off + 2) 6"
      proof (rule nth_equalityI)
        show "length (pl_slice ?g (off + 2) 6) = length (pl_slice f (off + 2) 6)"
          using "1.prems" by (simp add: pl_slice_def slice_def)
        show "pl_slice ?g (off + 2) 6 ! i = pl_slice f (off + 2) 6 ! i"
          if "i < length (pl_slice ?g (off + 2) 6)" for i
          using that True "1.prems" by (simp add: pl_slice_def prefix_nth [OF "1.prems"(1)])
      qed
      have "take (unat dlen) (drop (12 + off) (raw f)) = take (unat dlen) (drop (12 + off) r)"
        using "1.prems" False by (intro nth_equalityI) (auto simp: prefix_nth [OF "1.prems"(1)])
      then have adv: "adv_data_has_switch2_pro (drop (payload ?g + off + 9) (raw ?g)) dlen =
          adv_data_has_switch2_pro (drop (payload f + off + 9) (raw f)) dlen"
        using "1.prems"(2) adv_elements_prefix [of "unat dlen" "drop (12 + off) r" "drop (12 + off) (raw f)" 0]
        by (simp add: adv_data_has_switch2_pro_def add.commute add.left_commute)
      note IH = "1.IH" [OF True refl refl, folded dlen_def, OF False _ "1.prems"]
      show ?thesis
        using True False b sl adv IH
        by (subst (1 2) scan_reports.simps) (simp add: Let_def flip: dlen_def split: option.split)
    qed
  next
    case False
    then show ?thesis by (subst (1 2) scan_reports.simps) auto
  qed
qed


text \<open>
  A report that declares 31 bytes of data in a frame of 20 received ones, with stale bytes
  behind it.
\<close>

definition demo_frame :: frame where
  "demo_frame = parse_frame 20 (zero_frame\<lparr>raw :=
     [0x04, 0x3e, 45, 0x02, 1, 0, 1, 1, 2, 3, 4, 5, 6, 31, 2, 1, 6, 30, 0xFF, 0x53] @
     replicate 492 0x05\<rparr>)"


end
