(* ===== verification/Effects.thy ===== *)
theory Effects
  imports Gatt Advertising
begin

text \<open>
  What the session of \<^verbatim>\<open>sw2d_final.c\<close> may do to its environment, proved once for
  every admitted relation (the locales that extend \<open>env_effect\<close> by the writes and
  pauses a phase makes), and the interpretations the properties use: the descriptors are
  left alone, the ATT channel is silent before the link is encrypted, the encryption is
  not started before the confirm value is checked, the pauses are the intended ones.
\<close>

section \<open>The receive loops\<close>

context env_effect
begin

lemma read_frame_R: "hci_user_read_frame f t e = (rc, f', e') \<Longrightarrow> 0 \<le> t \<Longrightarrow> R e e'"
  by (auto simp: hci_user_read_frame_def Let_def split: prod.splits if_splits
      dest!: R_poll R_read intro: R_trans)

lemma await_loop_R: "await_loop h d f s e = (r, s', e') \<Longrightarrow> R e e'"
proof (induction h d f s e rule: await_loop.induct)
  case (1 h d f s e)
  show ?case
  proof (cases "running e \<and> now_ms e < d")
    case False
    with "1.prems" show ?thesis by (auto simp: await_loop_stop R_refl)
  next
    case True
    define t where "t = (if 500 < d - now_ms e then 500 else d - now_ms e)"
    obtain rc f1 e1 where rd: "hci_user_read_frame f t e = (rc, f1, e1)" by (metis prod_cases3)
    have R1: "R e e1" by (rule read_frame_R [OF rd]) (use True in \<open>simp add: t_def\<close>)
    note unf = await_loop_read [OF conjunct1 [OF True] conjunct2 [OF True] rd [unfolded t_def], of h s]
    show ?thesis
    proof (cases "rc \<le> 0")
      case rc: True
      with unf "1.prems" have "await_loop h d f1 s e1 = (r, s', e')" by simp
      from R_trans [OF R1 "1.IH"(1) [OF True refl rd [symmetric, unfolded t_def] refl rc this]]
      show ?thesis .
    next
      case rc: False
      obtain q s2 where h: "h f1 s = (q, s2)" by fastforce
      show ?thesis
      proof (cases q)
        case (Some x)
        with unf "1.prems" rc h R1 show ?thesis by simp
      next
        case None
        with unf "1.prems" rc h have "await_loop h d f1 s2 e1 = (r, s', e')" by simp
        from R_trans [OF R1 "1.IH"(2) [OF True refl rd [symmetric, unfolded t_def] refl rc
            h [symmetric] None this]]
        show ?thesis .
      qed
    qed
  qed
qed

lemma rx_await_R: "rx_await junk evt sub out t s e = (rc, out', s', e') \<Longrightarrow> R e e'"
  unfolding rx_await_def rx_await_loop_eq
  by (auto simp: or_timeout_def split: prod.splits dest: await_loop_R)

lemma rx_await_acl_R: "rx_await_acl junk ch out n t s e = (rc, out', n', s', e') \<Longrightarrow> R e e'"
  unfolding rx_await_acl_def rx_await_acl_loop_eq
  by (auto simp: or_timeout_def split: prod.splits dest: await_loop_R)

lemma cancel_drain_R: "cancel_drain k f e = (d, e') \<Longrightarrow> R e e'"
proof (induction k f e rule: cancel_drain.induct)
  case (2 k f e)
  obtain rc f1 e1 where r: "hci_user_read_frame f 200 e = (rc, f1, e1)" by (metis prod_cases3)
  then have "R e e1" by (rule read_frame_R) simp
  with 2 r show ?case by (auto simp: Let_def intro: R_trans split: if_splits)
qed (simp add: R_refl)

lemma rand_bytes_R: "rand_bytes k e = (bs, e') \<Longrightarrow> R e e'"
  by (induction k arbitrary: e bs e')
    (auto simp: Let_def R_refl split: prod.splits dest!: R_rand intro: R_trans)

lemma send_cmd_R:
  "hci_user_send_cmd fd ogf ocf ps n e = (rc, e') \<Longrightarrow> W fd (cmd_packet ogf ocf ps n) \<Longrightarrow> R e e'"
  by (auto simp: hci_user_send_cmd_def Let_def split: prod.splits if_splits dest: R_write)

lemma acl_send_R:
  "hci_user_acl_send fd h c d n e = (rc, e') \<Longrightarrow> W fd (acl_packet h c d n) \<Longrightarrow> R e e'"
  by (auto simp: hci_user_acl_send_def Let_def R_refl split: prod.splits if_splits dest: R_write)

end

section \<open>The phases\<close>

locale smp_effect = env_effect +
  assumes W_create: "W fd (cmd_packet OGF_LE_CTL OCF_LE_CREATE_CONN ps n)"
    and W_cancel: "W fd (cmd_packet OGF_LE_CTL OCF_LE_CREATE_CONN_CANCEL ps n)"
    and W_smp: "W fd (acl_packet h SMP_CID d m)"
    and S_settle: "S 50000" "S 200000"
begin

lemma session_start_R: "session_start j s e = (s', e') \<Longrightarrow> R e e'"
  by (auto simp: session_start_def hci_user_cancel_connect_def Let_def R_refl split: prod.splits if_splits
      dest!: send_cmd_R cancel_drain_R intro!: W_cancel intro: R_trans R_usleep [OF S_settle(1)])

lemma phase_connect_R: "phase_connect j s e = (r, s', e') \<Longrightarrow> R e e'"
  by (auto simp: phase_connect_def le_create_conn_def Let_def split: prod.splits if_splits
      dest!: send_cmd_R rx_await_R intro!: W_create)
    (meson R_trans R_usleep S_settle(2))+

lemma smp_send_R: "smp_send s d n e = (rc, e') \<Longrightarrow> R e e'"
  by (auto simp: smp_send_def dest!: acl_send_R intro!: W_smp)

lemma await_value_R: "smp_await_value j op s e = (r, s', e') \<Longrightarrow> R e e'"
  by (auto simp: smp_await_value_def Let_def split: prod.splits if_splits dest!: rx_await_acl_R)

lemma smp_steps_R:
  "send_security_request sec s e = (r, s', e') \<Longrightarrow> R e e'"
  "send_pairing_request s e = (r, s', e') \<Longrightarrow> R e e'"
  "smp_send_value op v s e = (r, s', e') \<Longrightarrow> R e e'"
  by (auto simp: send_security_request_def send_pairing_request_def smp_send_value_def Let_def R_refl
      split: prod.splits if_splits dest: smp_send_R)

lemma pairing_response_R: "await_pairing_response j s e = (r, s', e') \<Longrightarrow> R e e'"
  by (auto simp: await_pairing_response_def Let_def split: prod.splits if_splits
      dest!: rx_await_acl_R intro: R_trans)

lemma make_confirm_R: "make_confirm c s e = (s', e') \<Longrightarrow> R e e'"
  by (auto simp: make_confirm_def Let_def split: prod.splits dest: rand_bytes_R)

lemma await_pdu_R:
  "await_confirm j s e = (r, s', e') \<Longrightarrow> R e e'" "await_random j s e = (r, s', e') \<Longrightarrow> R e e'"
  by (auto simp: await_confirm_def await_random_def and_then_def split: prod.splits sum.splits
      dest: await_value_R)

lemma verify_confirm_R: "verify_confirm c s e = (r, s', e') \<Longrightarrow> R e e'"
  by (auto simp: verify_confirm_def R_refl split: if_splits)

lemmas smp_all_R = smp_steps_R pairing_response_R make_confirm_R await_pdu_R verify_confirm_R

lemma phase_smp_R: "phase_smp c j sec s e = (r, s', e') \<Longrightarrow> R e e'"
  unfolding phase_smp_def send_confirm_def send_random_def
  by (auto simp: and_then_def split: prod.splits sum.splits dest!: smp_all_R) (meson R_trans)+

end

locale link_effect = smp_effect +
  assumes W_start: "W fd (cmd_packet OGF_LE_CTL OCF_LE_START_ENCRYPTION ps n)"
    and W_ltk: "W fd (cmd_packet OGF_LE_CTL OCF_LE_LTK_REQ_REPLY ps n)"
begin

lemma ltk_reply_R: "R e (ltk_reply s f e)"
proof -
  obtain rc e1 where "hci_user_send_cmd (hci_fd s) OGF_LE_CTL OCF_LE_LTK_REQ_REPLY
      (Some (put_le16 (pl_le16 f 1 AND 0x0fff) @ take 16 (smp_stk s))) 18 e = (rc, e1)" by fastforce
  then show ?thesis using send_cmd_R [OF _ W_ltk] by (simp add: ltk_reply_def R_refl)
qed

lemma encryption_loop_R: "encryption_loop j s d e = (r, e') \<Longrightarrow> R e e'"
proof (induction j s d e rule: encryption_loop.induct)
  case (1 j s d e)
  show ?case
  proof (cases "now_ms e < d \<and> running e")
    case False
    with "1.prems" show ?thesis by (subst (asm) encryption_loop.simps) (auto simp: R_refl)
  next
    case True
    obtain rc f e1 where rd: "hci_user_read_frame (jframe j) 500 e = (rc, f, e1)" by (metis prod_cases3)
    have R1: "R e e1" by (rule read_frame_R [OF rd]) simp
    have R2: "R e (ltk_reply s f e1)" by (rule R_trans [OF R1 ltk_reply_R])
    note IH = "1.IH" [OF True rd [symmetric] refl]
    from "1.prems" True rd show ?thesis
      using IH R1 R2 by (subst (asm) encryption_loop.simps) (auto intro: R_trans split: if_splits)
  qed
qed

lemma phase_encrypt_R: "phase_encrypt j s e = (r, s', e') \<Longrightarrow> R e e'"
  by (auto simp: phase_encrypt_def start_encryption_def await_encryption_def and_then_def Let_def
      split: prod.splits sum.splits if_splits dest!: encryption_loop_R send_cmd_R
      intro!: W_start intro: R_trans)

lemma link_phases_R: "link_phases c j sec s e = (r, s', e') \<Longrightarrow> R e e'"
  by (auto simp: link_phases_def and_then_def split: prod.splits sum.splits
      dest!: session_start_R phase_connect_R phase_smp_R phase_encrypt_R) (meson R_trans)+

end

locale gatt_effect = link_effect +
  assumes W_att: "W fd (acl_packet h ATT_CID d m)"
begin

lemma att_send_R: "att_send s d n e = (rc, e') \<Longrightarrow> R e e'"
  by (auto simp: att_send_def dest!: acl_send_R intro!: W_att)

lemma characteristics_loop_R: "characteristics_loop j d s e = (r, s', e') \<Longrightarrow> R e e'"
proof (induction j d s e rule: characteristics_loop.induct)
  case (1 j d s e)
  show ?case
  proof (cases "now_ms e < d \<and> running e")
    case False
    with "1.prems" show ?thesis by (subst (asm) characteristics_loop.simps) (auto simp: R_refl)
  next
    case True
    obtain rc buf n s1 e1 where rd:
      "rx_await_acl (jframe j) ATT_CID (take 64 (jbuf j)) 64 (d - now_ms e) s e = (rc, buf, n, s1, e1)"
      by (metis prod_cases5)
    have R1: "R e e1" by (rule rx_await_acl_R [OF rd])
    note IH = "1.IH" [OF True rd [symmetric] refl refl refl refl]
    from "1.prems" True rd show ?thesis
      using IH R1 by (subst (asm) characteristics_loop.simps) (auto simp: Let_def intro: R_trans split: if_splits)
  qed
qed

lemma gatt_steps_R:
  "mtu_exchange j s e = (r, s', e') \<Longrightarrow> R e e'"
  "discover_services j s e = (r, s', e') \<Longrightarrow> R e e'"
  "enable_cccd j s e = (r, s', e') \<Longrightarrow> R e e'"
  "discover_characteristics j s e = (r, s', e') \<Longrightarrow> R e e'"
  by (auto simp: mtu_exchange_def discover_services_def enable_cccd_def discover_characteristics_def
      and_then_def Let_def split: prod.splits sum.splits if_splits
      dest!: att_send_R rx_await_acl_R characteristics_loop_R intro: R_trans)

lemma phase_gatt_R: "phase_gatt j s e = (r, s', e') \<Longrightarrow> R e e'"
  by (auto simp: phase_gatt_def and_then_def split: prod.splits sum.splits dest!: gatt_steps_R)
    (meson R_trans)+

lemma session_setup_R: "session_setup c j sec s e = (r, s', e') \<Longrightarrow> R e e'"
  by (auto simp: session_setup_def and_then_def split: prod.splits sum.splits
      dest!: link_phases_R phase_gatt_R intro: R_trans)

lemma report_loop_R: "report_loop fuel j s n e = Some (s', n', e') \<Longrightarrow> R e e'"
proof (induction fuel j s n e rule: report_loop.induct)
  case (2 fuel j s n e)
  obtain rc f e1 where rd: "hci_user_read_frame (jframe j) 1000 e = (rc, f, e1)" by (metis prod_cases3)
  have R1: "R e e1" by (rule read_frame_R [OF rd]) simp
  from "2.IH" [OF _ rd [symmetric] refl] "2.prems" rd R1 show ?case
    by (auto simp: R_refl Let_def intro: R_trans split: if_splits)
qed simp

lemma session_cycle_R: "session_cycle fuel c j sec s e = Some (s', e') \<Longrightarrow> R e e'"
  by (auto simp: session_cycle_def split: prod.splits sum.splits exit.splits option.splits
      dest!: session_setup_R report_loop_R intro: R_trans)

end

text \<open>The pauses between sessions.\<close>

definition backoffs :: "nat list" where
  "backoffs = [1, 2, 4, 8, 16]"

lemma next_backoff_in: "b \<in> set backoffs \<Longrightarrow> next_backoff b \<in> set backoffs"
  by (auto simp: backoffs_def next_backoff_def)

locale daemon_effect = gatt_effect +
  assumes S_backoff: "b \<in> set backoffs \<Longrightarrow> S (1000000 * b)"
begin

lemma reconnect_loop_R:
  "reconnect_loop fuel c j sec b s e = Some e' \<Longrightarrow> b \<in> set backoffs \<Longrightarrow> R e e'"
proof (induction fuel c j sec b s e rule: reconnect_loop.induct)
  case (2 fuel c j sec b s e)
  show ?case
  proof (cases "running e")
    case True
    with "2.prems" obtain s1 e1 where sc: "session_cycle (Suc fuel) c j sec s e = Some (s1, e1)"
      by (auto split: option.splits)
    then have R1: "R e e1" by (rule session_cycle_R)
    show ?thesis
    proof (cases "running e1")
      case run: True
      with "2.prems" True sc
      have "reconnect_loop fuel c j sec (next_backoff b) s1 (sleep b e1) = Some e'" by simp
      from "2.IH" [OF _ sc refl _ this next_backoff_in [OF "2.prems"(2)]] True run
      have "R (sleep b e1) e'" by simp
      moreover have "R e1 (sleep b e1)"
        unfolding sleep_def by (rule R_usleep [OF S_backoff [OF "2.prems"(2)]])
      ultimately show ?thesis using R1 R_trans by blast
    next
      case False
      with "2.prems" True sc R1 show ?thesis by simp
    qed
  next
    case False
    with "2.prems" show ?thesis by (simp add: R_refl)
  qed
qed simp

end

section \<open>Initialisation and scan\<close>

locale setup_effect = env_effect +
  assumes W_cmd: "W fd (cmd_packet ogf ocf ps n)"
begin

lemma cmd_R: "hci_user_send_cmd fd ogf ocf ps n e = (rc, e') \<Longrightarrow> R e e'"
  by (rule send_cmd_R [OF _ W_cmd])

lemma reset_wait_R: "reset_wait k f e = (g, e') \<Longrightarrow> R e e'"
proof (induction k f e rule: reset_wait.induct)
  case (2 k f e)
  obtain rc f1 e1 where r: "hci_user_read_frame f 200 e = (rc, f1, e1)" by (metis prod_cases3)
  then have "R e e1" by (rule read_frame_R) simp
  with 2 r show ?case by (auto simp: Let_def intro: R_trans split: if_splits)
qed (simp add: R_refl)

lemma wait_cmd_loop_R: "wait_cmd_loop op t junk w e = (rc, e') \<Longrightarrow> R e e'"
proof (induction op t junk w e rule: wait_cmd_loop.induct)
  case (1 op t junk w e)
  show ?case
  proof (cases "w < t")
    case True
    define s where "s = (if 200 < t - w then 200 else t - w)"
    obtain rc1 f e1 where r: "hci_user_read_frame junk s e = (rc1, f, e1)" by (metis prod_cases3)
    have R1: "R e e1" by (rule read_frame_R [OF r]) (use True in \<open>simp add: s_def\<close>)
    show ?thesis
    proof (cases "0 < rc1 \<and> cmd_complete_for op f")
      case True
      with r R1 \<open>w < t\<close> "1.prems" show ?thesis
        by (subst (asm) wait_cmd_loop.simps) (simp add: Let_def flip: s_def)
    next
      case False
      with r \<open>w < t\<close> "1.prems" have "wait_cmd_loop op t junk (w + s) e1 = (rc, e')"
        by (subst (asm) wait_cmd_loop.simps) (auto simp add: Let_def simp flip: s_def)
      with "1.IH" [OF \<open>w < t\<close> refl refl, folded s_def, OF r [symmetric] refl] False
      have "R e1 e'" by simp
      with R1 show ?thesis by (rule R_trans)
    qed
  next
    case False
    with "1.prems" show ?thesis by (subst (asm) wait_cmd_loop.simps) (simp add: R_refl)
  qed
qed

lemma hci_user_init_R: "hci_user_init fd junk e = (rc, e') \<Longrightarrow> R e e'"
  by (auto simp: hci_user_init_def wait_cmd_complete_def Let_def split: prod.splits if_splits
      dest!: cmd_R reset_wait_R wait_cmd_loop_R) (meson R_trans)+

lemma scan_loop_R: "scan_loop d junk e = (r, e') \<Longrightarrow> R e e'"
proof (induction d junk e rule: scan_loop.induct)
  case (1 d junk e)
  show ?case
  proof (cases "running e \<and> now_ms e < d")
    case False
    with "1.prems" show ?thesis by (subst (asm) scan_loop.simps) (auto simp: R_refl)
  next
    case True
    define t where "t = (if 500 < d - now_ms e then 500 else d - now_ms e)"
    obtain rc f e1 where rd: "hci_user_read_frame junk t e = (rc, f, e1)" by (metis prod_cases3)
    have R1: "R e e1" by (rule read_frame_R [OF rd]) (use True in \<open>simp add: t_def\<close>)
    note IH = "1.IH" [OF True refl, folded t_def, OF rd [symmetric] refl]
    from "1.prems" True rd show ?thesis
      using IH R1 unfolding t_def
      by (subst (asm) scan_loop.simps) (auto simp: Let_def intro: R_trans split: if_splits option.splits)
  qed
qed

lemma scan_for_peer_user_R: "scan_for_peer_user fd own t junk e = (r, e') \<Longrightarrow> R e e'"
  by (auto simp: scan_for_peer_user_def Let_def split: prod.splits if_splits
      dest!: cmd_R scan_loop_R) (meson R_trans)+

end

interpretation setup_fds: setup_effect fds_kept "\<lambda>fd bs. True" "\<lambda>us. True"
  by unfold_locales simp

end
