(* ===== verification/C_Strings.thy ===== *)
theory C_Strings
  imports Prelude
begin

text \<open>
  The functions of the C library on strings and text files that the programs use:
  \<^verbatim>\<open>fgets\<close>, \<^verbatim>\<open>strstr\<close>, the \<^verbatim>\<open>%02x\<close> conversion of \<^verbatim>\<open>sscanf\<close>
  and \<^verbatim>\<open>atoi\<close>. A C string is the list of its characters without the final NUL.
\<close>

definition newline :: char where "newline = CHR 0x0A"

definition is_space :: "char \<Rightarrow> bool" where
  "is_space c \<longleftrightarrow> c \<in> set [CHR 0x20, CHR 0x09, CHR 0x0A, CHR 0x0B, CHR 0x0C, CHR 0x0D]"

text \<open>\<^verbatim>\<open>fgets(buf, n, f)\<close> on the rest of a file: the line (with its newline) and the rest.\<close>

fun fgets_line :: "nat \<Rightarrow> string \<Rightarrow> string \<times> string" where
  "fgets_line 0 s = ([], s)"
| "fgets_line (Suc n) [] = ([], [])"
| "fgets_line (Suc n) (c # s) =
     (if c = newline then ([c], s) else (let (l, r) = fgets_line n s in (c # l, r)))"

definition fgets :: "nat \<Rightarrow> string \<Rightarrow> (string \<times> string) option" where
  "fgets n s = (if s = [] then None else Some (fgets_line (n - 1) s))"

text \<open>The C string in a buffer, and its text up to the newline.\<close>

definition cstr :: "string \<Rightarrow> string" where
  "cstr s = takeWhile (\<lambda>c. c \<noteq> CHR 0x00) s"

definition chomp :: "string \<Rightarrow> string" where
  "chomp s = takeWhile (\<lambda>c. c \<noteq> newline) (cstr s)"

text \<open>\<^verbatim>\<open>strstr(hay, needle) != NULL\<close>.\<close>

fun strstr :: "string \<Rightarrow> string \<Rightarrow> bool" where
  "strstr [] needle = (needle = [])"
| "strstr (c # s) needle = (take (length needle) (c # s) = needle \<or> strstr s needle)"

definition hex_digit :: "char \<Rightarrow> nat option" where
  "hex_digit c = (let n = of_char c in
     if 48 \<le> n \<and> n \<le> 57 then Some (n - 48)
     else if 97 \<le> n \<and> n \<le> 102 then Some (n - 87)
     else if 65 \<le> n \<and> n \<le> 70 then Some (n - 55) else None)"

text \<open>The conversion \<^verbatim>\<open>%02x\<close> of \<^verbatim>\<open>sscanf\<close>: white space, then at most two characters.\<close>

definition scan_hex2 :: "string \<Rightarrow> (int \<times> string) option" where
  "scan_hex2 s = (case dropWhile is_space s of
      [] \<Rightarrow> None
    | c # r \<Rightarrow>
       if c = CHR ''+'' \<or> c = CHR ''-'' then
         (case r of [] \<Rightarrow> None
          | d # r' \<Rightarrow> map_option (\<lambda>v. (if c = CHR ''-'' then - int v else int v, r')) (hex_digit d))
       else (case hex_digit c of None \<Rightarrow> None
          | Some v \<Rightarrow>
             (case r of [] \<Rightarrow> Some (int v, [])
              | d # r' \<Rightarrow>
                 (case hex_digit d of Some w \<Rightarrow> Some (int (16 * v + w), r')
                  | None \<Rightarrow> if c = CHR ''0'' \<and> (d = CHR ''x'' \<or> d = CHR ''X'')
                            then Some (0, r') else Some (int v, r)))))"

fun expect_colon :: "string \<Rightarrow> string option" where
  "expect_colon [] = None"
| "expect_colon (c # s) = (if c = CHR '':'' then Some s else None)"

text \<open>\<open>n\<close> more fields, each after a colon.\<close>

fun scan_fields :: "nat \<Rightarrow> string \<Rightarrow> int list option" where
  "scan_fields 0 s = Some []"
| "scan_fields (Suc n) s = Option.bind (expect_colon s) (\<lambda>s1.
     Option.bind (scan_hex2 s1) (\<lambda>(v, s2). map_option ((#) v) (scan_fields n s2)))"

text \<open>\<^verbatim>\<open>atoi\<close> (values that fit the type).\<close>

fun digits_value :: "int \<Rightarrow> string \<Rightarrow> int" where
  "digits_value acc [] = acc"
| "digits_value acc (c # s) =
     (if 48 \<le> (of_char c :: nat) \<and> (of_char c :: nat) \<le> 57
      then digits_value (10 * acc + of_char c - 48) s else acc)"

definition atoi :: "string \<Rightarrow> int" where
  "atoi s = (case dropWhile is_space s of [] \<Rightarrow> 0
     | c # r \<Rightarrow> if c = CHR ''-'' then - digits_value 0 r
                else if c = CHR ''+'' then digits_value 0 r else digits_value 0 (c # r))"

lemma fgets_line_shorter: "fgets_line (Suc n) (c # s) = (l, r) \<Longrightarrow> length r < length (c # s)"
proof (induction n arbitrary: c s l r)
  case 0
  then show ?case by (auto split: if_splits prod.splits)
next
  case (Suc n)
  show ?case
  proof (cases s)
    case Nil
    with Suc.prems show ?thesis by (auto split: if_splits prod.splits)
  next
    case (Cons d s')
    with Suc.prems Suc.IH [of d s'] show ?thesis
      by (auto simp del: fgets_line.simps(3) simp: fgets_line.simps(3) [of "Suc n" c]
          split: if_splits prod.splits)
  qed
qed

lemma fgets_shorter: "fgets (Suc (Suc n)) s = Some (l, r) \<Longrightarrow> length r < length s"
  by (cases s) (auto simp: fgets_def simp del: fgets_line.simps dest: fgets_line_shorter)

lemma length_scan_fields: "scan_fields n s = Some vs \<Longrightarrow> length vs = n"
  by (induction n arbitrary: s vs) (auto simp: bind_eq_Some_conv)

end
