(* ===== verification/Daemon.thy ===== *)
theory Daemon
  imports Gatt Advertising C_Strings
begin

text \<open>
  The rest of \<^verbatim>\<open>sw2d_final.c\<close>: the host address from sysfs, the USB preparation of the
  controller, the guard against other Bluetooth programs, the preflight check, the
  command line, and \<^verbatim>\<open>main\<close>. The file system is data (\<open>host\<close>); the functions of
  libbluetooth are parameters: \<open>str2ba\<close> of the record, and \<open>route\<close> for
  \<^verbatim>\<open>hci_get_route\<close>.
\<close>

section \<open>The host\<close>

text \<open>A process directory entry: whether it is a directory, and its \<^verbatim>\<open>comm\<close> if readable.\<close>

type_synonym proc_entry = "bool \<times> string option"

record host =
  str2ba :: "string \<Rightarrow> bytes option"
  route :: int
  euid :: nat
  paths :: "string list"
  sysfs_address :: "string option"
  cmdline :: "string option"
  procs :: "proc_entry list option"
  procs_after_kill :: "proc_entry list option"

text \<open>
  \<^verbatim>\<open>read_local_bdaddr\<close>: the six fields of the sysfs file, last byte first. The result is
  \<open>None\<close> where the code returns -1.
\<close>

definition read_local_bdaddr :: "host \<Rightarrow> bytes option" where
  "read_local_bdaddr h =
     Option.bind (sysfs_address h) (\<lambda>content.
     Option.bind (fgets 32 content) (\<lambda>(line, _).
     Option.bind (scan_hex2 (chomp line)) (\<lambda>(v, rest).
     map_option (\<lambda>vs. map word_of_int (rev (v # vs))) (scan_fields 5 rest))))"

section \<open>USB preparation\<close>

definition usb_report :: "byte \<Rightarrow> byte \<Rightarrow> bytes \<Rightarrow> bytes" where
  "usb_report cmd op args =
     (let r = (replicate 64 0)[0 := 0x01, 1 := cmd, 10 := op]
      in take 11 r @ args @ drop (11 + length args) r)"

text \<open>One \<^verbatim>\<open>write\<close> of a report; on failure the device is closed.\<close>

definition usb_write :: "int \<Rightarrow> bytes \<Rightarrow> env \<Rightarrow> (int + unit) \<times> env" where
  "usb_write fd r e = (let (n, e1) = sys_write fd r e
     in if n < 0 then (Inl (-1), sys_close fd e1) else (Inr (), e1))"

definition usb_prep :: "bytes \<Rightarrow> env \<Rightarrow> int \<times> env" where
  "usb_prep host_addr e =
     (let (fd, e0) = sys_fd e
      in if fd < 0 then (-1, e0)
         else (case and_then (usb_write fd (usb_report 0x01 0x06 [0x01]) e0) (\<lambda>_ e.
                    and_then (usb_write fd (usb_report 0x02 0x08 [0x00]) e) (\<lambda>_ e.
                    usb_write fd (usb_report 0x03 0x01 (take 6 host_addr)) e)) of
                 (Inl r, e1) \<Rightarrow> (r, e1)
               | (Inr _, e1) \<Rightarrow> (0, sys_close fd e1)))"

section \<open>Other Bluetooth programs\<close>

definition is_bt_client :: "string \<Rightarrow> bool" where
  "is_bt_client name \<longleftrightarrow>
     name \<in> set [''bluetoothd'', ''bluetoothctl'', ''btmgmt'', ''gatttool'', ''hcitool''] \<or>
     strstr name ''python'' \<or> strstr name ''bleak''"

definition proc_conflicts :: "proc_entry \<Rightarrow> bool" where
  "proc_conflicts p = (case p of (is_dir, comm) \<Rightarrow>
     is_dir \<and> (case Option.bind comm (fgets 256) of None \<Rightarrow> False
               | Some (line, _) \<Rightarrow> is_bt_client (chomp line)))"

definition check_bluez_clients :: "proc_entry list option \<Rightarrow> int" where
  "check_bluez_clients ps = (case ps of None \<Rightarrow> -1
     | Some entries \<Rightarrow> int (length (filter proc_conflicts entries)))"

definition kill_bluez_clients :: "env \<Rightarrow> env" where
  "kill_bluez_clients e = usleep 500000
     (snd (sys_status (A_system ''systemctl stop bluetooth 2>/dev/null'')
       (snd (sys_status (A_system
          ''killall -9 bluetoothd bluetoothctl btmgmt gatttool hcitool 2>/dev/null'') e))))"

text \<open>\<^verbatim>\<open>file_contains\<close> reads lines of at most 511 characters.\<close>

function lines_contain :: "string \<Rightarrow> string \<Rightarrow> bool" where
  "lines_contain content needle = (case fgets 512 content of None \<Rightarrow> False
     | Some (line, rest) \<Rightarrow> strstr (cstr line) needle \<or> lines_contain rest needle)"
  by pat_completeness auto

termination lines_contain
  by (relation "measure (\<lambda>(c, n). length c)") (auto intro: fgets_shorter [of 510, simplified])

declare lines_contain.simps [simp del]

definition file_contains :: "string option \<Rightarrow> string \<Rightarrow> bool" where
  "file_contains file needle = (case file of None \<Rightarrow> False | Some c \<Rightarrow> lines_contain c needle)"

definition command_exists :: "string \<Rightarrow> env \<Rightarrow> bool \<times> env" where
  "command_exists cmd e =
     (let (r, e1) = sys_status (A_system
            (take 127 (''command -v '' @ cmd @ '' >/dev/null 2>&1''))) e
      in (r = 0, e1))"

definition path_exists :: "host \<Rightarrow> string \<Rightarrow> bool" where
  "path_exists h p \<longleftrightarrow> p \<in> set (paths h)"

text \<open>\<^verbatim>\<open>run_preflight\<close>: the findings that make its return code 1. The rest is only printed.\<close>

definition run_preflight :: "host \<Rightarrow> bool \<Rightarrow> env \<Rightarrow> int \<times> env" where
  "run_preflight h exclusive e =
     (let rc1 = (if euid h = 0 then 0 else 1);
          rc2 = (if path_exists h ''/sys/class/bluetooth/hci0'' then rc1 else 1);
          (btmon, e1) = command_exists ''btmon'' e;
          (hciconfig, e2) = command_exists ''hciconfig'' e1;
          clients = check_bluez_clients (procs h);
          rc3 = (if 0 < clients \<and> exclusive then 1 else rc2)
      in (rc3, e2))"

end
