(* ===== verification/Daemon_Main.thy ===== *)
theory Daemon_Main
  imports Daemon
begin

text \<open>
  The command line and \<^verbatim>\<open>main\<close> of \<^verbatim>\<open>sw2d_final.c\<close>. Each block of \<^verbatim>\<open>main\<close>
  that may \<^verbatim>\<open>return\<close> is a step whose \<open>Inl\<close> is the exit code.
\<close>

record options =
  bdaddr_s :: "string option"
  hidraw :: string
  host_spec :: string
  peer_type_s :: string
  own_type_s :: string
  usb_init :: bool
  auto_scan :: bool
  scan_only :: bool
  exclusive :: bool
  kill_bluez :: bool
  preflight :: bool
  opt_verbose :: bool
  send_security_req :: bool
  peer_type_explicit :: bool
  scan_timeout :: int

definition default_options :: options where
  "default_options = \<lparr>bdaddr_s = None, hidraw = ''/dev/hidraw0'', host_spec = ''auto'',
     peer_type_s = ''public'', own_type_s = ''public'', usb_init = False, auto_scan = False,
     scan_only = False, exclusive = False, kill_bluez = False, preflight = False,
     opt_verbose = False, send_security_req = False, peer_type_explicit = False,
     scan_timeout = 10000\<rparr>"

text \<open>Options that take a value, and flags.\<close>

definition value_option :: "string \<Rightarrow> (string \<Rightarrow> options \<Rightarrow> options) option" where
  "value_option a =
     (if a = ''--bdaddr'' then Some (\<lambda>v w. w\<lparr>bdaddr_s := Some v\<rparr>)
      else if a = ''--peer-addr-type'' then Some (\<lambda>v w. w\<lparr>peer_type_s := v, peer_type_explicit := True\<rparr>)
      else if a = ''--own-addr-type'' then Some (\<lambda>v w. w\<lparr>own_type_s := v\<rparr>)
      else if a = ''--host-bdaddr'' then Some (\<lambda>v w. w\<lparr>host_spec := v\<rparr>)
      else if a = ''--hidraw'' then Some (\<lambda>v w. w\<lparr>hidraw := v\<rparr>)
      else if a = ''--scan-timeout'' then Some (\<lambda>v w. w\<lparr>scan_timeout := atoi v\<rparr>)
      else None)"

definition flag_option :: "string \<Rightarrow> (options \<Rightarrow> options) option" where
  "flag_option a =
     (if a = ''--auto-scan'' then Some (\<lambda>w. w\<lparr>auto_scan := True\<rparr>)
      else if a = ''--scan-only'' then Some (\<lambda>w. w\<lparr>scan_only := True\<rparr>)
      else if a = ''--usb-init'' then Some (\<lambda>w. w\<lparr>usb_init := True\<rparr>)
      else if a = ''--send-security-request'' then Some (\<lambda>w. w\<lparr>send_security_req := True\<rparr>)
      else if a = ''--exclusive-hci'' then Some (\<lambda>w. w\<lparr>exclusive := True\<rparr>)
      else if a = ''--kill-bluez-clients'' then Some (\<lambda>w. w\<lparr>kill_bluez := True\<rparr>)
      else if a = ''--preflight'' then Some (\<lambda>w. w\<lparr>preflight := True\<rparr>)
      else if a = ''--verbose'' then Some (\<lambda>w. w\<lparr>opt_verbose := True\<rparr>)
      else None)"

text \<open>The loop over \<^verbatim>\<open>argv[1..]\<close>; \<open>None\<close> is the usage message and exit code 2.\<close>

fun parse_args :: "string list \<Rightarrow> options \<Rightarrow> options option" where
  "parse_args [] opts = Some opts"
| "parse_args [a] opts = map_option (\<lambda>g. g opts) (flag_option a)"
| "parse_args (a # v # rest) opts =
     (case value_option a of
        Some f \<Rightarrow> parse_args rest (f v opts)
      | None \<Rightarrow> (case flag_option a of
            Some g \<Rightarrow> parse_args (v # rest) (g opts)
          | None \<Rightarrow> None))"

text \<open>The address types of the command line.\<close>

definition resolve_types :: "options \<Rightarrow> options \<times> byte \<times> byte" where
  "resolve_types opts =
     (let own = (if own_type_s opts = ''random'' then LE_RANDOM_ADDRESS else LE_PUBLIC_ADDRESS)
      in if peer_type_s opts = ''random'' then (opts, LE_RANDOM_ADDRESS, own)
         else if peer_type_s opts = ''auto'' then (opts\<lparr>auto_scan := True\<rparr>, LE_RANDOM_ADDRESS, own)
         else (opts, LE_PUBLIC_ADDRESS, own))"

section \<open>The blocks of main\<close>

definition bluez_guard :: "host \<Rightarrow> options \<Rightarrow> env \<Rightarrow> (int + unit) \<times> env" where
  "bluez_guard h opts e =
     (if exclusive opts \<or> kill_bluez opts then
        (let c = check_bluez_clients (procs h);
             (c', e1) = (if 0 < c \<and> kill_bluez opts
                         then (check_bluez_clients (procs_after_kill h), kill_bluez_clients e)
                         else (c, e))
         in if 0 < c' \<and> exclusive opts then (Inl 1, e1) else (Inr (), e1))
      else (Inr (), e))"

definition resolve_peer :: "host \<Rightarrow> options \<Rightarrow> byte \<Rightarrow> int + bytes \<times> byte" where
  "resolve_peer h opts ptype =
     (case bdaddr_s opts of
        None \<Rightarrow> Inr (replicate 6 0, ptype)
      | Some a \<Rightarrow> (case str2ba h a of
            None \<Rightarrow> Inl 2
          | Some peer \<Rightarrow>
              Inr (peer, if \<not> peer_type_explicit opts \<and> addr_looks_static_random peer
                         then LE_RANDOM_ADDRESS else ptype)))"

definition resolve_host :: "host \<Rightarrow> options \<Rightarrow> int + bytes" where
  "resolve_host h opts =
     (if host_spec opts = ''auto'' then
        (case read_local_bdaddr h of
           Some lb \<Rightarrow> Inr lb
         | None \<Rightarrow> Inr [0xD8, 0x3A, 0xDD, 0xE5, 0x69, 0xED])
      else (case str2ba h (host_spec opts) of None \<Rightarrow> Inl 2 | Some b \<Rightarrow> Inr b))"

definition usb_stage :: "options \<Rightarrow> bytes \<Rightarrow> env \<Rightarrow> (int + options) \<times> env" where
  "usb_stage opts host_bytes e =
     (if usb_init opts then
        (let (r, e1) = usb_prep host_bytes e
         in if r < 0 then (Inl 1, e1) else (Inr (opts\<lparr>auto_scan := True\<rparr>), sleep 8 e1))
      else (Inr opts, e))"

definition transport_stage :: "host \<Rightarrow> frame \<Rightarrow> env \<Rightarrow> (int + int) \<times> env" where
  "transport_stage h junk e =
     (let (fd, e1) = hci_user_open (route h) e
      in if fd < 0 then (Inl 1, e1)
         else (let (r, e2) = hci_user_init fd junk e1
               in if r < 0 then (Inl 1, hci_user_close fd e2) else (Inr fd, e2)))"

definition scan_stage ::
  "options \<Rightarrow> int \<Rightarrow> bytes \<times> byte \<Rightarrow> byte \<Rightarrow> frame \<Rightarrow> env \<Rightarrow> (int + bytes \<times> byte) \<times> env" where
  "scan_stage opts fd peer own junk e =
     (if auto_scan opts \<and> bdaddr_s opts = None then
        (case scan_for_peer_user fd own (scan_timeout opts) junk e of
           (None, e1) \<Rightarrow> (Inl 1, hci_user_close fd e1)
         | (Some p, e1) \<Rightarrow> if scan_only opts then (Inl 0, hci_user_close fd e1) else (Inr p, e1))
      else (Inr peer, e))"

definition peer_stage :: "int \<Rightarrow> bytes \<times> byte \<Rightarrow> env \<Rightarrow> (int + bytes \<times> byte) \<times> env" where
  "peer_stage fd peer e =
     (if addr_is_zero (fst peer) then (Inl 1, hci_user_close fd e) else (Inr peer, e))"

definition init_session :: "options \<Rightarrow> int \<Rightarrow> bytes \<times> byte \<Rightarrow> byte \<Rightarrow> bytes \<Rightarrow> session" where
  "init_session opts fd peer own host_bytes =
     \<lparr>hci_fd = fd, conn_handle = 0, state = STATE_DISCONNECTED, verbose = opt_verbose opts,
      peer_addr_type = snd peer, local_addr_type = own, peer_addr = take 6 (fst peer),
      local_addr = take 6 host_bytes, smp_tk = replicate 16 0, smp_preq = replicate 7 0,
      smp_pres = replicate 7 0, smp_mrand = replicate 16 0, smp_srand = replicate 16 0,
      smp_mconfirm = replicate 16 0, smp_sconfirm = replicate 16 0, smp_stk = replicate 16 0,
      att_mtu = 0, svc_start = 0, svc_end = 0, report_handle = 0, report_cccd = 0,
      last_disconnect_reason = 0, did_cancel = False\<rparr>"

text \<open>
  From the guard to the session context: \<open>Inl\<close> is the exit code of an early return.
  \<open>Inr\<close> is the session \<^verbatim>\<open>main\<close> starts to loop with.
\<close>

definition main_setup ::
  "host \<Rightarrow> frame \<Rightarrow> options \<Rightarrow> env \<Rightarrow> (int + session) \<times> env" where
  "main_setup h junk opts0 e =
     (case resolve_types opts0 of (opts, ptype, own) \<Rightarrow>
        and_then (bluez_guard h opts e) (\<lambda>_ e.
        and_then (resolve_peer h opts ptype, e) (\<lambda>peer e.
        and_then (resolve_host h opts, e) (\<lambda>host_bytes e.
        and_then (usb_stage opts host_bytes e) (\<lambda>opts e.
        and_then (transport_stage h junk e) (\<lambda>fd e.
        and_then (scan_stage opts fd peer own junk e) (\<lambda>peer e.
        and_then (peer_stage fd peer e) (\<lambda>peer e.
        (Inr (init_session opts fd peer own host_bytes), e)))))))))"

text \<open>\<^verbatim>\<open>main\<close>: the exit code, or \<open>None\<close> where the daemon still runs after \<open>fuel\<close> rounds.\<close>

definition daemon_main ::
  "nat \<Rightarrow> cipher \<Rightarrow> host \<Rightarrow> stack \<Rightarrow> string list \<Rightarrow> env \<Rightarrow> (int \<times> env) option" where
  "daemon_main fuel c h j args e =
     (case parse_args args default_options of
        None \<Rightarrow> Some (2, e)
      | Some opts \<Rightarrow>
          if preflight opts then Some (run_preflight h (exclusive opts) e)
          else (case main_setup h (jframe j) opts e of
                  (Inl code, e1) \<Rightarrow> Some (code, e1)
                | (Inr s, e1) \<Rightarrow>
                    map_option (\<lambda>e2. (0, hci_user_close (hci_fd s) e2))
                      (reconnect_loop fuel c j (send_security_req opts) 1 s e1)))"

end
