(* ===== verification/Exchange.thy ===== *)
theory Exchange
  imports Effects Daemon_Main
begin

text \<open>
  The session of \<^verbatim>\<open>sw2d_final.c\<close> against a peer that answers: what each receive
  function returns when the awaited frame is waiting, that the handshake completes with
  such a peer, and the safety properties of the order of the phases.
\<close>

section \<open>A waiting frame is delivered\<close>

lemma rx_await_acl_delivers:
  assumes "polls e = Poll_ans dt sg P_ready # ps"
    and "reads e = R_data (acl_packet (conn_handle s) ch d (of_nat (length d))) # rs"
    and "running e" "0 < t" "conn_handle s AND 0x0fff = conn_handle s"
    and "length d \<le> 503" "of_nat (length d) \<le> n"
  shows "rx_await_acl junk ch out n t s e =
    (0, overwrite out d, of_nat (length d), s, after_read dt sg ps rs e)"
proof -
  let ?n = "of_nat (length d) :: u16" and ?t = "if 500 < t then 500 else t"
  let ?p = "acl_packet (conn_handle s) ch d ?n"
  let ?f = "parse_frame (length ?p) (junk\<lparr>raw := overwrite (raw junk) ?p\<rparr>)"
  have u: "length d = unat ?n" using assms(6) by (simp add: unat_of_nat_u16)
  have len: "length ?p = 9 + length d" by (rule length_acl_packet [OF u])
  have rd: "hci_user_read_frame junk ?t e = (1, ?f, after_read dt sg ps rs e)"
    by (rule read_frame_ready [OF assms(1,2)]) (use len assms(6) in auto)
  note f = parse_acl_packet [OF u assms(5), of ch junk]
  have "rx_await_acl_loop ch (now_ms e + t) junk out n s e =
      (0, overwrite out (pl_slice ?f 0 (unat (payload_len ?f))), payload_len ?f, s, after_read dt sg ps rs e)"
    using assms(3,4,7) rd f by (subst rx_await_acl_loop.simps) (simp add: Let_def)
  with f u show ?thesis by (simp add: rx_await_acl_def)
qed

text \<open>Once a signal came, the loops give up at once.\<close>

lemma rx_await_acl_stopped:
  "\<not> running e \<Longrightarrow> rx_await_acl junk ch out n t s e = (-1, out, n, s, e)"
  unfolding rx_await_acl_def by (subst rx_await_acl_loop.simps) simp

text \<open>HCI events as the controller sends them.\<close>

definition event_packet :: "byte \<Rightarrow> bytes \<Rightarrow> bytes" where
  "event_packet code params = [HCI_EVENT_PKT, code, of_nat (length params)] @ params"

definition conn_complete_event :: "u16 \<Rightarrow> bytes \<Rightarrow> bytes" where
  "conn_complete_event h rest = event_packet EVT_LE_META ([EVT_LE_CONN_COMPLETE, 0x00] @ put_le16 h @ rest)"

text \<open>The last byte says whether encryption is on (1) or off (0).\<close>

definition encrypt_change_event :: "byte \<Rightarrow> byte \<Rightarrow> u16 \<Rightarrow> bytes" where
  "encrypt_change_event on st h = event_packet EVT_ENCRYPT_CHANGE ([st] @ put_le16 h @ [on])"

lemma parse_conn_complete:
  fixes f0 :: frame and h :: u16 and rest :: bytes
  assumes "length rest = 15"
  defines "f \<equiv> parse_frame (length (conn_complete_event h rest))
                 (f0\<lparr>raw := overwrite (raw f0) (conn_complete_event h rest)\<rparr>)"
  shows "pkt_type f = HCI_EVENT_PKT" "evt_code f = EVT_LE_META" "subevent f = EVT_LE_CONN_COMPLETE"
    "payload_len f = 19" "pl_byte f 1 = 0x00" "pl_le16 f 2 = h"
proof -
  let ?p = "conn_complete_event h rest"
  have p: "?p = [0x04, 0x3e, 19, 0x01, 0x00] @ put_le16 h @ rest"
    using assms(1) by (simp add: conn_complete_event_def event_packet_def)
  have n: "length ?p = 22" using assms(1) by (simp add: p)
  note fields = parse_frame_def parse_event_def pl_byte_def pl_le16_def overwrite_def Let_def
  show "pkt_type f = HCI_EVENT_PKT" "evt_code f = EVT_LE_META" "subevent f = EVT_LE_CONN_COMPLETE"
    "payload_len f = 19" "pl_byte f 1 = 0x00"
    unfolding f_def n by (simp_all add: p fields)
  show "pl_le16 f 2 = h"
    using get_le16_append [of "[0x04, 0x3e, 19, 0x01, 0x00]" 5 h]
    unfolding f_def n by (simp add: p fields)
qed

lemma parse_encrypt_change:
  fixes f0 :: frame and h :: u16 and st on :: byte
  defines "f \<equiv> parse_frame (length (encrypt_change_event on st h))
                 (f0\<lparr>raw := overwrite (raw f0) (encrypt_change_event on st h)\<rparr>)"
  shows "pkt_type f = HCI_EVENT_PKT" "evt_code f = EVT_ENCRYPT_CHANGE" "status f = st"
    "handle f = h AND 0x0fff"
proof -
  let ?p = "encrypt_change_event on st h"
  have p: "?p = [0x04, 0x08, 4, st] @ put_le16 h @ [on]"
    by (simp add: encrypt_change_event_def event_packet_def)
  have n: "length ?p = 7" by (simp add: p)
  note fields = parse_frame_def parse_event_def pl_byte_def pl_le16_def overwrite_def Let_def
  show "pkt_type f = HCI_EVENT_PKT" "evt_code f = EVT_ENCRYPT_CHANGE" "status f = st"
    unfolding f_def n by (simp_all add: p fields)
  show "handle f = h AND 0x0fff"
    using get_le16_append [of "[0x04, 0x08, 4, st]" 4 h]
    unfolding f_def n by (simp add: p fields)
qed

section \<open>The handshake completes with a peer that answers\<close>

text \<open>\<open>ready e ps rs\<close>: writes succeed, no signal is pending, and these answers are waiting.\<close>

definition ready :: "env \<Rightarrow> poll_ans list \<Rightarrow> read_ans list \<Rightarrow> bool" where
  "ready e ps rs \<longleftrightarrow> polls e = ps \<and> reads e = rs \<and> running e \<and> writes e = [] \<and> naps e = []"

lemma ready_act [simp]: "ready (act a e) ps rs = ready e ps rs"
  by (simp add: ready_def)

lemma ready_after_read: "ready e ps0 rs0 \<Longrightarrow> ready (after_read dt False ps rs e) ps rs"
  by (simp add: ready_def)

lemma ready_usleep: "ready e ps rs \<Longrightarrow> ready (usleep us e) ps rs"
  by (simp add: ready_def usleep_def)

lemma ready_write: "ready e ps rs \<Longrightarrow> sys_write fd bs e = (int (length bs), act (A_write fd bs) e)"
  by (simp add: ready_def sys_write_def)

lemma ready_send_cmd:
  "ready e ps rs \<Longrightarrow> hci_user_send_cmd fd ogf ocf params n e =
     (0, act (A_write fd (cmd_packet ogf ocf params n)) e)"
  by (simp add: hci_user_send_cmd_def ready_write)

lemma ready_acl_send:
  "ready e ps rs \<Longrightarrow> n \<le> 512 \<Longrightarrow> hci_user_acl_send fd h ch d n e =
     (0, act (A_write fd (acl_packet h ch d n)) e)"
  by (simp add: hci_user_acl_send_def ready_write not_less)

text \<open>Phase 1 with a Connection Complete event of status 0.\<close>

lemma phase_connect_completes:
  assumes "ready e (Poll_ans dt False P_ready # ps) (R_data (conn_complete_event h rest) # rs)"
    and "length rest = 15" "h AND 0x0fff = h"
  shows "\<exists>e'. phase_connect j s e =
      (Inr (), s\<lparr>conn_handle := h, state := STATE_CONNECTED_UNENCRYPTED\<rparr>, e') \<and> ready e' ps rs \<and>
    acts e' = acts e @ [A_write (hci_fd s) (cmd_packet OGF_LE_CTL OCF_LE_CREATE_CONN
        (Some (le_create_conn_params s)) 25), A_sleep 200000]"
proof -
  let ?e1 = "act (A_write (hci_fd s) (cmd_packet OGF_LE_CTL OCF_LE_CREATE_CONN
        (Some (le_create_conn_params s)) 25)) e"
  let ?p = "conn_complete_event h rest"
  let ?f = "parse_frame (length ?p) ((jframe j)\<lparr>raw := overwrite (raw (jframe j)) ?p\<rparr>)"
  have w: "le_create_conn s e = (0, ?e1)"
    using assms(1) by (simp add: le_create_conn_def ready_send_cmd)
  have n: "length ?p = 22" using assms(2) by (simp add: conn_complete_event_def event_packet_def)
  have rd: "hci_user_read_frame (jframe j) 500 ?e1 = (1, ?f, after_read dt False ps rs ?e1)"
    by (rule read_frame_ready) (use assms(1) n in \<open>auto simp: ready_def\<close>)
  note f = parse_conn_complete [OF assms(2), of h "jframe j"]
  have ev: "rx_event EVT_LE_META EVT_LE_CONN_COMPLETE ?f s = (Some 0, s\<lparr>conn_handle := h\<rparr>)"
    using f assms(3) by (simp add: rx_event_def awaited_def)
  have "rx_await (jframe j) EVT_LE_META EVT_LE_CONN_COMPLETE None 10000 s ?e1 =
      (0, None, s\<lparr>conn_handle := h\<rparr>, after_read dt False ps rs ?e1)"
    unfolding rx_await_def
    using assms(1) rd ev f(1)
    by (subst rx_await_loop.simps) (simp add: rx_copy_out_def ready_def Let_def)
  with w have "phase_connect j s e = (Inr (), s\<lparr>conn_handle := h, state := STATE_CONNECTED_UNENCRYPTED\<rparr>,
      usleep 200000 (after_read dt False ps rs ?e1))"
    by (simp add: phase_connect_def)
  moreover have "ready (usleep 200000 (after_read dt False ps rs ?e1)) ps rs"
    using assms(1) by (intro ready_usleep ready_after_read) simp
  ultimately show ?thesis by (simp add: usleep_acts)
qed

text \<open>The receive steps of phase 2.\<close>

lemma smp_await_value_completes:
  assumes "ready e (Poll_ans dt False P_ready # ps)
      (R_data (acl_packet (conn_handle s) SMP_CID (op # v) 17) # rs)"
    and "length v = 16" "conn_handle s AND 0x0fff = conn_handle s"
  shows "\<exists>e'. smp_await_value j op s e = (Inr v, s, e') \<and> ready e' ps rs \<and> acts e' = acts e \<and>
    rands e' = rands e"
proof -
  have "rx_await_acl (jframe j) SMP_CID (take 32 (jbuf j)) 32 5000 s e =
      (0, overwrite (take 32 (jbuf j)) (op # v), of_nat (length (op # v)), s, after_read dt False ps rs e)"
    by (rule rx_await_acl_delivers) (use assms in \<open>auto simp: ready_def word_le_nat_alt\<close>)
  then have "smp_await_value j op s e = (Inr v, s, after_read dt False ps rs e)"
    using assms(2) by (simp add: smp_await_value_def overwrite_def slice_def)
  with ready_after_read [OF assms(1)] show ?thesis by simp
qed

lemma pairing_response_completes:
  assumes "ready e (Poll_ans dt False P_ready # ps)
      (R_data (acl_packet (conn_handle s) SMP_CID pres 7) # rs)"
    and "length pres = 7" "hd pres = SMP_OP_PAIRING_RSP" "conn_handle s AND 0x0fff = conn_handle s"
  shows "\<exists>e'. await_pairing_response j s e =
      (Inr (), s\<lparr>smp_pres := pres, state := STATE_SMP_CONFIRM_RANDOM\<rparr>, e') \<and> ready e' ps rs \<and>
    acts e' = acts e \<and> rands e' = rands e"
proof -
  have r: "rx_await_acl (jframe j) SMP_CID (take 32 (jbuf j)) 32 5000 s e =
      (0, overwrite (take 32 (jbuf j)) pres, of_nat (length pres), s, after_read dt False ps rs e)"
    by (rule rx_await_acl_delivers) (use assms in \<open>auto simp: ready_def word_le_nat_alt\<close>)
  have "overwrite (take 32 (jbuf j)) pres ! 0 = SMP_OP_PAIRING_RSP"
    using assms(2,3) by (cases pres) (auto simp: overwrite_def)
  with r have "await_pairing_response j s e =
      (Inr (), s\<lparr>smp_pres := pres, state := STATE_SMP_CONFIRM_RANDOM\<rparr>, after_read dt False ps rs e)"
    using assms(2) by (simp add: await_pairing_response_def store_pairing_response_def overwrite_def)
  with ready_after_read [OF assms(1)] show ?thesis by simp
qed

lemma rand_bytes_ready:
  "rand_bytes k e = (bs, e') \<Longrightarrow> length bs = k \<and> acts e' = acts e \<and> (ready e ps rs \<longrightarrow> ready e' ps rs)"
  by (induction k arbitrary: e bs e')
    (auto simp: sys_rand_def ready_def Let_def split: prod.splits list.splits)

text \<open>The write of an SMP message of the session.\<close>

definition smp_write :: "session \<Rightarrow> bytes \<Rightarrow> action" where
  "smp_write s d = A_write (hci_fd s) (acl_packet (conn_handle s) SMP_CID d (of_nat (length d)))"

lemma ready_smp_send:
  "ready e ps rs \<Longrightarrow> n = of_nat (length d) \<Longrightarrow> length d \<le> 32 \<Longrightarrow>
     smp_send s d n e = (0, act (smp_write s d) e)"
  by (simp add: smp_send_def smp_write_def ready_acl_send word_le_nat_alt unat_of_nat_u16)

lemma phase_smp_completes:
  assumes "ready e (map (\<lambda>dt. Poll_ans dt False P_ready) [d1, d2, d3] @ ps)
      (map (\<lambda>d. R_data (acl_packet (conn_handle s) SMP_CID d (of_nat (length d))))
         [pres, SMP_OP_CONFIRM # sconf, SMP_OP_RANDOM # srand] @ rs)"
    and "conn_handle s AND 0x0fff = conn_handle s"
    and "length pres = 7" "hd pres = SMP_OP_PAIRING_RSP" "length srand = 16" "length sconf = 16"
    and "sconf = smp_c1 c (smp_tk s) srand pairing_preq pres
           (peer_addr_type s) (peer_addr s) (local_addr_type s) (local_addr s)"
    and "block_cipher c" "length (peer_addr s) = 6" "length (local_addr s) = 6"
  shows "\<exists>mrand mconf e'. phase_smp c j False s e =
      (Inr (), s\<lparr>smp_preq := pairing_preq, smp_pres := pres, state := STATE_SMP_CONFIRM_RANDOM,
         smp_mrand := mrand, smp_mconfirm := mconf, smp_sconfirm := sconf, smp_srand := srand,
         smp_stk := smp_s1 c (smp_tk s) mrand srand\<rparr>, e') \<and> ready e' ps rs \<and> length mrand = 16 \<and>
    mconf = smp_c1 c (smp_tk s) mrand pairing_preq pres
      (local_addr_type s) (local_addr s) (peer_addr_type s) (peer_addr s) \<and>
    acts e' = acts e @ map (smp_write s)
      [pairing_preq, SMP_OP_CONFIRM # mconf, SMP_OP_RANDOM # mrand]"
proof -
  define s1 where "s1 = s\<lparr>smp_preq := pairing_preq, state := STATE_SMP_PAIRING_SENT\<rparr>"
  define s2 where "s2 = s1\<lparr>smp_pres := pres, state := STATE_SMP_CONFIRM_RANDOM\<rparr>"
  let ?e1 = "act (smp_write s pairing_preq) e"
  have a: "send_pairing_request s e = (Inr (), s1, ?e1)"
    using ready_smp_send [OF assms(1), of 7 pairing_preq]
    by (simp add: send_pairing_request_def s1_def pairing_preq_def smp_write_def smp_send_def)
  have "ready ?e1 (Poll_ans d1 False P_ready # Poll_ans d2 False P_ready # Poll_ans d3 False P_ready # ps)
      (R_data (acl_packet (conn_handle s1) SMP_CID pres 7) #
       map (\<lambda>d. R_data (acl_packet (conn_handle s) SMP_CID d (of_nat (length d))))
         [SMP_OP_CONFIRM # sconf, SMP_OP_RANDOM # srand] @ rs)"
    using assms(1,3) by (simp add: s1_def)
  from pairing_response_completes [OF this assms(3,4), of j] assms(2) obtain e2 where
    b: "await_pairing_response j s1 ?e1 = (Inr (), s2, e2)" "acts e2 = acts ?e1"
    and r2: "ready e2 (Poll_ans d2 False P_ready # Poll_ans d3 False P_ready # ps)
       (map (\<lambda>d. R_data (acl_packet (conn_handle s) SMP_CID d (of_nat (length d))))
         [SMP_OP_CONFIRM # sconf, SMP_OP_RANDOM # srand] @ rs)"
    by (auto simp: s1_def s2_def)
  obtain mrand e3 where rb: "rand_bytes 16 e2 = (mrand, e3)" by fastforce
  define mconf where "mconf = smp_c1 c (smp_tk s) mrand pairing_preq pres
      (local_addr_type s) (local_addr s) (peer_addr_type s) (peer_addr s)"
  define s3 where "s3 = s2\<lparr>smp_mrand := mrand, smp_mconfirm := mconf\<rparr>"
  have c: "make_confirm c s2 e2 = (s3, e3)"
    by (simp add: make_confirm_def rb s3_def s2_def s1_def mconf_def)
  from rand_bytes_ready [OF rb] r2 have m: "length mrand = 16" "acts e3 = acts e2"
    and r3: "ready e3 (Poll_ans d2 False P_ready # Poll_ans d3 False P_ready # ps)
       (map (\<lambda>d. R_data (acl_packet (conn_handle s) SMP_CID d (of_nat (length d))))
         [SMP_OP_CONFIRM # sconf, SMP_OP_RANDOM # srand] @ rs)" by blast+
  have mc: "length mconf = 16"
    using length_smp_c1 [OF assms(8) m(1) _ assms(3,10,9)] by (simp add: mconf_def pairing_preq_def)
  let ?e4 = "act (smp_write s (SMP_OP_CONFIRM # mconf)) e3"
  have d: "send_confirm s3 e3 = (Inr (), s3, ?e4)"
    using ready_smp_send [OF r3, of 17 "SMP_OP_CONFIRM # mconf"] mc
    by (simp add: send_confirm_def smp_send_value_def s3_def s2_def s1_def smp_write_def smp_send_def)
  have "ready ?e4 (Poll_ans d2 False P_ready # Poll_ans d3 False P_ready # ps)
      (R_data (acl_packet (conn_handle s3) SMP_CID (SMP_OP_CONFIRM # sconf) 17) #
       R_data (acl_packet (conn_handle s) SMP_CID (SMP_OP_RANDOM # srand) 17) # rs)"
    using r3 assms(5,6) by (simp add: s3_def s2_def s1_def)
  from smp_await_value_completes [OF this assms(6), of j] assms(2) obtain e5 where
    f: "smp_await_value j SMP_OP_CONFIRM s3 ?e4 = (Inr sconf, s3, e5)" "acts e5 = acts ?e4"
    and r5: "ready e5 (Poll_ans d3 False P_ready # ps)
        (R_data (acl_packet (conn_handle s) SMP_CID (SMP_OP_RANDOM # srand) 17) # rs)"
    by (auto simp: s3_def s2_def s1_def)
  define s4 where "s4 = s3\<lparr>smp_sconfirm := sconf\<rparr>"
  let ?e6 = "act (smp_write s (SMP_OP_RANDOM # mrand)) e5"
  have g: "send_random s4 e5 = (Inr (), s4, ?e6)"
    using ready_smp_send [OF r5, of 17 "SMP_OP_RANDOM # mrand"] m(1)
    by (simp add: send_random_def smp_send_value_def s4_def s3_def s2_def s1_def smp_write_def smp_send_def)
  have "ready ?e6 (Poll_ans d3 False P_ready # ps)
        (R_data (acl_packet (conn_handle s4) SMP_CID (SMP_OP_RANDOM # srand) 17) # rs)"
    using r5 by (simp add: s4_def s3_def s2_def s1_def)
  from smp_await_value_completes [OF this assms(5), of j] assms(2) obtain e7 where
    h: "smp_await_value j SMP_OP_RANDOM s4 ?e6 = (Inr srand, s4, e7)" "acts e7 = acts ?e6"
    and r7: "ready e7 ps rs" by (auto simp: s4_def s3_def s2_def s1_def)
  define s5 where "s5 = s4\<lparr>smp_srand := srand\<rparr>"
  have "verify_confirm c s5 e7 = (Inr (), s5\<lparr>smp_stk := smp_s1 c (smp_tk s) mrand srand\<rparr>, e7)"
    using assms(7) by (simp add: verify_confirm_def expected_sconfirm_def s5_def s4_def s3_def s2_def s1_def)
  with a b c d f g h have "phase_smp c j False s e =
      (Inr (), s5\<lparr>smp_stk := smp_s1 c (smp_tk s) mrand srand\<rparr>, e7)"
    by (simp add: phase_smp_def send_security_request_def await_confirm_def await_random_def
        flip: s4_def s5_def)
  moreover have "s5\<lparr>smp_stk := smp_s1 c (smp_tk s) mrand srand\<rparr> =
      s\<lparr>smp_preq := pairing_preq, smp_pres := pres, state := STATE_SMP_CONFIRM_RANDOM,
         smp_mrand := mrand, smp_mconfirm := mconf, smp_sconfirm := sconf, smp_srand := srand,
         smp_stk := smp_s1 c (smp_tk s) mrand srand\<rparr>"
    by (rule session.equality) (simp_all add: s5_def s4_def s3_def s2_def s1_def)
  moreover have "acts e7 = acts e @ map (smp_write s)
      [pairing_preq, SMP_OP_CONFIRM # mconf, SMP_OP_RANDOM # mrand]"
    using b(2) m(2) f(2) h(2) by simp
  ultimately show ?thesis using r7 m(1) mconf_def by metis
qed

text \<open>The command that starts the encryption with the short term key of the session.\<close>

definition start_write :: "session \<Rightarrow> action" where
  "start_write s = A_write (hci_fd s) (cmd_packet OGF_LE_CTL OCF_LE_START_ENCRYPTION
     (Some (start_encryption_params s)) 28)"

lemma phase_encrypt_completes:
  assumes "ready e (Poll_ans dt False P_ready # ps)
      (R_data (encrypt_change_event on 0x00 (conn_handle s)) # rs)"
    and "conn_handle s AND 0x0fff = conn_handle s"
  shows "\<exists>e'. phase_encrypt j s e = (Inr (), s\<lparr>state := STATE_ENCRYPTED, did_cancel := False\<rparr>, e') \<and>
    ready e' ps rs \<and> acts e' = acts e @ [start_write s]"
proof -
  let ?s1 = "s\<lparr>state := STATE_ENCRYPTION_START_SENT\<rparr>" and ?e1 = "act (start_write s) e"
  let ?p = "encrypt_change_event on 0x00 (conn_handle s)"
  let ?f = "parse_frame (length ?p) ((jframe j)\<lparr>raw := overwrite (raw (jframe j)) ?p\<rparr>)"
  let ?e2 = "after_read dt False ps rs ?e1"
  have a: "start_encryption s e = (Inr (), ?s1, ?e1)"
    using assms(1) by (simp add: start_encryption_def ready_send_cmd start_write_def)
  have n: "length ?p = 7" by (simp add: encrypt_change_event_def event_packet_def)
  have rd: "hci_user_read_frame (jframe j) 500 ?e1 = (1, ?f, ?e2)"
    by (rule read_frame_ready) (use assms(1) n in \<open>auto simp: ready_def\<close>)
  note f = parse_encrypt_change [of on "0x00" "conn_handle s" "jframe j"]
  have "encryption_loop j ?s1 (now_ms ?e1 + 10000) ?e1 = (Inr True, ?e2)"
    using assms rd f by (subst encryption_loop.simps) (simp add: ready_def ltk_reply_def)
  with a have "phase_encrypt j s e = (Inr (), s\<lparr>state := STATE_ENCRYPTED, did_cancel := False\<rparr>, ?e2)"
    by (simp add: phase_encrypt_def await_encryption_def)
  with ready_after_read [OF assms(1)] show ?thesis by (simp add: ready_def)
qed

section \<open>Order of the phases\<close>

text \<open>Data on the ATT channel, and the command that starts the encryption.\<close>

fun att_write :: "action \<Rightarrow> bool" where
  "att_write (A_write fd bs) \<longleftrightarrow> 9 \<le> length bs \<and> bs ! 0 = HCI_ACLDATA_PKT \<and> get_le16 bs 7 = ATT_CID"
| "att_write _ \<longleftrightarrow> False"

fun start_enc_write :: "action \<Rightarrow> bool" where
  "start_enc_write (A_write fd bs) \<longleftrightarrow> take 3 bs = HCI_COMMAND_PKT # put_le16 0x2019"
| "start_enc_write _ \<longleftrightarrow> False"

lemma take_nth_0: "bs \<noteq> [] \<Longrightarrow> 0 < k \<Longrightarrow> take k bs ! 0 = bs ! 0"
  by simp

lemma att_write_cmd: "\<not> att_write (A_write fd (take k (cmd_packet ogf ocf ps n)))"
  by (cases k) (auto simp: cmd_packet_def)

lemma att_write_acl:
  assumes "att_write (A_write fd (take k (acl_packet h ch d n)))"
  shows "ch = ATT_CID"
proof -
  have k: "9 \<le> k" and g: "get_le16 (take k (acl_packet h ch d n)) 7 = ATT_CID"
    using assms by auto
  have "take k (acl_packet h ch d n) ! 7 = acl_packet h ch d n ! 7"
    "take k (acl_packet h ch d n) ! 8 = acl_packet h ch d n ! 8" using k by simp_all
  with g have "get_le16 (acl_packet h ch d n) 7 = ATT_CID" by (simp add: get_le16_def)
  then show ?thesis using acl_packet_lens(3) [of h ch d n "[]"] by simp
qed

lemma start_enc_write_cmd:
  assumes "start_enc_write (A_write fd (take k (cmd_packet OGF_LE_CTL ocf ps n)))"
  shows "ocf AND 0x03ff = OCF_LE_START_ENCRYPTION"
proof -
  let ?p = "cmd_packet OGF_LE_CTL ocf ps n"
  have eq: "take 3 (take k ?p) = HCI_COMMAND_PKT # put_le16 0x2019" using assms by simp
  then have "length (take 3 (take k ?p)) = 3" by (simp add: put_le16_def)
  then have "3 \<le> k" by simp
  with eq have "take 3 ?p = HCI_COMMAND_PKT # put_le16 0x2019" by (simp add: min_def)
  then have "put_le16 (hci_opcode OGF_LE_CTL ocf) = put_le16 0x2019"
    by (simp add: cmd_packet_def put_le16_def)
  then have "hci_opcode OGF_LE_CTL ocf = 0x2019" by (rule put_le16_inj)
  then have "hci_opcode OGF_LE_CTL ocf AND 0x03ff = 0x2019 AND 0x03ff" by simp
  then show ?thesis by (simp add: hci_opcode_def bit.conj_disj_distrib2 and.assoc)
qed

text \<open>The interpretations: what the phases never do.\<close>

interpretation no_att: link_effect "acts_in (\<lambda>a. \<not> att_write a)"
  "\<lambda>fd bs. \<forall>k. \<not> att_write (A_write fd (take k bs))" "\<lambda>us. \<not> att_write (A_sleep us)"
proof (intro link_effect.intro smp_effect.intro acts_in_effect smp_effect_axioms.intro
    link_effect_axioms.intro)
  show "\<forall>k. \<not> att_write (A_write fd (take k (acl_packet h SMP_CID d m)))" for fd h d m
    using att_write_acl [where ch = SMP_CID] by fastforce
qed (simp_all only: att_write_cmd att_write.simps(3) simp_thms)

interpretation no_start: smp_effect "acts_in (\<lambda>a. \<not> start_enc_write a)"
  "\<lambda>fd bs. \<forall>k. \<not> start_enc_write (A_write fd (take k bs))" "\<lambda>us. \<not> start_enc_write (A_sleep us)"
proof (intro smp_effect.intro acts_in_effect smp_effect_axioms.intro)
  show "\<forall>k. \<not> start_enc_write (A_write fd (take k (cmd_packet OGF_LE_CTL OCF_LE_CREATE_CONN ps n)))"
    for fd ps n using start_enc_write_cmd by fastforce
  show "\<forall>k. \<not> start_enc_write (A_write fd (take k (cmd_packet OGF_LE_CTL OCF_LE_CREATE_CONN_CANCEL ps n)))"
    for fd ps n using start_enc_write_cmd by fastforce
  show "\<forall>k. \<not> start_enc_write (A_write fd (take k (acl_packet h SMP_CID d m)))" for fd h d m
    by (auto simp: acl_packet_def take_Cons' split: if_splits)
qed simp_all

interpretation descriptors: daemon_effect fds_kept "\<lambda>fd bs. True" "\<lambda>us. True"
  by unfold_locales simp_all

text \<open>The pauses the daemon may make, in microseconds.\<close>

definition nap_ok :: "action \<Rightarrow> bool" where
  "nap_ok a = (case a of A_sleep us \<Rightarrow> us \<in> {50000, 200000} \<union> (\<lambda>b. 1000000 * b) ` set backoffs | _ \<Rightarrow> True)"

interpretation naps: daemon_effect "acts_in nap_ok"
  "\<lambda>fd bs. \<forall>k. nap_ok (A_write fd (take k bs))" "\<lambda>us. nap_ok (A_sleep us)"
  by (intro daemon_effect.intro gatt_effect.intro link_effect.intro smp_effect.intro acts_in_effect
      smp_effect_axioms.intro link_effect_axioms.intro gatt_effect_axioms.intro daemon_effect_axioms.intro)
    (auto simp: nap_ok_def)

end
