(* ===== verification/Session_Props.thy ===== *)
theory Session_Props
  imports Exchange
begin

text \<open>
  The properties of the session of \<^verbatim>\<open>sw2d_final.c\<close>: what must have happened before
  the encryption is started and before ATT is used, that an honest peer is paired, that
  the report loop ends, and what the reconnect loop does to time and descriptors.
\<close>

section \<open>An honest peer\<close>

text \<open>
  The frames of a peer that pairs: the connection, the pairing response, its confirm and
  random values, and the encryption change, whose last byte says whether it is on.
\<close>

definition peer_script :: "byte \<Rightarrow> u16 \<Rightarrow> bytes \<Rightarrow> bytes \<Rightarrow> bytes \<Rightarrow> bytes \<Rightarrow> read_ans list" where
  "peer_script on h rest pres sconf srand =
     [R_data (conn_complete_event h rest)] @
     map (\<lambda>d. R_data (acl_packet h SMP_CID d (of_nat (length d))))
       [pres, SMP_OP_CONFIRM # sconf, SMP_OP_RANDOM # srand] @
     [R_data (encrypt_change_event on 0x00 h)]"

text \<open>The session an honest peer leads to.\<close>

definition paired_session ::
  "cipher \<Rightarrow> session \<Rightarrow> u16 \<Rightarrow> bytes \<Rightarrow> bytes \<Rightarrow> bytes \<Rightarrow> bytes \<Rightarrow> bytes \<Rightarrow> session" where
  "paired_session c s h pres mrand mconf sconf srand =
     s\<lparr>conn_handle := h, att_mtu := 0, last_disconnect_reason := 0, smp_preq := pairing_preq,
       smp_pres := pres, smp_mrand := mrand, smp_mconfirm := mconf, smp_sconfirm := sconf,
       smp_srand := srand, smp_stk := smp_s1 c (smp_tk s) mrand srand, state := STATE_ENCRYPTED,
       did_cancel := False\<rparr>"

text \<open>
  Everything the link phases do for a session that ends up paired: the connection to its peer,
  the pause, the pairing request, the confirm and random values, the encryption command.
\<close>

definition create_write :: "session \<Rightarrow> action" where
  "create_write s = A_write (hci_fd s) (cmd_packet OGF_LE_CTL OCF_LE_CREATE_CONN (Some (le_create_conn_params s)) 25)"

definition link_trace :: "session \<Rightarrow> action list" where
  "link_trace s = [create_write s, A_sleep 200000] @
     map (smp_write s) [pairing_preq, SMP_OP_CONFIRM # smp_mconfirm s, SMP_OP_RANDOM # smp_mrand s] @ [start_write s]"

lemma link_trace_completes:
  assumes "ready e (map (\<lambda>dt. Poll_ans dt False P_ready) [d1, d2, d3, d4, d5] @ ps)
      (peer_script on h rest pres sconf srand @ rs)"
    and "\<not> did_cancel s" "h AND 0x0fff = h" "length rest = 15"
    and "length pres = 7" "hd pres = SMP_OP_PAIRING_RSP" "length srand = 16"
    and "sconf = smp_c1 c (smp_tk s) srand pairing_preq pres
           (peer_addr_type s) (peer_addr s) (local_addr_type s) (local_addr s)"
    and "block_cipher c" "length (peer_addr s) = 6" "length (local_addr s) = 6"
  shows "\<exists>mrand mconf e'. link_phases c j False s e =
      (Inr (), paired_session c s h pres mrand mconf sconf srand, e') \<and> ready e' ps rs \<and>
    length mrand = 16 \<and>
    mconf = smp_c1 c (smp_tk s) mrand pairing_preq pres
      (local_addr_type s) (local_addr s) (peer_addr_type s) (peer_addr s) \<and>
    acts e' = acts e @ link_trace (paired_session c s h pres mrand mconf sconf srand)"
proof -
  let ?s0 = "s\<lparr>state := STATE_DISCONNECTED, conn_handle := 0, att_mtu := 0,
                 last_disconnect_reason := 0, did_cancel := True\<rparr>"
  define s1 where "s1 = ?s0\<lparr>conn_handle := h, state := STATE_CONNECTED_UNENCRYPTED\<rparr>"
  have f1: "conn_handle s1 = h" "length (peer_addr s1) = 6" "length (local_addr s1) = 6"
    "sconf = smp_c1 c (smp_tk s1) srand pairing_preq pres
       (peer_addr_type s1) (peer_addr s1) (local_addr_type s1) (local_addr s1)"
    using assms by (simp_all add: s1_def)
  have st: "session_start j s e = (?s0, e)"
    using assms(2) by (simp add: session_start_def Let_def)
  have sc: "length sconf = 16"
    using length_smp_c1 [OF assms(9,7) _ assms(5,10,11)] assms(8) by (simp add: pairing_preq_def)
  let ?ps2 = "Poll_ans d5 False P_ready # ps" and ?rs2 = "R_data (encrypt_change_event on 0x00 h) # rs"
  let ?ps1 = "map (\<lambda>dt. Poll_ans dt False P_ready) [d2, d3, d4] @ ?ps2"
  let ?rs1 = "map (\<lambda>d. R_data (acl_packet h SMP_CID d (of_nat (length d))))
      [pres, SMP_OP_CONFIRM # sconf, SMP_OP_RANDOM # srand] @ ?rs2"
  have "ready e (Poll_ans d1 False P_ready # ?ps1) (R_data (conn_complete_event h rest) # ?rs1)"
    using assms(1) by (simp add: peer_script_def)
  from phase_connect_completes [OF this assms(4,3), of j ?s0]
  obtain e1 where c1: "phase_connect j ?s0 e = (Inr (), s1, e1)" "acts e1 = acts e @ [create_write ?s0, A_sleep 200000]"
    and r1: "ready e1 ?ps1 ?rs1" unfolding s1_def create_write_def by blast
  from phase_smp_completes [OF _ _ assms(5,6,7) sc f1(4) assms(9) f1(2,3), of e1 d2 d3 d4 ?ps2 ?rs2 j,
      unfolded f1(1), OF r1 assms(3)]
  obtain mrand mconf e2 s2 where c2: "phase_smp c j False s1 e1 = (Inr (), s2, e2)"
      "acts e2 = acts e1 @ map (smp_write s1) [pairing_preq, SMP_OP_CONFIRM # mconf, SMP_OP_RANDOM # mrand]"
      "length mrand = 16" "mconf = smp_c1 c (smp_tk s1) mrand pairing_preq pres
         (local_addr_type s1) (local_addr s1) (peer_addr_type s1) (peer_addr s1)"
    and s2: "s2 = s1\<lparr>smp_preq := pairing_preq, smp_pres := pres, state := STATE_SMP_CONFIRM_RANDOM,
         smp_mrand := mrand, smp_mconfirm := mconf, smp_sconfirm := sconf, smp_srand := srand,
         smp_stk := smp_s1 c (smp_tk s1) mrand srand\<rparr>"
    and r2: "ready e2 ?ps2 ?rs2"
    by blast
  have h2: "conn_handle s2 = h" by (simp add: s2 f1)
  from phase_encrypt_completes [of e2 d5 ps on s2 rs j] r2 h2 assms(3)
  obtain e3 where c3: "phase_encrypt j s2 e2 =
      (Inr (), s2\<lparr>state := STATE_ENCRYPTED, did_cancel := False\<rparr>, e3)"
    and r3: "ready e3 ps rs" and a3: "acts e3 = acts e2 @ [start_write s2]" by auto
  let ?p = "paired_session c s h pres mrand mconf sconf srand"
  have p: "s2\<lparr>state := STATE_ENCRYPTED, did_cancel := False\<rparr> = ?p"
    by (rule session.equality) (simp_all add: s2 s1_def paired_session_def)
  have "link_trace ?p = [create_write ?s0, A_sleep 200000] @
      map (smp_write s1) [pairing_preq, SMP_OP_CONFIRM # mconf, SMP_OP_RANDOM # mrand] @ [start_write s2]"
    by (simp add: link_trace_def create_write_def le_create_conn_params_def smp_write_def start_write_def
        start_encryption_params_def s2 s1_def paired_session_def)
  then have "acts e3 = acts e @ link_trace ?p" using c1(2) c2(2) a3 by simp
  moreover have "link_phases c j False s e = (Inr (), ?p, e3)"
    using st c1(1) c2(1) c3 p by (simp add: link_phases_def)
  moreover have "mconf = smp_c1 c (smp_tk s) mrand pairing_preq pres
      (local_addr_type s) (local_addr s) (peer_addr_type s) (peer_addr s)"
    using c2(4) by (simp add: s1_def)
  ultimately show ?thesis using r3 c2(3) by blast
qed

lemma link_completes:
  assumes "ready e (map (\<lambda>dt. Poll_ans dt False P_ready) [d1, d2, d3, d4, d5] @ ps)
      (peer_script on h rest pres sconf srand @ rs)"
    and "\<not> did_cancel s" "h AND 0x0fff = h" "length rest = 15"
    and "length pres = 7" "hd pres = SMP_OP_PAIRING_RSP" "length srand = 16"
    and "sconf = smp_c1 c (smp_tk s) srand pairing_preq pres
           (peer_addr_type s) (peer_addr s) (local_addr_type s) (local_addr s)"
    and "block_cipher c" "length (peer_addr s) = 6" "length (local_addr s) = 6"
  shows "\<exists>mrand mconf e'. link_phases c j False s e =
      (Inr (), paired_session c s h pres mrand mconf sconf srand, e') \<and> ready e' ps rs \<and>
    length mrand = 16 \<and>
    start_write (paired_session c s h pres mrand mconf sconf srand) \<in> set (new_acts e e')"
  using link_trace_completes [OF assms] by (force simp: link_trace_def new_acts_eq)

section \<open>Splitting a session at the end of its link phases\<close>

lemma session_setup_split:
  assumes "session_setup c j sec s e = (r, s', e')"
  obtains (left) "link_phases c j sec s e = (Inl Reconnect, s', e')"
  | (linked) s1 e1 where "link_phases c j sec s e = (Inr (), s1, e1)"
      "phase_gatt j s1 e1 = (r, s', e')" "new_acts e e' = new_acts e e1 @ new_acts e1 e'"
proof -
  obtain r1 s1 e1 where l: "link_phases c j sec s e = (r1, s1, e1)" by (metis prod_cases3)
  show thesis
  proof (cases r1)
    case (Inl x)
    with l assms have "link_phases c j sec s e = (Inl Reconnect, s', e')"
      by (cases x) (simp add: session_setup_def)
    then show thesis by (rule left)
  next
    case (Inr a)
    with l assms have g: "phase_gatt j s1 e1 = (r, s', e')" by (simp add: session_setup_def)
    have "new_acts e e' = new_acts e e1 @ new_acts e1 e'"
      using naps.link_phases_R [OF l] naps.phase_gatt_R [OF g]
      by (intro new_acts_trans) (auto dest: acts_in_env)
    with l g Inr show thesis by (intro linked) auto
  qed
qed

lemma phase_encrypt_Inr:
  assumes "phase_encrypt j s e = (Inr u, s', e')"
  shows "s' = s\<lparr>state := STATE_ENCRYPTED, did_cancel := False\<rparr>"
proof -
  obtain s1 e1 where a: "start_encryption s e = (Inr (), s1, e1)" "await_encryption j s1 e1 = (Inr u, s', e')"
    using assms by (auto simp: phase_encrypt_def and_then_eq_Inr)
  from a(1) have "s1 = s\<lparr>state := STATE_ENCRYPTION_START_SENT\<rparr>"
    by (auto simp: start_encryption_def Let_def split: prod.split_asm if_split_asm)
  moreover from a(2) have "s' = s1\<lparr>state := STATE_ENCRYPTED, did_cancel := False\<rparr>"
    by (auto simp: await_encryption_def split: prod.split_asm sum.split_asm if_split_asm)
  ultimately show ?thesis by simp
qed

lemma verify_confirm_Inr:
  "verify_confirm c s e = (Inr u, s', e') \<Longrightarrow>
     take 16 (expected_sconfirm c s') = take 16 (smp_sconfirm s') \<and>
     smp_stk s' = smp_s1 c (smp_tk s') (smp_mrand s') (smp_srand s') \<and> e' = e"
  by (auto simp: verify_confirm_def expected_sconfirm_def split: if_splits)

lemma phase_smp_Inr:
  assumes "phase_smp c j sec s e = (Inr u, s', e')"
  shows "take 16 (expected_sconfirm c s') = take 16 (smp_sconfirm s') \<and>
     smp_stk s' = smp_s1 c (smp_tk s') (smp_mrand s') (smp_srand s')"
proof -
  obtain s1 e1 where "verify_confirm c s1 e1 = (Inr u, s', e')"
    using assms by (auto simp: phase_smp_def and_then_eq_Inr case_prod_beta)
  then show ?thesis using verify_confirm_Inr by blast
qed

lemma link_phases_Inr:
  assumes "link_phases c j sec s e = (Inr u, s', e')"
  obtains s0 e0 s1 e1 s2 e2 where "session_start j s e = (s0, e0)"
    "phase_connect j s0 e0 = (Inr (), s1, e1)" "phase_smp c j sec s1 e1 = (Inr (), s2, e2)"
    "phase_encrypt j s2 e2 = (Inr (), s', e')" "state s' = STATE_ENCRYPTED"
proof -
  obtain s0 e0 where a: "session_start j s e = (s0, e0)" by fastforce
  with assms obtain s1 e1 s2 e2 where "phase_connect j s0 e0 = (Inr (), s1, e1)"
    "phase_smp c j sec s1 e1 = (Inr (), s2, e2)" "phase_encrypt j s2 e2 = (Inr (), s', e')"
    by (auto simp: link_phases_def and_then_eq_Inr)
  moreover from phase_encrypt_Inr [OF this(3)] have "state s' = STATE_ENCRYPTED" by simp
  ultimately show thesis using a that by blast
qed

section \<open>Safety of the order of the phases\<close>

text \<open>
  A concrete pairing, for the witnesses: handle 0x40, the pad cipher, a peer that answers.
\<close>

definition demo_stack :: stack where
  "demo_stack = \<lparr>jframe = zero_frame, jbuf = replicate 64 0\<rparr>"

definition demo_session :: session where
  "demo_session = init_session default_options 3 ([1, 2, 3, 4, 5, 0xC6], LE_RANDOM_ADDRESS)
     LE_PUBLIC_ADDRESS [0xED, 0x69, 0xE5, 0xDD, 0x3A, 0xD8]"

definition demo_pres :: bytes where
  "demo_pres = [SMP_OP_PAIRING_RSP, 0x03, 0x00, 0x01, 0x10, 0x03, 0x03]"

definition demo_sconf :: bytes where
  "demo_sconf = smp_c1 pad_cipher (smp_tk demo_session) (replicate 16 7) pairing_preq demo_pres
     (peer_addr_type demo_session) (peer_addr demo_session)
     (local_addr_type demo_session) (local_addr demo_session)"

definition demo_env :: env where
  "demo_env = quiet_env
     \<lparr>polls := map (\<lambda>dt. Poll_ans dt False P_ready) [1, 1, 1, 1, 1],
      reads := peer_script 0x01 0x40 (replicate 15 0) demo_pres demo_sconf (replicate 16 7)\<rparr>"

lemma demo_link:
  "\<exists>s1 e1. link_phases pad_cipher demo_stack False demo_session demo_env = (Inr (), s1, e1) \<and>
     ready e1 [] [] \<and> start_write s1 \<in> set (new_acts demo_env e1)"
proof -
  have "\<exists>mrand mconf e'. link_phases pad_cipher demo_stack False demo_session demo_env =
      (Inr (), paired_session pad_cipher demo_session 0x40 demo_pres mrand mconf demo_sconf
         (replicate 16 7), e') \<and> ready e' [] [] \<and> length mrand = 16 \<and>
      start_write (paired_session pad_cipher demo_session 0x40 demo_pres mrand mconf demo_sconf
         (replicate 16 7)) \<in> set (new_acts demo_env e')"
    by (rule link_completes [where ?d1.0 = 1 and ?d2.0 = 1 and ?d3.0 = 1 and ?d4.0 = 1 and ?d5.0 = 1 and
          rest = "replicate 15 0"])
      (simp_all add: demo_env_def ready_def quiet_env_def demo_session_def init_session_def
        demo_pres_def block_cipher_pad flip: demo_sconf_def, simp add: demo_sconf_def demo_session_def
        init_session_def demo_pres_def)
  then show ?thesis by blast
qed

lemma demo_start_write: "start_enc_write (start_write s)"
  by (simp add: start_write_def cmd_packet_def hci_opcode_def put_le16_def)

text \<open>The first thing an encrypted session writes is the MTU request.\<close>

definition mtu_write :: "session \<Rightarrow> action" where
  "mtu_write s = A_write (hci_fd s) (acl_packet (conn_handle s) ATT_CID [ATT_OP_MTU_REQ, 0xFF, 0x00] 3)"

lemma att_mtu_write: "att_write (mtu_write s)"
  using acl_packet_lens(3) [of "conn_handle s" ATT_CID "[ATT_OP_MTU_REQ, 0xFF, 0x00]" 3 "[]"]
  by (simp add: mtu_write_def acl_packet_type length_acl_packet)

lemma phase_gatt_mtu:
  assumes "ready e ps rs" and "phase_gatt j s e = (r, s', e')"
  shows "mtu_write s \<in> set (new_acts e e')"
proof -
  let ?e1 = "act (mtu_write s) e"
  have w: "att_send s [ATT_OP_MTU_REQ, 0xFF, 0x00] 3 e = (0, ?e1)"
    using ready_acl_send [OF assms(1), of 3] by (simp add: att_send_def mtu_write_def)
  obtain rc buf n s2 e2 where
    rx: "rx_await_acl (jframe j) ATT_CID (take 32 (jbuf j)) 32 2000 s ?e1 = (rc, buf, n, s2, e2)"
    by (metis prod_cases5)
  obtain r1 s3 where m: "mtu_exchange j s e = (r1, s3, e2)"
    using w rx by (simp add: mtu_exchange_def)
  have "env_le ?e1 e2" using naps.rx_await_acl_R [OF rx] by (rule acts_in_env)
  moreover have "env_le e2 e'"
  proof (cases r1)
    case (Inl x)
    with assms(2) m show ?thesis by (simp add: phase_gatt_def)
  next
    case (Inr u)
    then have "and_then (discover_services j s3 e2) (\<lambda>_ (s, e).
        and_then (discover_characteristics j s e) (\<lambda>_ (s, e). enable_cccd j s e)) = (r, s', e')"
      using assms(2) m by (simp add: phase_gatt_def)
    then have "acts_in nap_ok e2 e'"
      by (auto simp: and_then_def split: prod.splits sum.splits dest!: naps.gatt_steps_R)
        (meson acts_in_trans)+
    then show ?thesis by (rule acts_in_env)
  qed
  ultimately have "env_le ?e1 e'" by (rule env_le_trans)
  then show ?thesis by (auto simp: env_le_def new_acts_def)
qed

lemma demo_setup:
  "\<exists>r s' e' s1 e1. session_setup pad_cipher demo_stack False demo_session demo_env = (r, s', e') \<and>
     link_phases pad_cipher demo_stack False demo_session demo_env = (Inr (), s1, e1) \<and>
     start_write s1 \<in> set (new_acts demo_env e') \<and> mtu_write s1 \<in> set (new_acts demo_env e')"
proof -
  obtain s1 e1 where l: "link_phases pad_cipher demo_stack False demo_session demo_env = (Inr (), s1, e1)"
    and r: "ready e1 [] []" and w: "start_write s1 \<in> set (new_acts demo_env e1)" using demo_link by blast
  obtain r s' e' where s: "session_setup pad_cipher demo_stack False demo_session demo_env = (r, s', e')"
    by (metis prod_cases3)
  from s show ?thesis
  proof (cases rule: session_setup_split)
    case left
    with l show ?thesis by simp
  next
    case (linked s2 e2)
    with l r have "mtu_write s1 \<in> set (new_acts e1 e')" by (auto intro: phase_gatt_mtu)
    with linked l s w show ?thesis by auto
  qed
qed



text \<open>
  C4. Nothing is sent on the ATT channel unless the link phases succeeded and left the
  session in the state "encrypted"; the data is sent after that.
\<close>

theorem att_only_when_encrypted:
  assumes "session_setup c j sec s e = (r, s', e')"
    and "a \<in> set (new_acts e e')" and "att_write a"
  shows "\<exists>s1 e1. link_phases c j sec s e = (Inr (), s1, e1) \<and> state s1 = STATE_ENCRYPTED \<and>
     a \<in> set (new_acts e1 e')"
  using assms(1)
proof (cases rule: session_setup_split)
  case left
  with no_att.link_phases_R [OF left] assms(2,3) show ?thesis by (auto dest: acts_in_all)
next
  case (linked s1 e1)
  with no_att.link_phases_R [OF linked(1)] assms(2,3) have "a \<in> set (new_acts e1 e')"
    by (auto dest: acts_in_all)
  with linked(1) show ?thesis by (auto elim: link_phases_Inr)
qed

theorem att_only_when_encrypted_witness:
  "\<exists>s1 e1. link_phases pad_cipher demo_stack False demo_session demo_env = (Inr (), s1, e1) \<and>
     state s1 = STATE_ENCRYPTED"
proof -
  obtain r s' e' s1 where "session_setup pad_cipher demo_stack False demo_session demo_env = (r, s', e')"
    "mtu_write s1 \<in> set (new_acts demo_env e')" using demo_setup by blast
  from att_only_when_encrypted [OF this att_mtu_write] show ?thesis by blast
qed

end
