(* ===== verification/Liveness.thy ===== *)
theory Liveness
  imports Session_Props
begin

text \<open>
  The daemon stops when it is told to: if a signal is delivered at some \<open>poll\<close>, the
  report loop and the reconnect loop of \<^verbatim>\<open>sw2d_final.c\<close> end. The fuel that is
  enough is the number of answers the environment still holds.
\<close>

section \<open>A signal that will come\<close>

text \<open>Either the signal has come, or one of the poll answers still brings it.\<close>

definition signal_due :: "env \<Rightarrow> bool" where
  "signal_due e \<longleftrightarrow> \<not> running e \<or> (\<exists>p \<in> set (polls e). pa_signal p)"

definition answers_left :: "env \<Rightarrow> nat" where
  "answers_left e = length (polls e) + length (writes e)"

text \<open>No operation loses the signal or gains answers.\<close>

definition winds_down :: "env \<Rightarrow> env \<Rightarrow> bool" where
  "winds_down e e' \<longleftrightarrow> (signal_due e \<longrightarrow> signal_due e') \<and> (running e' \<longrightarrow> running e) \<and>
     length (polls e') \<le> length (polls e) \<and> length (writes e') \<le> length (writes e)"

lemma winds_down_effect: "env_effect winds_down (\<lambda>fd bs. True) (\<lambda>us. True)"
proof
  fix e e' e'' :: env and t n k r bs fd us
  show "winds_down e e" by (simp add: winds_down_def)
  show "winds_down e e' \<Longrightarrow> winds_down e' e'' \<Longrightarrow> winds_down e e''" by (auto simp: winds_down_def)
  show "sys_poll t e = (r, e') \<Longrightarrow> 0 \<le> t \<Longrightarrow> winds_down e e'"
    by (auto simp: sys_poll_def winds_down_def signal_due_def Let_def
        split: list.splits poll_res.splits)
  show "sys_read n e = (k, bs, e') \<Longrightarrow> winds_down e e'"
    by (auto simp: sys_read_def winds_down_def signal_due_def split: list.splits read_ans.splits)
  show "sys_rand e = (k, e') \<Longrightarrow> winds_down e e'"
    by (auto simp: sys_rand_def winds_down_def signal_due_def split: list.splits)
  show "sys_write fd bs e = (k, e') \<Longrightarrow> True \<Longrightarrow> winds_down e e'"
    by (auto simp: sys_write_def winds_down_def signal_due_def split: list.splits write_ans.splits)
  show "True \<Longrightarrow> winds_down e (usleep us e)"
    by (auto simp: usleep_def winds_down_def signal_due_def split: list.splits)
qed

interpretation wind: daemon_effect winds_down "\<lambda>fd bs. True" "\<lambda>us. True"
  by (intro daemon_effect.intro gatt_effect.intro link_effect.intro smp_effect.intro winds_down_effect
      smp_effect_axioms.intro link_effect_axioms.intro gatt_effect_axioms.intro daemon_effect_axioms.intro)
    simp_all

lemma winds_downD:
  "winds_down e e' \<Longrightarrow> signal_due e \<Longrightarrow> signal_due e'"
  "winds_down e e' \<Longrightarrow> running e' \<Longrightarrow> running e"
  "winds_down e e' \<Longrightarrow> answers_left e' \<le> answers_left e"
  "winds_down e e' \<Longrightarrow> length (polls e') \<le> length (polls e)"
  by (auto simp: winds_down_def answers_left_def)

lemma signal_due_polls: "signal_due e \<Longrightarrow> running e \<Longrightarrow> polls e \<noteq> []"
  by (auto simp: signal_due_def)

lemma read_frame_polls:
  "hci_user_read_frame f t e = (rc, f', e') \<Longrightarrow> polls e \<noteq> [] \<Longrightarrow> length (polls e') < length (polls e)"
  using read_frame_progress by fastforce

section \<open>The report loop\<close>

lemma report_loop_ends:
  "signal_due e \<Longrightarrow> length (polls e) < fuel \<Longrightarrow> \<exists>s' n' e'. report_loop fuel j s n e = Some (s', n', e')"
proof (induction fuel arbitrary: s n e)
  case (Suc fuel)
  show ?case
  proof (cases "running e \<and> state s = STATE_NOTIFICATIONS_ENABLED")
    case True
    obtain rc f e1 where rd: "hci_user_read_frame (jframe j) 1000 e = (rc, f, e1)" by (metis prod_cases3)
    have w: "winds_down e e1" by (rule wind.read_frame_R [OF rd]) simp
    have "length (polls e1) < length (polls e)"
      using read_frame_polls [OF rd] signal_due_polls [OF Suc.prems(1)] True by simp
    with Suc.prems w have "signal_due e1" "length (polls e1) < fuel" by (auto dest: winds_downD)
    note again = Suc.IH [OF this]
    show ?thesis
      using rd True again [of s n] again [of s "if is_report s f then n + 1 else n"]
      by (auto simp: Let_def split: if_splits)
  next
    case False
    then show ?thesis by auto
  qed
qed simp

lemma session_cycle_ends:
  assumes "signal_due e" and "length (polls e) < fuel"
  shows "\<exists>s' e'. session_cycle fuel c j sec s e = Some (s', e')"
proof -
  obtain r s1 e1 where st: "session_setup c j sec s e = (r, s1, e1)" by (metis prod_cases3)
  have w: "winds_down e e1" by (rule wind.session_setup_R [OF st])
  with assms have "signal_due e1" "length (polls e1) < fuel" by (auto dest: winds_downD)
  from report_loop_ends [OF this, of j s1 0] show ?thesis
    using st by (cases r) (auto simp: session_cycle_def split: exit.split)
qed

section \<open>The reconnect loop\<close>

text \<open>A session that does not see the signal has used up an answer.\<close>

lemma rx_await_polls:
  assumes "rx_await junk evt sub out t s e = (rc, out', s', e')"
    and "running e" "0 < t" "polls e \<noteq> []"
  shows "length (polls e') < length (polls e)"
proof -
  let ?d = "now_ms e + t" and ?t = "if 500 < t then 500 else t"
  obtain r st' where l: "await_loop (event_handler evt sub) ?d junk (out, s) e = (r, st', e')"
    using assms(1) unfolding rx_await_def rx_await_loop_eq by (auto split: prod.splits simp: or_timeout_def)
  obtain rc1 f1 e1 where rd: "hci_user_read_frame junk ?t e = (rc1, f1, e1)" by (metis prod_cases3)
  note unf = await_loop_read [of e ?d junk rc1 f1 e1 "event_handler evt sub" "(out, s)"]
  have "winds_down e1 e'"
    using l unf assms(2,3) rd
    by (auto simp: wind.R_refl split: if_splits option.splits prod.splits dest: wind.await_loop_R wind.await_loop_R [OF sym])
  with read_frame_polls [OF rd assms(4)] show ?thesis by (auto dest: winds_downD)
qed

lemma phase_connect_uses:
  assumes "phase_connect j s e = (r, s', e')" and "signal_due e" "running e"
  shows "answers_left e' < answers_left e"
proof -
  obtain rc e1 where c: "le_create_conn s e = (rc, e1)" by fastforce
  have w: "rc < 0 \<longrightarrow> length (writes e1) < length (writes e)"
    "length (writes e1) \<le> length (writes e)" "polls e1 = polls e" "running e1 = running e"
    using c by (auto simp: le_create_conn_def hci_user_send_cmd_def sys_write_def Let_def
        split: prod.splits if_splits list.splits write_ans.splits)
  show ?thesis
  proof (cases "rc < 0")
    case True
    with c w assms(1) show ?thesis by (auto simp: phase_connect_def answers_left_def)
  next
    case False
    obtain rc2 out s2 e2 where rx: "rx_await (jframe j) EVT_LE_META EVT_LE_CONN_COMPLETE None 10000 s e1
        = (rc2, out, s2, e2)" by (metis prod_cases4)
    have "length (polls e2) < length (polls e1)"
      using rx_await_polls [OF rx] w assms signal_due_polls by simp
    moreover have "winds_down e1 e2" by (rule wind.rx_await_R [OF rx])
    moreover have "polls (usleep 200000 e2) = polls e2" "writes (usleep 200000 e2) = writes e2"
      by (simp_all add: usleep_def split: list.split)
    moreover have "e' = e2 \<or> e' = usleep 200000 e2"
      using c rx False assms(1) by (auto simp: phase_connect_def split: if_splits)
    ultimately show ?thesis using w by (auto simp: answers_left_def winds_down_def)
  qed
qed

lemma session_cycle_uses:
  assumes "session_cycle fuel c j sec s e = Some (s', e')" and "signal_due e" "running e'"
  shows "answers_left e' < answers_left e"
proof -
  obtain s0 e0 where st: "session_start j s e = (s0, e0)" by fastforce
  obtain r1 s1 e1 where co: "phase_connect j s0 e0 = (r1, s1, e1)" by (metis prod_cases3)
  have w0: "winds_down e e0" by (rule wind.session_start_R [OF st])
  have w1: "winds_down e1 e'"
  proof (cases r1)
    case (Inl x)
    with st co assms(1) have "e' = e1"
      by (cases x) (simp add: session_cycle_def session_setup_def link_phases_def)
    then show ?thesis by (simp add: wind.R_refl)
  next
    case (Inr u)
    define rest where "rest = and_then (and_then (phase_smp c j sec s1 e1)
        (\<lambda>_ (s, e). phase_encrypt j s e)) (\<lambda>_ (s, e). phase_gatt j s e)"
    obtain r2 s2 e2 where q: "rest = (r2, s2, e2)" by (metis prod_cases3)
    then have "winds_down e1 e2" unfolding rest_def
      by (auto simp: and_then_def split: prod.splits sum.splits
          dest!: wind.phase_smp_R wind.phase_encrypt_R wind.phase_gatt_R) (meson wind.R_trans)+
    moreover from st co Inr q have "session_setup c j sec s e = (r2, s2, e2)"
      by (simp add: session_setup_def link_phases_def rest_def)
    with assms(1) have "winds_down e2 e'"
      by (auto simp: session_cycle_def wind.R_refl split: sum.splits exit.splits option.splits
          dest!: wind.report_loop_R)
    ultimately show ?thesis by (rule wind.R_trans)
  qed
  have "winds_down e0 e1" by (rule wind.phase_connect_R [OF co])
  with w1 assms(3) have "running e0" by (auto dest: winds_downD)
  moreover have "signal_due e0" using w0 assms(2) by (rule winds_downD)
  ultimately have "answers_left e1 < answers_left e0" using phase_connect_uses [OF co] by simp
  with w0 w1 show ?thesis by (auto dest!: winds_downD(3))
qed

lemma reconnect_loop_ends:
  "signal_due e \<Longrightarrow> answers_left e < fuel \<Longrightarrow> \<exists>e'. reconnect_loop fuel c j sec b s e = Some e' \<and> \<not> running e'"
proof (induction fuel arbitrary: b s e)
  case (Suc fuel)
  show ?case
  proof (cases "running e")
    case True
    from Suc.prems have "length (polls e) < Suc fuel" by (simp add: answers_left_def)
    from session_cycle_ends [OF Suc.prems(1) this] obtain s1 e1 where
      sc: "session_cycle (Suc fuel) c j sec s e = Some (s1, e1)" by blast
    show ?thesis
    proof (cases "running e1")
      case run: True
      have w: "winds_down e1 (sleep b e1)" unfolding sleep_def by (rule wind.R_usleep) simp
      have "winds_down e e1" by (rule wind.session_cycle_R [OF sc])
      then have due: "signal_due (sleep b e1)"
        using w Suc.prems(1) by (blast dest: winds_downD(1))
      have "answers_left e1 < answers_left e"
        by (rule session_cycle_uses [OF sc Suc.prems(1) run])
      with winds_downD(3) [OF w] Suc.prems(2) have "answers_left (sleep b e1) < fuel" by simp
      from Suc.IH [OF due this] sc True run show ?thesis by simp
    next
      case False
      with sc True show ?thesis by simp
    qed
  qed simp
qed simp

end
