(* ===== verification/Descriptors.thy ===== *)
theory Descriptors
  imports Exchange "HOL-Library.Multiset"
begin

text \<open>
  The descriptors of \<^verbatim>\<open>sw2d_final.c\<close>: what the program opened is what it closed plus
  what it holds. \<open>balance H e e'\<close> says so for the run from \<open>e\<close> to \<open>e'\<close> with \<open>H\<close> held at
  its end; each operation of \<^verbatim>\<open>main\<close> is a step that changes \<open>H\<close> in the obvious way.
\<close>

fun closed_fd :: "action \<Rightarrow> int list" where
  "closed_fd (A_close fd) = [fd]"
| "closed_fd _ = []"

definition closed :: "env \<Rightarrow> env \<Rightarrow> int list" where
  "closed e e' = concat (map closed_fd (new_acts e e'))"

text \<open>The descriptors handed out between two environments; negative ones are failures.\<close>

definition opened :: "env \<Rightarrow> env \<Rightarrow> int list" where
  "opened e e' = filter (\<lambda>f. 0 \<le> f) (take (length (fds e) - length (fds e')) (fds e))"

definition balance :: "int multiset \<Rightarrow> env \<Rightarrow> env \<Rightarrow> bool" where
  "balance H e e' \<longleftrightarrow> env_le e e' \<and> (\<exists>used. fds e = used @ fds e') \<and>
     mset (opened e e') = mset (closed e e') + H"

lemma closed_trans: "env_le e e' \<Longrightarrow> env_le e' e'' \<Longrightarrow> closed e e'' = closed e e' @ closed e' e''"
  using new_acts_trans [of e e' e''] by (simp add: closed_def)

lemma opened_trans:
  "fds e = u @ fds e' \<Longrightarrow> fds e' = v @ fds e'' \<Longrightarrow> opened e e'' = opened e e' @ opened e' e''"
  by (simp add: opened_def)

lemma balance_refl: "balance {#} e e"
  by (simp add: balance_def closed_def opened_def)

lemma balance_trans:
  assumes "balance H e e'" "balance K e' e''"
  shows "balance (H + K) e e''"
proof -
  obtain u where u: "fds e = u @ fds e'" using assms(1) by (auto simp: balance_def)
  obtain v where v: "fds e' = v @ fds e''" using assms(2) by (auto simp: balance_def)
  have le: "env_le e e'" "env_le e' e''" using assms by (auto simp: balance_def)
  have "\<exists>used. fds e = used @ fds e''" using u v by simp
  then show ?thesis
    using assms opened_trans [OF u v] closed_trans [OF le] env_le_trans [OF le]
    by (simp add: balance_def)
qed

lemma balance_step: "balance H e e' \<Longrightarrow> balance {#} e' e'' \<Longrightarrow> balance H e e''"
  using balance_trans by fastforce

lemma closed_fd_no_close: "\<not> is_close a \<Longrightarrow> closed_fd a = []"
  by (cases a) simp_all

lemma fds_kept_balance: "fds_kept e e' \<Longrightarrow> balance {#} e e'"
  by (auto simp: balance_def fds_kept_def acts_in_def closed_def opened_def list_all_iff
      closed_fd_no_close)

lemma sys_status_balance: "sys_status a e = (r, e') \<Longrightarrow> \<not> is_close a \<Longrightarrow> balance {#} e e'"
  using sys_status_mono [of a e r e']
  by (auto simp: sys_status_def balance_def closed_def opened_def new_acts_def closed_fd_no_close
      split: list.splits)

lemma sys_fd_balance:
  "sys_fd e = (f, e') \<Longrightarrow> balance (if 0 \<le> f then {#f#} else {#}) e e'"
  using sys_fd_mono [of e f e']
  by (auto simp: sys_fd_def balance_def closed_def opened_def new_acts_def split: list.splits)

lemma sys_close_balance:
  assumes "balance (add_mset f H) e e'"
  shows "balance H e (sys_close f e')"
proof -
  have "env_le e' (sys_close f e')" by simp
  moreover have "closed e' (sys_close f e') = [f]" "fds (sys_close f e') = fds e'"
    by (simp_all add: closed_def new_acts_def sys_close_def)
  ultimately show ?thesis
    using assms closed_trans [of e e' "sys_close f e'"] env_le_trans [of e e' "sys_close f e'"]
    by (auto simp: balance_def opened_def)
qed

lemma usleep_balance: "balance {#} e (usleep us e)"
  using silence.R_usleep by (intro fds_kept_balance) simp

section \<open>The operations of main\<close>

lemma bring_down_balance:
  assumes "hci_bring_down d e = (rc, e')"
  shows "balance {#} e e'"
proof -
  obtain ctl e1 where c: "sys_fd e = (ctl, e1)" by fastforce
  show ?thesis
  proof (cases "ctl < 0")
    case True
    with c assms sys_fd_balance [OF c] show ?thesis by (simp add: hci_bring_down_def)
  next
    case False
    then have b1: "balance {#ctl#} e e1" using sys_fd_balance [OF c] by simp
    obtain b e2 where s2: "sys_status (A_bind ctl (word_of_int d) HCI_CHANNEL_RAW) e1 = (b, e2)" by fastforce
    have b2: "balance {#ctl#} e e2" by (rule balance_step [OF b1 sys_status_balance [OF s2]]) simp
    obtain i e3 where s3: "sys_status (A_ioctl_down ctl d) e2 = (i, e3)" by fastforce
    have b3: "balance {#ctl#} e e3" by (rule balance_step [OF b2 sys_status_balance [OF s3]]) simp
    show ?thesis
      using assms c False s2 s3 sys_close_balance [of ctl "{#}" e e2] sys_close_balance [of ctl "{#}" e e3]
        b2 b3 balance_step [OF _ usleep_balance]
      by (auto simp: hci_bring_down_def Let_def split: if_splits)
  qed
qed

lemma user_open_balance:
  assumes "hci_user_open rt e = (fd, e')"
  shows "balance (if 0 \<le> fd then {#fd#} else {#}) e e'"
proof -
  let ?dev = "if rt < 0 then 0 else rt"
  obtain dn e1 where d: "hci_bring_down ?dev e = (dn, e1)" by fastforce
  obtain f e2 where f: "sys_fd e1 = (f, e2)" by fastforce
  have b2: "balance (if 0 \<le> f then {#f#} else {#}) e e2"
    using balance_trans [OF bring_down_balance [OF d] sys_fd_balance [OF f]] by simp
  obtain b e3 where s3: "sys_status (A_bind f (word_of_int ?dev) HCI_CHANNEL_USER) e2 = (b, e3)" by fastforce
  have b3: "balance (if 0 \<le> f then {#f#} else {#}) e e3"
    by (rule balance_step [OF b2 sys_status_balance [OF s3]]) simp
  show ?thesis
    using assms d f s3 b2 b3 sys_close_balance [of f "{#}" e e3]
    unfolding hci_user_open_def Let_def by (auto split: if_splits)
qed

lemma user_close_balance:
  "balance {#fd#} e e' \<Longrightarrow> 0 \<le> fd \<Longrightarrow> balance {#} e (hci_user_close fd e')"
  by (simp add: hci_user_close_def sys_close_balance)

lemma sys_write_balance: "sys_write fd bs e = (n, e') \<Longrightarrow> balance {#} e e'"
  by (rule fds_kept_balance, rule silence.R_write, assumption) simp

lemma usb_write_balance:
  assumes "usb_write fd r e1 = (q, e2)" and "balance {#fd#} e e1"
  shows "balance (case q of Inl _ \<Rightarrow> {#} | Inr _ \<Rightarrow> {#fd#}) e e2"
proof -
  obtain n e' where w: "sys_write fd r e1 = (n, e')" by fastforce
  with assms balance_step [OF assms(2) sys_write_balance [OF w]] sys_close_balance [of fd "{#}" e e']
  show ?thesis by (auto simp: usb_write_def split: if_splits)
qed

lemma usb_prep_balance:
  assumes "usb_prep host_addr e = (rc, e')"
  shows "balance {#} e e'"
proof -
  obtain fd e0 where f: "sys_fd e = (fd, e0)" by fastforce
  show ?thesis
  proof (cases "fd < 0")
    case True
    with f assms sys_fd_balance [OF f] show ?thesis by (simp add: usb_prep_def)
  next
    case False
    then have b0: "balance {#fd#} e e0" using sys_fd_balance [OF f] by simp
    define seq where "seq = and_then (usb_write fd (usb_report 0x01 0x06 [0x01]) e0) (\<lambda>_ e.
       and_then (usb_write fd (usb_report 0x02 0x08 [0x00]) e) (\<lambda>_ e.
       usb_write fd (usb_report 0x03 0x01 (take 6 host_addr)) e))"
    obtain q e1 where q: "seq = (q, e1)" by fastforce
    then have "balance (case q of Inl _ \<Rightarrow> {#} | Inr _ \<Rightarrow> {#fd#}) e e1"
      unfolding seq_def using b0
      by (auto simp: and_then_eq_Inr and_then_eq_Inl split: sum.split dest!: usb_write_balance)
    with assms f False q show ?thesis
      by (cases q) (auto simp: usb_prep_def seq_def [symmetric] intro: sys_close_balance)
  qed
qed

lemma guard_balance: "bluez_guard h opts e = (q, e') \<Longrightarrow> balance {#} e e'"
proof -
  have st: "balance {#} e (snd (sys_status (A_system cmd) e))" for e cmd
    by (rule sys_status_balance [OF surjective_pairing]) simp
  have kill: "balance {#} e (kill_bluez_clients e)" for e
    unfolding kill_bluez_clients_def
    by (rule balance_step [OF balance_step [OF st st] usleep_balance])
  show "bluez_guard h opts e = (q, e') \<Longrightarrow> balance {#} e e'"
    using kill by (auto simp: bluez_guard_def balance_refl Let_def split: if_splits prod.splits)
qed

lemma usb_stage_balance: "usb_stage opts hb e = (q, e') \<Longrightarrow> balance {#} e e'"
  using balance_step [OF usb_prep_balance usleep_balance]
  by (auto simp: usb_stage_def balance_refl sleep_def split: if_splits prod.splits
      dest: usb_prep_balance)

lemma transport_stage_balance:
  assumes "transport_stage h junk e = (q, e')"
  shows "balance (case q of Inl _ \<Rightarrow> {#} | Inr fd \<Rightarrow> {#fd#}) e e' \<and> (\<forall>fd. q = Inr fd \<longrightarrow> 0 \<le> fd)"
proof -
  obtain fd e1 where f: "hci_user_open (route h) e = (fd, e1)" by fastforce
  show ?thesis
  proof (cases "fd < 0")
    case True
    with f assms user_open_balance [OF f] show ?thesis by (auto simp: transport_stage_def)
  next
    case False
    obtain r e2 where i: "hci_user_init fd junk e1 = (r, e2)" by fastforce
    have "balance {#fd#} e e2"
      using False user_open_balance [OF f]
        balance_step [OF _ fds_kept_balance [OF setup_fds.hci_user_init_R [OF i]]] by simp
    with False f i assms user_close_balance [of fd e e2] show ?thesis
      by (auto simp: transport_stage_def split: if_splits)
  qed
qed

lemma scan_stage_balance:
  assumes "scan_stage opts fd peer own junk e1 = (q, e2)" and "balance {#fd#} e e1" "0 \<le> fd"
  shows "balance (case q of Inl _ \<Rightarrow> {#} | Inr _ \<Rightarrow> {#fd#}) e e2"
proof -
  obtain p e' where s: "scan_for_peer_user fd own (scan_timeout opts) junk e1 = (p, e')" by fastforce
  have "balance {#fd#} e e'"
    by (rule balance_step [OF assms(2) fds_kept_balance [OF setup_fds.scan_for_peer_user_R [OF s]]])
  with s assms user_close_balance [of fd e e'] show ?thesis
    by (auto simp: scan_stage_def split: if_splits option.splits)
qed

lemma peer_stage_balance:
  "peer_stage fd peer e1 = (q, e2) \<Longrightarrow> balance {#fd#} e e1 \<Longrightarrow> 0 \<le> fd \<Longrightarrow>
     balance (case q of Inl _ \<Rightarrow> {#} | Inr _ \<Rightarrow> {#fd#}) e e2"
  by (auto simp: peer_stage_def user_close_balance split: if_splits)

lemma main_setup_balance:
  assumes "main_setup h junk opts0 e = (q, e')"
  shows "balance (case q of Inl _ \<Rightarrow> {#} | Inr s \<Rightarrow> {#hci_fd s#}) e e' \<and>
     (\<forall>s. q = Inr s \<longrightarrow> 0 \<le> hci_fd s)"
proof -
  obtain opts ptype own where o: "resolve_types opts0 = (opts, ptype, own)" by (metis prod_cases3)
  have last: "hci_fd (init_session opts2 fd peer own hb) = fd" for opts2 fd peer hb
    by (simp add: init_session_def)
  have tail: "balance (case q of Inl _ \<Rightarrow> {#} | Inr s \<Rightarrow> {#hci_fd s#}) e e' \<and> (\<forall>s. q = Inr s \<longrightarrow> 0 \<le> hci_fd s)"
    if b: "balance {#} e e1" and t: "and_then (usb_stage opts hb e1) (\<lambda>opts e.
        and_then (transport_stage h junk e) (\<lambda>fd e.
        and_then (scan_stage opts fd peer own junk e) (\<lambda>peer e.
        and_then (peer_stage fd peer e) (\<lambda>peer e.
        (Inr (init_session opts fd peer own hb), e))))) = (q, e')" for e1 hb peer
  proof -
    obtain q2 e2 where u: "usb_stage opts hb e1 = (q2, e2)" by fastforce
    have b2: "balance {#} e e2" by (rule balance_step [OF b usb_stage_balance [OF u]])
    show ?thesis
    proof (cases q2)
      case (Inl x)
      with t u b2 show ?thesis by auto
    next
      case (Inr opts2)
      obtain q3 e3 where tr: "transport_stage h junk e2 = (q3, e3)" by fastforce
      note b3 = balance_trans [OF b2 conjunct1 [OF transport_stage_balance [OF tr]]]
      show ?thesis
      proof (cases q3)
        case (Inl x)
        with t u Inr tr b3 show ?thesis by auto
      next
        case (Inr fd)
        with b3 transport_stage_balance [OF tr] have b3: "balance {#fd#} e e3" "0 \<le> fd" by auto
        obtain q4 e4 where sc: "scan_stage opts2 fd peer own junk e3 = (q4, e4)" by fastforce
        note b4 = scan_stage_balance [OF sc b3]
        obtain q5 e5 where pe: "peer_stage fd (projr q4) e4 = (q5, e5)" by fastforce
        show ?thesis
          using t u \<open>q2 = Inr opts2\<close> tr Inr sc pe b3(2) b4 peer_stage_balance [OF pe _ b3(2), of e] last
          by (cases q4; cases q5) auto
      qed
    qed
  qed
  obtain g e1 where gd: "bluez_guard h opts e = (g, e1)" by fastforce
  have b1: "balance {#} e e1" by (rule guard_balance [OF gd])
  show ?thesis
    using assms o gd b1 tail [OF b1]
    by (cases g; cases "resolve_peer h opts ptype"; cases "resolve_host h opts")
      (auto simp: main_setup_def)
qed

text \<open>
  C6. No descriptor leaks and none is closed twice: whenever \<^verbatim>\<open>main\<close> returns, on every
  path and with any exit code, the descriptors it closed are exactly those it opened.
\<close>

theorem daemon_closes_what_it_opens:
  assumes "daemon_main fuel c h j args e = Some (code, e')"
  shows "mset (closed e e') = mset (opened e e')"
proof -
  have "balance {#} e e'"
  proof (cases "parse_args args default_options")
    case None
    with assms show ?thesis by (simp add: daemon_main_def balance_refl)
  next
    case (Some opts)
    show ?thesis
    proof (cases "preflight opts")
      case True
      obtain b1 e1 where c1: "command_exists ''btmon'' e = (b1, e1)" by fastforce
      obtain b2 e2 where c2: "command_exists ''hciconfig'' e1 = (b2, e2)" by fastforce
      have "balance {#} e e1" "balance {#} e1 e2"
        using c1 c2 by (auto simp: command_exists_def Let_def split: prod.splits
            intro: sys_status_balance)
      with assms Some True c1 c2 show ?thesis
        by (auto simp: daemon_main_def run_preflight_def Let_def intro: balance_step)
    next
      case False
      obtain q e1 where s: "main_setup h (jframe j) opts e = (q, e1)" by fastforce
      note b1 = main_setup_balance [OF s]
      show ?thesis
      proof (cases q)
        case (Inl x)
        with b1 s assms Some False show ?thesis by (simp add: daemon_main_def)
      next
        case (Inr sn)
        with s assms Some False obtain e2 where
          r: "reconnect_loop fuel c j (send_security_req opts) 1 sn e1 = Some e2"
          and e': "e' = hci_user_close (hci_fd sn) e2" by (auto simp: daemon_main_def)
        have "fds_kept e1 e2"
          by (rule descriptors.reconnect_loop_R [OF r]) (simp add: backoffs_def)
        with b1 Inr have "balance {#hci_fd sn#} e e2"
          by (auto intro: balance_step fds_kept_balance)
        with b1 Inr show ?thesis unfolding e' by (auto intro: user_close_balance)
      qed
    qed
  qed
  then show ?thesis by (simp add: balance_def)
qed

text \<open>
  The user channel cannot be bound: the control socket 5 and the channel socket 7 are both
  opened and closed, and the exit code is 1.
\<close>

definition demo_host :: host where
  "demo_host = \<lparr>str2ba = (\<lambda>s. Some [1, 2, 3, 4, 5, 0xC6]), route = 0, euid = 0, paths = [],
     sysfs_address = None, cmdline = None, procs = Some [], procs_after_kill = Some []\<rparr>"

definition demo_busy_env :: env where
  "demo_busy_env = quiet_env\<lparr>fds := [5, 7], statuses := [(0, E_OTHER), (0, E_OTHER), (-1, E_BUSY)]\<rparr>"

theorem daemon_closes_what_it_opens_witness:
  "\<exists>e'. daemon_main 1 pad_cipher demo_host \<lparr>jframe = zero_frame, jbuf = []\<rparr> [''--bdaddr'', ''x''] demo_busy_env
      = Some (1, e') \<and> mset (closed demo_busy_env e') = mset (opened demo_busy_env e') \<and>
    opened demo_busy_env e' = [5, 7]"
proof -
  let ?run = "daemon_main 1 pad_cipher demo_host \<lparr>jframe = zero_frame, jbuf = []\<rparr> [''--bdaddr'', ''x''] demo_busy_env"
  have "\<exists>e'. ?run = Some (1, e') \<and> fds e' = []"
    by (simp add: daemon_main_def value_option_def default_options_def main_setup_def resolve_types_def
        bluez_guard_def resolve_peer_def demo_host_def resolve_host_def read_local_bdaddr_def
        usb_stage_def transport_stage_def hci_user_open_def hci_bring_down_def sys_fd_def sys_status_def
        demo_busy_env_def quiet_env_def sys_close_def usleep_def addr_looks_static_random_def Let_def)
  then obtain e' where r: "?run = Some (1, e')" and f: "fds e' = []" by blast
  from daemon_closes_what_it_opens [OF r] f r show ?thesis
    by (simp add: opened_def demo_busy_env_def)
qed

end
