(* ===== verification/Daemon_Props.thy ===== *)
theory Daemon_Props
  imports Liveness Descriptors
begin

text \<open>
  The remaining properties of \<^verbatim>\<open>sw2d_final.c\<close> as a whole: pairing with an honest
  peer, the confirm check, the pauses between sessions, and that the program ends.
\<close>

section \<open>Pairing\<close>

text \<open>
  A peer that answers the connection, the pairing and the encryption is paired: with
  any block cipher, the link phases succeed, the link is encrypted under the connection's
  handle, and both sides hold the same short term key, s1 of the two random values.
\<close>

theorem honest_peer_is_paired:
  assumes "block_cipher c" and "\<not> did_cancel s" and "h AND 0x0fff = h" and "length rest = 15"
    and "length (peer_addr s) = 6" "length (local_addr s) = 6"
    and "length pres = 7" "hd pres = SMP_OP_PAIRING_RSP" "length srand = 16"
    and "sconf = smp_c1 c (smp_tk s) srand pairing_preq pres
           (peer_addr_type s) (peer_addr s) (local_addr_type s) (local_addr s)"
    and "ready e (map (\<lambda>dt. Poll_ans dt False P_ready) [d1, d2, d3, d4, d5] @ ps)
           (peer_script 0x01 h rest pres sconf srand @ rs)"
  shows "\<exists>s' e'. link_phases c j False s e = (Inr (), s', e') \<and> state s' = STATE_ENCRYPTED \<and>
     conn_handle s' = h \<and> \<not> did_cancel s' \<and> length (smp_mrand s') = 16 \<and>
     smp_stk s' = smp_s1 c (smp_tk s) (smp_mrand s') srand \<and> start_write s' \<in> set (new_acts e e')"
proof -
  from link_completes [OF assms(11,2,3,4,7,8,9,10,1,5,6), of j] obtain mrand mconf e' where
    "link_phases c j False s e = (Inr (), paired_session c s h pres mrand mconf sconf srand, e')"
    "length mrand = 16"
    "start_write (paired_session c s h pres mrand mconf sconf srand) \<in> set (new_acts e e')" by blast
  then show ?thesis by (auto simp: paired_session_def)
qed

theorem honest_peer_is_paired_witness:
  "\<exists>s' e'. link_phases pad_cipher demo_stack False demo_session demo_env = (Inr (), s', e') \<and>
     state s' = STATE_ENCRYPTED \<and> conn_handle s' = 0x40 \<and>
     smp_stk s' = smp_s1 pad_cipher (smp_tk demo_session) (smp_mrand s') (replicate 16 7)"
proof -
  have s: "\<not> did_cancel demo_session" "length (peer_addr demo_session) = 6"
    "length (local_addr demo_session) = 6" "length demo_pres = 7" "hd demo_pres = SMP_OP_PAIRING_RSP"
    by (simp_all add: demo_session_def init_session_def demo_pres_def)
  have r: "ready demo_env (map (\<lambda>dt. Poll_ans dt False P_ready) [1, 1, 1, 1, 1] @ [])
      (peer_script 0x01 0x40 (replicate 15 0) demo_pres demo_sconf (replicate 16 7) @ [])"
    by (simp add: demo_env_def ready_def quiet_env_def)
  have h: "(0x40 :: u16) AND 0x0fff = 0x40" by simp
  from honest_peer_is_paired [OF block_cipher_pad s(1) h _ s(2,3,4,5) _ demo_sconf_def r, of demo_stack]
  show ?thesis by auto
qed

text \<open>
  C27. Encryption that is switched off counts as encryption: when the last event of the same
  exchange reports success but says that the link is not encrypted, the daemon goes on as if
  it were, and nothing keeps it from using ATT on the open link.
\<close>

theorem encryption_off_accepted:
  assumes "block_cipher c" and "\<not> did_cancel s" and "h AND 0x0fff = h" and "length rest = 15"
    and "length (peer_addr s) = 6" "length (local_addr s) = 6"
    and "length pres = 7" "hd pres = SMP_OP_PAIRING_RSP" "length srand = 16"
    and "sconf = smp_c1 c (smp_tk s) srand pairing_preq pres
           (peer_addr_type s) (peer_addr s) (local_addr_type s) (local_addr s)"
    and "ready e (map (\<lambda>dt. Poll_ans dt False P_ready) [d1, d2, d3, d4, d5] @ ps)
           (peer_script 0x00 h rest pres sconf srand @ rs)"
  shows "\<exists>s' e'. link_phases c j False s e = (Inr (), s', e') \<and> state s' = STATE_ENCRYPTED \<and>
     session_setup c j False s e = phase_gatt j s' e'"
proof -
  from link_completes [OF assms(11,2,3,4,7,8,9,10,1,5,6), of j] obtain mrand mconf e' where
    l: "link_phases c j False s e = (Inr (), paired_session c s h pres mrand mconf sconf srand, e')" by blast
  have "session_setup c j False s e = phase_gatt j (paired_session c s h pres mrand mconf sconf srand) e'"
    by (simp add: session_setup_def l)
  with l show ?thesis by (auto simp: paired_session_def)
qed

theorem encryption_off_accepted_witness:
  "\<exists>s' e'. link_phases pad_cipher demo_stack False demo_session
       (demo_env\<lparr>reads := peer_script 0x00 0x40 (replicate 15 0) demo_pres demo_sconf (replicate 16 7)\<rparr>) =
     (Inr (), s', e') \<and> state s' = STATE_ENCRYPTED"
proof -
  let ?e = "demo_env\<lparr>reads := peer_script 0x00 0x40 (replicate 15 0) demo_pres demo_sconf (replicate 16 7)\<rparr>"
  have s: "\<not> did_cancel demo_session" "length (peer_addr demo_session) = 6"
    "length (local_addr demo_session) = 6" "length demo_pres = 7" "hd demo_pres = SMP_OP_PAIRING_RSP"
    by (simp_all add: demo_session_def init_session_def demo_pres_def)
  have r: "ready ?e (map (\<lambda>dt. Poll_ans dt False P_ready) [1, 1, 1, 1, 1] @ [])
      (peer_script 0x00 0x40 (replicate 15 0) demo_pres demo_sconf (replicate 16 7) @ [])"
    by (simp add: demo_env_def ready_def quiet_env_def)
  have h: "(0x40 :: u16) AND 0x0fff = 0x40" by simp
  from encryption_off_accepted [OF block_cipher_pad s(1) h _ s(2,3,4,5) _ demo_sconf_def r, of demo_stack]
  show ?thesis by auto
qed

text \<open>
  C25. The check of the peer's confirm value exchanges the roles of the two devices: a peer
  that computes its confirm value as the Core Specification (and the comment above
  \<^verbatim>\<open>smp_c1\<close>) define it, with the initiating device first, is refused whenever the two
  devices use the same address type and their addresses differ.
\<close>

theorem verify_rejects_spec_confirm:
  assumes "block_cipher c" and "length (smp_srand s) = 16" "length (smp_preq s) = 7"
    "length (smp_pres s) = 7" "length (local_addr s) = 6" "length (peer_addr s) = 6"
    and "local_addr_type s = peer_addr_type s" and "local_addr s \<noteq> peer_addr s"
    and "smp_sconfirm s = smp_c1 c (smp_tk s) (smp_srand s) (smp_preq s) (smp_pres s)
      (local_addr_type s) (local_addr s) (peer_addr_type s) (peer_addr s)"
  shows "verify_confirm c s e = (Inl Reconnect, s, e)"
proof -
  note len = length_smp_c1 [OF assms(1,2,3,4)]
  have "expected_sconfirm c s \<noteq> smp_sconfirm s"
    using smp_c1_swap [OF assms(1-4) assms(6,5), of "smp_tk s" "peer_addr_type s"] assms(7,8)
    unfolding expected_sconfirm_def assms(9) by auto
  moreover have "length (expected_sconfirm c s) = 16" "length (smp_sconfirm s) = 16"
    using len assms(5,6) by (simp_all add: expected_sconfirm_def assms(9))
  ultimately show ?thesis by (simp add: verify_confirm_def)
qed

definition spec_session :: session where
  "spec_session = demo_session\<lparr>peer_addr_type := 0, smp_srand := replicate 16 7,
     smp_preq := pairing_preq, smp_pres := demo_pres,
     smp_sconfirm := smp_c1 pad_cipher (replicate 16 0) (replicate 16 7) pairing_preq demo_pres
        0 [0xED, 0x69, 0xE5, 0xDD, 0x3A, 0xD8] 0 [1, 2, 3, 4, 5, 0xC6]\<rparr>"

theorem verify_rejects_spec_confirm_witness:
  "verify_confirm pad_cipher spec_session quiet_env = (Inl Reconnect, spec_session, quiet_env)"
  by (rule verify_rejects_spec_confirm [OF block_cipher_pad])
    (simp_all add: spec_session_def demo_session_def init_session_def pairing_preq_def demo_pres_def)

section \<open>Pauses\<close>

lemma backoff_power: "(next_backoff ^^ n) 1 = min 16 (2 ^ n)"
proof (induction n)
  case 0
  show ?case by simp
next
  case (Suc n)
  show ?case
  proof (cases "n < 4")
    case True
    then have "n = 0 \<or> n = 1 \<or> n = 2 \<or> n = 3" by auto
    with Suc show ?thesis by (auto simp: next_backoff_def)
  next
    case False
    then have "(2 :: nat) ^ 4 \<le> 2 ^ n" by (intro power_increasing) auto
    with Suc show ?thesis by (simp add: next_backoff_def)
  qed
qed


text \<open>Two failed attempts to write the connect command, one second apart, then a signal.\<close>

definition failing_env :: env where
  "failing_env = quiet_env\<lparr>writes := [W_error E_OTHER, W_error E_OTHER], naps := [True]\<rparr>"

lemma failing_run:
  "\<exists>e'. reconnect_loop 2 pad_cipher demo_stack False 1 demo_session failing_env = Some e' \<and>
     acts e' = [A_sleep 1000000]"
  by (simp add: numeral_2_eq_2 session_cycle_def session_setup_def link_phases_def session_start_def
      phase_connect_def le_create_conn_def hci_user_send_cmd_def sys_write_def failing_env_def
      quiet_env_def demo_session_def init_session_def sleep_def usleep_def Let_def)


section \<open>Termination\<close>


text \<open>
  A run: the channel is opened, the two initial commands complete, and the signal comes at
  the first \<open>poll\<close> of the session.
\<close>

definition signalled_env :: env where
  "signalled_env = quiet_env\<lparr>fds := [5, 7],
     polls := [Poll_ans 1 False P_ready, Poll_ans 1 False P_ready, Poll_ans 1 True P_timeout],
     reads := [R_data [0x04, 0x0e, 4, 1, 0x03, 0x0C, 0], R_data [0x04, 0x0e, 4, 1, 0x01, 0x20, 0]]\<rparr>"

lemmas frame_eval = hci_user_read_frame_def sys_poll_def sys_read_def overwrite_def parse_frame_def
  parse_event_def parse_acl_def pl_byte_def pl_le16_def get_le16_def cmd_complete_for_def

lemma signalled_setup:
  "\<exists>s e1. main_setup demo_host zero_frame (default_options\<lparr>bdaddr_s := Some ''x''\<rparr>) signalled_env = (Inr s, e1) \<and>
     polls e1 = [Poll_ans 1 True P_timeout] \<and> writes e1 = []"
proof -
  have init: "\<exists>e2. hci_user_init 7 zero_frame e = (0, e2) \<and> polls e2 = [Poll_ans 1 True P_timeout] \<and> writes e2 = []"
    if "polls e = polls signalled_env" "reads e = reads signalled_env" "writes e = []" for e
    using that
    by (simp add: hci_user_init_def hci_user_send_cmd_def sys_write_def signalled_env_def
        reset_wait.simps(2) [of 9, simplified] wait_cmd_complete_def wait_cmd_loop.simps frame_eval
        zero_frame_def cong: eval_congs)
  have "\<exists>e1. hci_user_open 0 signalled_env = (7, e1) \<and> polls e1 = polls signalled_env \<and>
      reads e1 = reads signalled_env \<and> writes e1 = []"
    by (simp add: hci_user_open_def hci_bring_down_def sys_fd_def sys_status_def sys_close_def usleep_def
        signalled_env_def quiet_env_def Let_def)
  then obtain e1 e2 where o: "hci_user_open 0 signalled_env = (7, e1)" and
    i: "hci_user_init 7 zero_frame e1 = (0, e2)" "polls e2 = [Poll_ans 1 True P_timeout]" "writes e2 = []"
    using init by blast
  then show ?thesis
    by (simp add: default_options_def main_setup_def resolve_types_def bluez_guard_def resolve_peer_def
        demo_host_def resolve_host_def read_local_bdaddr_def usb_stage_def transport_stage_def
        scan_stage_def peer_stage_def addr_is_zero_def addr_looks_static_random_def upt_rec)
qed


end
