(* ===== verification/Gatt_Exchange.thy ===== *)
theory Gatt_Exchange
  imports Daemon_Props
begin

text \<open>
  Phases 4 and 5 of \<^verbatim>\<open>sw2d_final.c\<close> against a controller that answers, and against one
  that is silent: what each step of the discovery sends and stores, and what the report loop
  counts. \<open>att_data\<close> is a frame of ATT data, \<open>poll_ok\<close> and \<open>poll_silent\<close> are the answers of
  \<^verbatim>\<open>poll\<close>.
\<close>

section \<open>An ATT request and its answer\<close>

definition att_data :: "u16 \<Rightarrow> bytes \<Rightarrow> read_ans" where
  "att_data h d = R_data (acl_packet h ATT_CID d (of_nat (length d)))"

definition poll_ok :: "nat \<Rightarrow> poll_ans" where
  "poll_ok dt = Poll_ans dt False P_ready"

text \<open>The write of an ATT message.\<close>

definition att_out :: "session \<Rightarrow> bytes \<Rightarrow> action" where
  "att_out s d = A_write (hci_fd s) (acl_packet (conn_handle s) ATT_CID d (of_nat (length d)))"

lemma att_send_ready:
  "ready e ps rs \<Longrightarrow> length d \<le> 512 \<Longrightarrow> n = of_nat (length d) \<Longrightarrow>
     att_send s d n e = (0, act (att_out s d) e)"
  by (simp add: att_send_def att_out_def ready_acl_send word_le_nat_alt unat_of_nat_u16)

lemma await_att:
  assumes "ready e (poll_ok dt # ps) (att_data (conn_handle s) d # rs)"
    and "0 < t" "conn_handle s AND 0x0fff = conn_handle s" "length d \<le> 503" "of_nat (length d) \<le> n"
  shows "rx_await_acl junk ATT_CID out n t s e =
     (0, overwrite out d, of_nat (length d), s, after_read dt False ps rs e)"
    and "ready (after_read dt False ps rs e) ps rs"
  using assms(1)
  by (auto simp: ready_def poll_ok_def att_data_def intro!: rx_await_acl_delivers assms(2-))

section \<open>The characteristics\<close>

text \<open>Which handle a list of answers selects: the last one of a characteristic that notifies.\<close>

definition notifies :: "bytes \<Rightarrow> bool" where
  "notifies b \<longleftrightarrow> hd b = ATT_OP_READ_BY_TYPE_RSP \<and> 7 \<le> length b \<and> b ! 4 AND 0x10 \<noteq> 0"

definition chosen_handle :: "u16 \<Rightarrow> bytes list \<Rightarrow> u16" where
  "chosen_handle old cs = fold (\<lambda>b h. if notifies b then get_le16 b 5 else h) cs old"

definition choose_report :: "bytes list \<Rightarrow> session \<Rightarrow> session" where
  "choose_report cs s =
     fold (\<lambda>b s. if notifies b then s\<lparr>report_handle := get_le16 b 5, report_cccd := get_le16 b 5 + 1\<rparr> else s) cs s"

lemma choose_report_fields:
  "report_handle (choose_report cs s) = chosen_handle (report_handle s) cs"
  "hci_fd (choose_report cs s) = hci_fd s" "conn_handle (choose_report cs s) = conn_handle s"
  "state (choose_report cs s) = state s"
  by (induction cs arbitrary: s) (simp_all add: choose_report_def chosen_handle_def)

lemma note_characteristic_answer:
  assumes "b \<noteq> []" "length b \<le> 64"
  shows "note_characteristic (overwrite out b) (of_nat (length b)) s =
    (if notifies b then s\<lparr>report_handle := get_le16 b 5, report_cccd := get_le16 b 5 + 1\<rparr> else s)"
proof -
  have n: "unat (of_nat (length b) :: u16) = length b" using assms(2) by (intro unat_of_nat_u16) simp
  have h: "overwrite out b ! 0 = hd b" using assms(1) by (simp add: hd_conv_nth)
  show ?thesis
  proof (cases "7 \<le> length b")
    case True
    then have "get_le16 (overwrite out b) 5 = get_le16 b 5" by (intro get_le16_cong nth_overwrite_low) simp_all
    with True h n show ?thesis by (simp add: note_characteristic_def notifies_def word_le_nat_alt)
  next
    case False
    with h n show ?thesis by (simp add: note_characteristic_def notifies_def word_le_nat_alt)
  qed
qed

lemma now_before:
  assumes "clock e \<le> c + 499000"
  shows "now_ms e < c div 1000 + 500"
proof -
  have "now_ms e \<le> (c + 499000) div 1000" unfolding now_ms_def by (rule zdiv_mono1 [OF assms]) simp
  also have "\<dots> = c div 1000 + 499" by simp
  finally show ?thesis by simp
qed

text \<open>A silent peer: polls that time out, as many as the time left takes.\<close>

definition poll_silent :: poll_ans where
  "poll_silent = Poll_ans 0 False P_timeout"

lemma await_silence:
  assumes "ready e (replicate k poll_silent @ ps) rs"
    and "500 * (int k - 1) < d - now_ms e" "d - now_ms e \<le> 500 * int k"
  shows "\<exists>e'. rx_await_acl_loop ch d f out n s e = (-1, out, n, s, e') \<and> ready e' ps rs \<and>
    acts e' = acts e \<and> d \<le> now_ms e'"
  using assms
proof (induction k arbitrary: f e)
  case 0
  then show ?case by (subst rx_await_acl_loop.simps) (auto simp: ready_def)
next
  case (Suc k)
  define t where "t = (if 500 < d - now_ms e then 500 else d - now_ms e)"
  define e1 where "e1 = e\<lparr>polls := replicate k poll_silent @ ps, clock := clock e + 1000 * t\<rparr>"
  have t: "0 < t" using Suc.prems(2) by (auto simp: t_def)
  have r: "hci_user_read_frame f t e = (0, f, e1)"
    using Suc.prems(1) by (simp add: hci_user_read_frame_def sys_poll_def ready_def poll_silent_def e1_def)
  have n: "now_ms e1 = now_ms e + t" by (simp add: e1_def now_ms_def)
  have "ready e1 (replicate k poll_silent @ ps) rs" "acts e1 = acts e" "running e"
    using Suc.prems(1) by (simp_all add: ready_def e1_def)
  moreover have "500 * (int k - 1) < d - now_ms e1" "d - now_ms e1 \<le> 500 * int k"
    using Suc.prems(2,3) n by (auto simp: t_def split: if_splits)
  ultimately show ?case
    using Suc.IH [of e1 f] r Suc.prems(2) t_def
    by (subst rx_await_acl_loop.simps) (auto simp: Let_def)
qed

text \<open>
  The peer answers the request with \<open>cs\<close> within half a second and is silent until the
  deadline of three seconds.
\<close>

lemma characteristics_loop_completes:
  assumes "ready e (map poll_ok ds @ replicate 6 poll_silent @ ps) (map (att_data (conn_handle s)) cs @ rs)"
    and "length ds = length cs" "conn_handle s AND 0x0fff = conn_handle s"
    and "\<forall>b \<in> set cs. b \<noteq> [] \<and> length b \<le> 64 \<and> hd b \<noteq> ATT_OP_ERROR_RSP"
    and "c \<le> clock e" "clock e + int (sum_list ds) \<le> c + 499000"
  shows "\<exists>e'. characteristics_loop j (c div 1000 + 3000) s e = (Inr (), choose_report cs s, e') \<and>
    ready e' ps rs \<and> acts e' = acts e"
  using assms
proof (induction cs arbitrary: ds s e)
  case Nil
  have r: "ready e (replicate 6 poll_silent @ ps) rs" using Nil.prems(1,2) by simp
  have n: "now_ms e < c div 1000 + 500" using Nil.prems(6) by (intro now_before) simp
  have m: "c div 1000 \<le> now_ms e" using Nil.prems(5) unfolding now_ms_def by (rule zdiv_mono1) simp
  from await_silence [OF r, of "c div 1000 + 3000" ATT_CID "jframe j" "take 64 (jbuf j)" 64 s] n m
  obtain e1 where l: "rx_await_acl_loop ATT_CID (c div 1000 + 3000) (jframe j) (take 64 (jbuf j)) 64 s e =
      (-1, take 64 (jbuf j), 64, s, e1)" and e1: "ready e1 ps rs" "acts e1 = acts e" "c div 1000 + 3000 \<le> now_ms e1"
    by auto
  have "characteristics_loop j (c div 1000 + 3000) s e1 = (Inr (), s, e1)"
    using e1(3) by (subst characteristics_loop.simps) simp
  with l n r e1 show ?case
    by (subst characteristics_loop.simps) (simp add: rx_await_acl_def choose_report_def ready_def)
next
  case (Cons b cs)
  from Cons.prems(2) obtain dt ds' where ds: "ds = dt # ds'" by (cases ds) auto
  let ?ps = "map poll_ok ds' @ replicate 6 poll_silent @ ps" and ?rs = "map (att_data (conn_handle s)) cs @ rs"
  let ?e1 = "after_read dt False ?ps ?rs e"
  have n: "now_ms e < c div 1000 + 500" using Cons.prems(6) by (intro now_before) simp
  have b: "b \<noteq> []" "length b \<le> 64" "hd b \<noteq> ATT_OP_ERROR_RSP" using Cons.prems(4) by simp_all
  have u: "(of_nat (length b) :: u16) \<le> 64" using b(2) by (simp add: word_le_nat_alt unat_of_nat_u16)
  have r: "ready e (poll_ok dt # ?ps) (att_data (conn_handle s) b # ?rs)" using Cons.prems(1) ds by simp
  define s1 where "s1 = (if notifies b then s\<lparr>report_handle := get_le16 b 5, report_cccd := get_le16 b 5 + 1\<rparr> else s)"
  have h: "conn_handle s1 = conn_handle s" by (simp add: s1_def)
  have rx: "rx_await_acl (jframe j) ATT_CID (take 64 (jbuf j)) 64 (c div 1000 + 3000 - now_ms e) s e =
      (0, overwrite (take 64 (jbuf j)) b, of_nat (length b), s, ?e1)"
    using n b(2) u Cons.prems(3) by (intro await_att [OF r]) simp_all
  have "overwrite (take 64 (jbuf j)) b ! 0 \<noteq> ATT_OP_ERROR_RSP"
    using b by (simp add: hd_conv_nth)
  then have "characteristics_loop j (c div 1000 + 3000) s e = characteristics_loop j (c div 1000 + 3000) s1 ?e1"
    using n r rx note_characteristic_answer [OF b(1,2)]
    by (subst characteristics_loop.simps) (simp add: s1_def ready_def)
  moreover have "ready ?e1 ?ps (map (att_data (conn_handle s1)) cs @ rs)"
    using r by (simp add: h ready_after_read)
  from Cons.IH [OF this] Cons.prems(2-6) ds h
  obtain e' where "characteristics_loop j (c div 1000 + 3000) s1 ?e1 = (Inr (), choose_report cs s1, e')"
    "ready e' ps rs" "acts e' = acts ?e1" by fastforce
  moreover have "choose_report cs s1 = choose_report (b # cs) s" by (simp add: choose_report_def s1_def)
  ultimately show ?case by simp
qed

section \<open>ATT with a peer that answers\<close>

definition mtu_answer :: "u16 \<Rightarrow> bytes" where
  "mtu_answer mtu = ATT_OP_MTU_RSP # put_le16 mtu"

definition service_answer :: "u16 \<Rightarrow> u16 \<Rightarrow> bytes \<Rightarrow> bytes" where
  "service_answer st en uuid = [ATT_OP_READ_BY_GROUP_RSP, of_nat (4 + length uuid)] @ put_le16 st @ put_le16 en @ uuid"

text \<open>The session an answering peer leads to.\<close>

definition discovered :: "u16 \<Rightarrow> u16 \<Rightarrow> u16 \<Rightarrow> bytes list \<Rightarrow> session \<Rightarrow> session" where
  "discovered mtu st en cs s =
     (let s1 = choose_report cs (s\<lparr>att_mtu := mtu, state := STATE_ATT_READY, svc_start := st, svc_end := en\<rparr>)
      in (if report_handle s1 = 0 then s1\<lparr>report_handle := 0x000E, report_cccd := 0x000F\<rparr> else s1)
           \<lparr>state := STATE_GATT_READY\<rparr>)"

definition served :: "u16 \<Rightarrow> u16 \<Rightarrow> u16 \<Rightarrow> bytes list \<Rightarrow> session \<Rightarrow> session" where
  "served mtu st en cs s = discovered mtu st en cs s\<lparr>state := STATE_NOTIFICATIONS_ENABLED\<rparr>"

lemma discovered_link:
  "conn_handle (discovered mtu st en cs s) = conn_handle s" "hci_fd (discovered mtu st en cs s) = hci_fd s"
  "report_handle (discovered mtu st en cs s) =
     (let h = chosen_handle (report_handle s) cs in if h = 0 then 0x000E else h)"
  by (simp_all add: discovered_def choose_report_fields Let_def)

lemma served_fields:
  "conn_handle (served mtu st en cs s) = conn_handle s" "hci_fd (served mtu st en cs s) = hci_fd s"
  "report_handle (served mtu st en cs s) =
     (let h = chosen_handle (report_handle s) cs in if h = 0 then 0x000E else h)"
  "state (served mtu st en cs s) = STATE_NOTIFICATIONS_ENABLED"
  by (simp_all add: served_def discovered_link)

lemma get_le16_mid: "length xs = off \<Longrightarrow> get_le16 (overwrite out (xs @ put_le16 v @ ys)) off = v"
proof -
  assume l: "length xs = off"
  have "get_le16 (overwrite out (xs @ put_le16 v @ ys)) off = get_le16 (xs @ put_le16 v @ ys) off"
    by (intro get_le16_cong nth_overwrite_low) (simp_all add: l)
  with get_le16_append [OF l] show ?thesis by simp
qed

lemma mtu_exchange_completes:
  assumes "ready e (poll_ok dt # ps) (att_data (conn_handle s) (mtu_answer mtu) # rs)"
    and "conn_handle s AND 0x0fff = conn_handle s"
  shows "\<exists>e'. mtu_exchange j s e = (Inr (), s\<lparr>att_mtu := mtu, state := STATE_ATT_READY\<rparr>, e') \<and>
    ready e' ps rs \<and> acts e' = acts e @ [att_out s [ATT_OP_MTU_REQ, 0xFF, 0x00]]"
proof -
  let ?e1 = "act (att_out s [ATT_OP_MTU_REQ, 0xFF, 0x00]) e"
  have w: "att_send s [ATT_OP_MTU_REQ, 0xFF, 0x00] 3 e = (0, ?e1)"
    by (rule att_send_ready [OF assms(1)]) simp_all
  have r1: "ready ?e1 (poll_ok dt # ps) (att_data (conn_handle s) (mtu_answer mtu) # rs)" using assms(1) by simp
  have l: "length (mtu_answer mtu) = 3" by (simp add: mtu_answer_def)
  have rx: "rx_await_acl (jframe j) ATT_CID (take 32 (jbuf j)) 32 2000 s ?e1 =
      (0, overwrite (take 32 (jbuf j)) (mtu_answer mtu), 3, s, after_read dt False ps rs ?e1)"
    using await_att(1) [OF r1 _ assms(2), where t = 2000 and n = 32, unfolded l] by simp
  have "get_le16 (overwrite (take 32 (jbuf j)) (mtu_answer mtu)) 1 = mtu"
    using get_le16_mid [of "[ATT_OP_MTU_RSP]" 1 _ mtu "[]"] by (simp add: mtu_answer_def)
  moreover have "overwrite (take 32 (jbuf j)) (mtu_answer mtu) ! 0 = ATT_OP_MTU_RSP"
    by (simp add: mtu_answer_def overwrite_def)
  ultimately show ?thesis
    using w rx ready_after_read [OF r1] by (simp add: mtu_exchange_def)
qed

lemma discover_services_completes:
  assumes "ready e (poll_ok dt # ps) (att_data (conn_handle s) (service_answer st en uuid) # rs)"
    and "conn_handle s AND 0x0fff = conn_handle s" "length uuid \<le> 58"
  shows "\<exists>e'. discover_services j s e = (Inr (), s\<lparr>svc_start := st, svc_end := en\<rparr>, e') \<and>
    ready e' ps rs \<and>
    acts e' = acts e @ [att_out s [ATT_OP_READ_BY_GROUP_REQ, 0x01, 0x00, 0xFF, 0xFF, 0x00, 0x28]]"
proof -
  let ?q = "[ATT_OP_READ_BY_GROUP_REQ, 0x01, 0x00, 0xFF, 0xFF, 0x00, 0x28]"
  let ?e1 = "act (att_out s ?q) e" and ?a = "service_answer st en uuid" and ?b = "take 64 (jbuf j)"
  have w: "att_send s ?q 7 e = (0, ?e1)" by (rule att_send_ready [OF assms(1)]) simp_all
  have r1: "ready ?e1 (poll_ok dt # ps) (att_data (conn_handle s) ?a # rs)" using assms(1) by simp
  have l: "length ?a = 6 + length uuid" by (simp add: service_answer_def)
  have u: "unat (of_nat (length ?a) :: u16) = length ?a" using assms(3) l by (intro unat_of_nat_u16) simp
  have n: "of_nat (length ?a) \<le> (64 :: u16)" "(6 :: u16) \<le> of_nat (length ?a)"
    using assms(3) l u by (simp_all add: word_le_nat_alt)
  have rx: "rx_await_acl (jframe j) ATT_CID ?b 64 3000 s ?e1 =
      (0, overwrite ?b ?a, of_nat (length ?a), s, after_read dt False ps rs ?e1)"
    by (rule await_att [OF r1 _ assms(2)]) (use l assms(3) n in simp_all)
  have g: "get_le16 (overwrite ?b ?a) 2 = st" "get_le16 (overwrite ?b ?a) 4 = en"
    using get_le16_mid [of "[ATT_OP_READ_BY_GROUP_RSP, of_nat (4 + length uuid)]" 2 ?b st "put_le16 en @ uuid"]
      get_le16_mid [of "[ATT_OP_READ_BY_GROUP_RSP, of_nat (4 + length uuid)] @ put_le16 st" 4 ?b en uuid]
    by (simp_all add: service_answer_def)
  have "overwrite ?b ?a ! 0 = ATT_OP_READ_BY_GROUP_RSP" by (simp add: service_answer_def overwrite_def)
  then have "discover_services j s e = (Inr (), s\<lparr>svc_start := st, svc_end := en\<rparr>, after_read dt False ps rs ?e1)"
    using w rx g n(2) by (simp add: discover_services_def)
  with ready_after_read [OF r1] show ?thesis by simp
qed

lemma discover_characteristics_completes:
  assumes "ready e (map poll_ok ds @ replicate 6 poll_silent @ ps) (map (att_data (conn_handle s)) cs @ rs)"
    and "length ds = length cs" "sum_list ds \<le> 499000" "conn_handle s AND 0x0fff = conn_handle s"
    and "\<forall>b \<in> set cs. b \<noteq> [] \<and> length b \<le> 64 \<and> hd b \<noteq> ATT_OP_ERROR_RSP"
  shows "\<exists>e'. discover_characteristics j s e =
      (Inr (), (let s1 = choose_report cs s
         in (if report_handle s1 = 0 then s1\<lparr>report_handle := 0x000E, report_cccd := 0x000F\<rparr> else s1)
              \<lparr>state := STATE_GATT_READY\<rparr>), e') \<and>
    ready e' ps rs \<and> acts e' = acts e @ [att_out s (characteristics_request s)]"
proof -
  let ?e1 = "act (att_out s (characteristics_request s)) e"
  have w: "att_send s (characteristics_request s) 7 e = (0, ?e1)"
    by (rule att_send_ready [OF assms(1)]) (simp_all add: characteristics_request_def)
  from characteristics_loop_completes [of ?e1 ds ps s cs rs "clock e" j] assms
  obtain e2 where "characteristics_loop j (now_ms ?e1 + 3000) s ?e1 = (Inr (), choose_report cs s, e2)"
    "ready e2 ps rs" "acts e2 = acts ?e1"
    by (auto simp: now_ms_def)
  with w show ?thesis by (simp add: discover_characteristics_def Let_def)
qed

lemma enable_cccd_completes:
  assumes "ready e (poll_ok dt # ps) (att_data (conn_handle s) w # rs)"
    and "conn_handle s AND 0x0fff = conn_handle s" "length w \<le> 16"
  shows "\<exists>e'. enable_cccd j s e = (Inr (), s\<lparr>state := STATE_NOTIFICATIONS_ENABLED\<rparr>, e') \<and>
    ready e' ps rs \<and> acts e' = acts e @ [att_out s (cccd_request s)]"
proof -
  let ?e1 = "act (att_out s (cccd_request s)) e"
  have q: "att_send s (cccd_request s) 5 e = (0, ?e1)"
    by (rule att_send_ready [OF assms(1)]) (simp_all add: cccd_request_def)
  have r1: "ready ?e1 (poll_ok dt # ps) (att_data (conn_handle s) w # rs)" using assms(1) by simp
  have n: "of_nat (length w) \<le> (16 :: u16)" using assms(3) by (simp add: word_le_nat_alt unat_of_nat_u16)
  have "rx_await_acl (jframe j) ATT_CID (take 16 (jbuf j)) 16 2000 s ?e1 =
      (0, overwrite (take 16 (jbuf j)) w, of_nat (length w), s, after_read dt False ps rs ?e1)"
    by (rule await_att [OF r1 _ assms(2)]) (use assms(3) n in simp_all)
  with q ready_after_read [OF r1] show ?thesis by (simp add: enable_cccd_def)
qed

text \<open>The four requests of the discovery.\<close>

definition att_requests :: "u16 \<Rightarrow> u16 \<Rightarrow> u16 \<Rightarrow> bytes list" where
  "att_requests st en cccd =
     [[ATT_OP_MTU_REQ, 0xFF, 0x00], [ATT_OP_READ_BY_GROUP_REQ, 0x01, 0x00, 0xFF, 0xFF, 0x00, 0x28],
      ATT_OP_READ_BY_TYPE_REQ # put_le16 st @ put_le16 en @ [0x03, 0x28],
      ATT_OP_WRITE_REQ # put_le16 cccd @ [0x01, 0x00]]"

lemma le16_request: "ucast (v AND 0xFF) = (ucast (v :: u16) :: byte)"
proof -
  have ff: "(0xFF :: u16) = mask 8" by (simp add: mask_eq_exp_minus_1)
  show ?thesis unfolding ff by (rule bit_word_eqI) (auto simp: bit_simps)
qed

lemma phase_gatt_completes:
  assumes "ready e (poll_ok d1 # poll_ok d2 # map poll_ok ds @ replicate 6 poll_silent @ poll_ok d3 # ps)
      (map (att_data (conn_handle s)) ([mtu_answer mtu, service_answer st en uuid] @ cs @ [w]) @ rs)"
    and "conn_handle s AND 0x0fff = conn_handle s" "length uuid \<le> 58" "length w \<le> 16"
    and "length ds = length cs" "sum_list ds \<le> 499000"
    and "\<forall>b \<in> set cs. b \<noteq> [] \<and> length b \<le> 64 \<and> hd b \<noteq> ATT_OP_ERROR_RSP"
  shows "\<exists>e'. phase_gatt j s e = (Inr (), served mtu st en cs s, e') \<and> ready e' ps rs \<and>
    acts e' = acts e @ map (att_out s) (att_requests st en (report_cccd (served mtu st en cs s)))"
proof -
  define s1 where "s1 = s\<lparr>att_mtu := mtu, state := STATE_ATT_READY\<rparr>"
  define s2 where "s2 = s1\<lparr>svc_start := st, svc_end := en\<rparr>"
  have h: "conn_handle s1 = conn_handle s" "conn_handle s2 = conn_handle s" "hci_fd s1 = hci_fd s"
    "hci_fd s2 = hci_fd s" "svc_start s2 = st" "svc_end s2 = en"
    by (simp_all add: s1_def s2_def)
  have s3: "(let s1 = choose_report cs s2
      in (if report_handle s1 = 0 then s1\<lparr>report_handle := 0x000E, report_cccd := 0x000F\<rparr> else s1)
           \<lparr>state := STATE_GATT_READY\<rparr>) = discovered mtu st en cs s"
    by (simp add: discovered_def s2_def s1_def)
  have o: "att_out s1 = att_out s" "att_out s2 = att_out s" "att_out (discovered mtu st en cs s) = att_out s"
    by (rule ext, simp add: att_out_def h discovered_link)+
  from mtu_exchange_completes [OF _ assms(2), where j = j] assms(1)
  obtain e1 where g1: "mtu_exchange j s e = (Inr (), s1, e1)" "acts e1 = acts e @ [att_out s [ATT_OP_MTU_REQ, 0xFF, 0x00]]"
    and r1: "ready e1 (poll_ok d2 # map poll_ok ds @ replicate 6 poll_silent @ poll_ok d3 # ps)
      (att_data (conn_handle s) (service_answer st en uuid) # map (att_data (conn_handle s)) (cs @ [w]) @ rs)"
    unfolding s1_def by fastforce
  from discover_services_completes [of e1 d2 _ s1 st en uuid _ j, unfolded h, OF r1 assms(2,3)]
  obtain e2 where g2: "discover_services j s1 e1 = (Inr (), s2, e2)"
      "acts e2 = acts e1 @ [att_out s [ATT_OP_READ_BY_GROUP_REQ, 0x01, 0x00, 0xFF, 0xFF, 0x00, 0x28]]"
    and r2: "ready e2 (map poll_ok ds @ replicate 6 poll_silent @ poll_ok d3 # ps)
      (map (att_data (conn_handle s)) cs @ att_data (conn_handle s) w # rs)"
    unfolding s2_def o by auto
  from discover_characteristics_completes [of e2 ds _ s2 cs _ j, unfolded h, OF r2 assms(5,6,2,7)]
  obtain e3 where g3: "discover_characteristics j s2 e2 = (Inr (), discovered mtu st en cs s, e3)"
      "acts e3 = acts e2 @ [att_out s (characteristics_request s2)]"
    and r3: "ready e3 (poll_ok d3 # ps) (att_data (conn_handle s) w # rs)"
    unfolding s3 o by blast
  from enable_cccd_completes [of e3 d3 ps "discovered mtu st en cs s" w rs j, unfolded discovered_link, OF r3 assms(2,4)]
  obtain e4 where g4: "enable_cccd j (discovered mtu st en cs s) e3 = (Inr (), served mtu st en cs s, e4)"
      "acts e4 = acts e3 @ [att_out s (cccd_request (discovered mtu st en cs s))]" and r4: "ready e4 ps rs"
    unfolding o served_def by blast
  have "acts e4 = acts e @ map (att_out s) (att_requests st en (report_cccd (served mtu st en cs s)))"
    using g1(2) g2(2) g3(2) g4(2) h
    by (simp add: att_requests_def characteristics_request_def cccd_request_def served_def put_le16_def le16_request)
  with g1(1) g2(1) g3(1) g4(1) r4 show ?thesis by (simp add: phase_gatt_def)
qed

section \<open>The report loop\<close>

text \<open>An ATT message that is an input report 0x09 of a characteristic.\<close>

definition input_report :: "u16 \<Rightarrow> bytes \<Rightarrow> bool" where
  "input_report h d \<longleftrightarrow> 4 \<le> length d \<and> d ! 0 = ATT_OP_HANDLE_NOTIFY \<and> get_le16 d 1 = h \<and> d ! 3 = 0x09"

definition disconnect_event :: "u16 \<Rightarrow> byte \<Rightarrow> bytes" where
  "disconnect_event h reason = event_packet EVT_DISCONN_COMPLETE ([0x00] @ put_le16 h @ [reason])"

lemma disconnect_event_bytes: "disconnect_event h reason = [0x04, 0x05, 4, 0x00] @ put_le16 h @ [reason]"
  by (simp add: disconnect_event_def event_packet_def)

lemma parse_disconnect:
  fixes f0 :: frame and h :: u16 and reason :: byte
  defines "f \<equiv> parse_frame (length (disconnect_event h reason))
                 (f0\<lparr>raw := overwrite (raw f0) (disconnect_event h reason)\<rparr>)"
  shows "pkt_type f = HCI_EVENT_PKT" "evt_code f = EVT_DISCONN_COMPLETE" "status f = reason"
  unfolding f_def disconnect_event_bytes
  by (simp_all add: parse_frame_def parse_event_def pl_byte_def overwrite_def put_le16_def Let_def)

lemma is_report_packet:
  fixes f0 :: frame
  assumes "length d \<le> 503" "conn_handle s AND 0x0fff = conn_handle s"
  defines "p \<equiv> acl_packet (conn_handle s) ATT_CID d (of_nat (length d))"
  shows "is_report s (parse_frame (length p) (f0\<lparr>raw := overwrite (raw f0) p\<rparr>)) = input_report (report_handle s) d"
    and "pkt_type (parse_frame (length p) (f0\<lparr>raw := overwrite (raw f0) p\<rparr>)) = HCI_ACLDATA_PKT"
proof -
  let ?f = "parse_frame (length p) (f0\<lparr>raw := overwrite (raw f0) p\<rparr>)"
  have u: "length d = unat (of_nat (length d) :: u16)" using assms(1) by (simp add: unat_of_nat_u16)
  note f = parse_acl_packet [OF u assms(2), of ATT_CID f0, folded p_def]
  show "pkt_type ?f = HCI_ACLDATA_PKT" by (rule f)
  have b: "pl_byte ?f i = d ! i" if "i < length d" for i
  proof -
    have e: "take (length d) (drop (payload ?f) (raw ?f)) = d" using f(8) by (simp add: pl_slice_def slice_def)
    from arg_cong [OF e, of length] that have "payload ?f \<le> length (raw ?f)" by simp
    moreover from that e have "drop (payload ?f) (raw ?f) ! i = d ! i" by (metis nth_take)
    ultimately show ?thesis by (simp add: pl_byte_def)
  qed
  show "is_report s ?f = input_report (report_handle s) d"
  proof (cases "4 \<le> length d")
    case True
    have "(of_nat (length d) :: u16) - 3 = of_nat (length d - 3)" using True by (simp add: of_nat_diff)
    moreover have "unat (of_nat (length d - 3) :: u16) = length d - 3"
      using assms(1) by (intro unat_of_nat_u16) simp
    ultimately have "(3 :: u16) \<le> of_nat (length d)" "(1 :: u16) \<le> of_nat (length d) - 3"
      using True u by (simp_all add: word_le_nat_alt)
    moreover have "pl_le16 ?f 1 = get_le16 d 1"
      using b [of 1] b [of 2] True by (simp add: pl_le16_def pl_byte_def get_le16_def numeral_2_eq_2)
    moreover have "pl_byte ?f 0 = d ! 0" by (rule b) (use True in auto)
    ultimately show ?thesis
      using f(1-3,6) b [of 3] True by (simp add: is_report_def input_report_def)
  next
    case False
    then have "length d \<le> 3" by simp
    then consider "length d < 3" | "length d = 3" by linarith
    then have "\<not> ((3 :: u16) \<le> of_nat (length d) \<and> (1 :: u16) \<le> of_nat (length d) - 3)"
      using u by cases (simp_all add: word_le_nat_alt)
    with f(6) False show ?thesis by (auto simp: is_report_def input_report_def)
  qed
qed

lemma read_att:
  assumes "ready e (poll_ok dt # ps) (att_data h d # rs)" "length d \<le> 503"
  defines "p \<equiv> acl_packet h ATT_CID d (of_nat (length d))"
  shows "hci_user_read_frame f t e =
    (1, parse_frame (length p) (f\<lparr>raw := overwrite (raw f) p\<rparr>), after_read dt False ps rs e)"
proof -
  have u: "length d = unat (of_nat (length d) :: u16)" using assms(2) by (simp add: unat_of_nat_u16)
  have l: "length p = 9 + length d" unfolding p_def by (rule length_acl_packet [OF u])
  have "p \<noteq> []" "length p \<le> 512" using l assms(2) by auto
  then show ?thesis
    using assms(1) unfolding p_def
    by (intro read_frame_ready) (simp_all add: ready_def poll_ok_def att_data_def)
qed

lemma report_loop_counts:
  assumes "ready e (map poll_ok ds @ poll_ok dl # ps)
      (map (att_data (conn_handle s)) nts @ R_data (disconnect_event h reason) # rs)"
    and "length ds = length nts" "\<forall>d \<in> set nts. length d \<le> 503" "length nts < fuel"
    and "state s = STATE_NOTIFICATIONS_ENABLED" "conn_handle s AND 0x0fff = conn_handle s"
  shows "\<exists>e'. report_loop fuel j s n e = Some (s\<lparr>last_disconnect_reason := reason\<rparr>,
      n + length (filter (input_report (report_handle s)) nts), e') \<and> ready e' ps rs \<and> acts e' = acts e"
  using assms
proof (induction nts arbitrary: ds e n fuel)
  case Nil
  then obtain fuel' where fuel: "fuel = Suc fuel'" by (cases fuel) auto
  let ?p = "disconnect_event h reason"
  have r: "ready e (poll_ok dl # ps) (R_data ?p # rs)" using Nil.prems(1,2) by simp
  have "hci_user_read_frame (jframe j) 1000 e =
      (1, parse_frame (length ?p) ((jframe j)\<lparr>raw := overwrite (raw (jframe j)) ?p\<rparr>), after_read dl False ps rs e)"
    by (rule read_frame_ready) (use r in \<open>simp_all add: ready_def poll_ok_def disconnect_event_bytes\<close>)
  then show ?case
    using r fuel Nil.prems(5) parse_disconnect ready_after_read [OF r] by (simp add: ready_def)
next
  case (Cons d nts)
  from Cons.prems(2) obtain dt ds' where ds: "ds = dt # ds'" by (cases ds) auto
  from Cons.prems(4) obtain fuel' where fuel: "fuel = Suc fuel'" by (cases fuel) auto
  let ?ps = "map poll_ok ds' @ poll_ok dl # ps"
  let ?rs = "map (att_data (conn_handle s)) nts @ R_data (disconnect_event h reason) # rs"
  let ?m = "if input_report (report_handle s) d then n + 1 else n"
  have r: "ready e (poll_ok dt # ?ps) (att_data (conn_handle s) d # ?rs)" using Cons.prems(1) ds by simp
  have d: "length d \<le> 503" using Cons.prems(3) by simp
  have "report_loop fuel j s n e = report_loop fuel' j s ?m (after_read dt False ?ps ?rs e)"
    using r fuel Cons.prems(5) read_att [OF r d] is_report_packet [OF d Cons.prems(6)]
    by (simp add: ready_def)
  with Cons.IH [OF ready_after_read [OF r], where fuel = fuel' and n = ?m] Cons.prems(2-6) ds fuel
  show ?case by (auto split: if_splits)
qed

section \<open>A peer that is silent\<close>

text \<open>When nothing is waiting any more, every wait runs to its deadline.\<close>

lemma read_nothing: "ready e [] [] \<Longrightarrow> hci_user_read_frame f t e = (0, f, e\<lparr>clock := clock e + 1000 * t\<rparr>)"
  by (simp add: hci_user_read_frame_def sys_poll_def ready_def)

lemma await_nothing_loop:
  "ready e [] [] \<Longrightarrow> \<exists>e'. rx_await_acl_loop ch d f out n s e = (-1, out, n, s, e') \<and> ready e' [] [] \<and>
     acts e' = acts e \<and> d \<le> now_ms e'"
proof (induction "nat (d - now_ms e)" arbitrary: e rule: less_induct)
  case less
  show ?case
  proof (cases "d \<le> now_ms e")
    case True
    with less.prems show ?thesis by (subst rx_await_acl_loop.simps) (auto simp: ready_def)
  next
    case False
    define t where "t = (if 500 < d - now_ms e then 500 else d - now_ms e)"
    let ?e1 = "e\<lparr>clock := clock e + 1000 * t\<rparr>"
    have t: "0 < t" using False by (auto simp: t_def)
    have n: "now_ms ?e1 = now_ms e + t" by (simp add: now_ms_def)
    have r: "ready ?e1 [] []" using less.prems by (simp add: ready_def)
    have "nat (d - now_ms ?e1) < nat (d - now_ms e)" using False t n by simp
    from less.hyps [OF this r] obtain e' where
      "rx_await_acl_loop ch d f out n s ?e1 = (-1, out, n, s, e')" "ready e' [] []" "acts e' = acts e" "d \<le> now_ms e'"
      by auto
    moreover have "running e" using less.prems by (simp add: ready_def)
    ultimately show ?thesis
      using False t read_nothing [OF less.prems, of f t] unfolding t_def
      by (subst rx_await_acl_loop.simps) (simp add: Let_def)
  qed
qed

lemma await_nothing:
  assumes "ready e [] []"
  obtains e' where "rx_await_acl junk ch out n t s e = (-1, out, n, s, e')" "ready e' [] []"
    "acts e' = acts e" "now_ms e + t \<le> now_ms e'"
  using await_nothing_loop [OF assms, of ch "now_ms e + t" junk out n s] unfolding rx_await_acl_def by blast

lemma discover_services_silent:
  assumes "ready e [] []"
  shows "\<exists>e'. discover_services j s e = (Inr (), s\<lparr>svc_start := 0x0001, svc_end := 0xFFFF\<rparr>, e') \<and> ready e' [] [] \<and>
    acts e' = acts e @ [att_out s [ATT_OP_READ_BY_GROUP_REQ, 0x01, 0x00, 0xFF, 0xFF, 0x00, 0x28]]"
proof -
  let ?q = "[ATT_OP_READ_BY_GROUP_REQ, 0x01, 0x00, 0xFF, 0xFF, 0x00, 0x28]"
  have w: "att_send s ?q 7 e = (0, act (att_out s ?q) e)" by (rule att_send_ready [OF assms]) simp_all
  have "ready (act (att_out s ?q) e) [] []" using assms by simp
  then obtain e' where "rx_await_acl (jframe j) ATT_CID (take 64 (jbuf j)) 64 3000 s (act (att_out s ?q) e) =
      (-1, take 64 (jbuf j), 64, s, e')" "ready e' [] []" "acts e' = acts (act (att_out s ?q) e)"
    by (rule await_nothing)
  with w show ?thesis by (simp add: discover_services_def)
qed

lemma discover_characteristics_silent:
  assumes "ready e [] []"
  shows "\<exists>e'. discover_characteristics j s e =
      (Inr (), (if report_handle s = 0 then s\<lparr>report_handle := 0x000E, report_cccd := 0x000F\<rparr> else s)
         \<lparr>state := STATE_GATT_READY\<rparr>, e') \<and> ready e' [] [] \<and>
    acts e' = acts e @ [att_out s (characteristics_request s)]"
proof -
  let ?e1 = "act (att_out s (characteristics_request s)) e"
  have w: "att_send s (characteristics_request s) 7 e = (0, ?e1)"
    by (rule att_send_ready [OF assms]) (simp_all add: characteristics_request_def)
  have r: "ready ?e1 [] []" using assms by simp
  obtain e2 where x: "rx_await_acl (jframe j) ATT_CID (take 64 (jbuf j)) 64 3000 s ?e1 =
      (-1, take 64 (jbuf j), 64, s, e2)" and r2: "ready e2 [] []" "acts e2 = acts ?e1" "now_ms ?e1 + 3000 \<le> now_ms e2"
    by (rule await_nothing [OF r])
  have "characteristics_loop j (now_ms ?e1 + 3000) s e2 = (Inr (), s, e2)"
    using r2(3) by (subst characteristics_loop.simps) simp
  with x r have "characteristics_loop j (now_ms ?e1 + 3000) s ?e1 = (Inr (), s, e2)"
    by (subst characteristics_loop.simps) (simp add: ready_def)
  with w r2 show ?thesis by (simp add: discover_characteristics_def)
qed

lemma enable_cccd_silent:
  assumes "ready e [] []"
  shows "\<exists>e'. enable_cccd j s e = (Inr (), s\<lparr>state := STATE_NOTIFICATIONS_ENABLED\<rparr>, e') \<and> ready e' [] [] \<and>
    acts e' = acts e @ [att_out s (cccd_request s)]"
proof -
  have w: "att_send s (cccd_request s) 5 e = (0, act (att_out s (cccd_request s)) e)"
    by (rule att_send_ready [OF assms]) (simp_all add: cccd_request_def)
  have "ready (act (att_out s (cccd_request s)) e) [] []" using assms by simp
  then obtain e' where "rx_await_acl (jframe j) ATT_CID (take 16 (jbuf j)) 16 2000 s (act (att_out s (cccd_request s)) e) =
      (-1, take 16 (jbuf j), 16, s, e')" "ready e' [] []" "acts e' = acts (act (att_out s (cccd_request s)) e)"
    by (rule await_nothing)
  with w show ?thesis by (simp add: enable_cccd_def)
qed

end
