(* ===== verification/Served.thy ===== *)
theory Served
  imports Gatt_Exchange
begin

text \<open>
  Whole sessions of \<^verbatim>\<open>sw2d_final.c\<close> against a controller that answers: one session is
  served from the connection to the disconnection, and a controller that comes back is
  served again.
\<close>

section \<open>A session that is served\<close>

text \<open>
  What a controller says in a session: the connection (handle and rest of the event), the
  pairing, the answers of the discovery, the messages it sends and the reason of the
  disconnection; and how long each frame takes.
\<close>

record talk =
  t_handle :: u16
  t_rest :: bytes
  t_pres :: bytes
  t_srand :: bytes
  t_mtu :: u16
  t_start :: u16
  t_end :: u16
  t_uuid :: bytes
  t_chars :: "bytes list"
  t_write :: bytes
  t_msgs :: "bytes list"
  t_reason :: byte
  t_link_times :: "nat list"
  t_char_times :: "nat list"
  t_msg_times :: "nat list"

definition talk_ok :: "talk \<Rightarrow> bool" where
  "talk_ok t \<longleftrightarrow> t_handle t AND 0x0fff = t_handle t \<and> length (t_rest t) = 15 \<and>
     length (t_pres t) = 7 \<and> hd (t_pres t) = SMP_OP_PAIRING_RSP \<and> length (t_srand t) = 16 \<and>
     length (t_uuid t) \<le> 58 \<and> length (t_write t) \<le> 16 \<and>
     (\<forall>b \<in> set (t_chars t). b \<noteq> [] \<and> length b \<le> 64 \<and> hd b \<noteq> ATT_OP_ERROR_RSP) \<and>
     (\<forall>d \<in> set (t_msgs t). length d \<le> 503) \<and>
     length (t_link_times t) = 7 \<and> length (t_char_times t) = length (t_chars t) \<and>
     sum_list (t_char_times t) \<le> 499000 \<and> length (t_msg_times t) = length (t_msgs t) + 2"

text \<open>
  The confirm value the daemon expects of the controller, and the frames in their order; the
  answers to the search for characteristics come within half a second, then the controller
  is silent until the search times out.
\<close>

definition talk_confirm :: "cipher \<Rightarrow> session \<Rightarrow> talk \<Rightarrow> bytes" where
  "talk_confirm c s t = smp_c1 c (smp_tk s) (t_srand t) pairing_preq (t_pres t)
     (peer_addr_type s) (peer_addr s) (local_addr_type s) (local_addr s)"

definition talk_answers :: "talk \<Rightarrow> bytes list" where
  "talk_answers t =
     [mtu_answer (t_mtu t), service_answer (t_start t) (t_end t) (t_uuid t)] @ t_chars t @ [t_write t]"

definition talk_reads :: "cipher \<Rightarrow> session \<Rightarrow> talk \<Rightarrow> read_ans list" where
  "talk_reads c s t =
     peer_script 0x01 (t_handle t) (t_rest t) (t_pres t) (talk_confirm c s t) (t_srand t) @
     map (att_data (t_handle t)) (talk_answers t @ t_msgs t) @
     [R_data (disconnect_event (t_handle t) (t_reason t))]"

definition talk_polls :: "talk \<Rightarrow> poll_ans list" where
  "talk_polls t = map poll_ok (t_link_times t) @ map poll_ok (t_char_times t) @
     replicate 6 poll_silent @ map poll_ok (t_msg_times t)"

text \<open>The handle whose notifications the session counts, and the reports among the messages.\<close>

definition talk_report_handle :: "session \<Rightarrow> talk \<Rightarrow> u16" where
  "talk_report_handle s t = (let v = chosen_handle (report_handle s) (t_chars t) in if v = 0 then 0x000E else v)"

definition talk_reports :: "session \<Rightarrow> talk \<Rightarrow> bytes list" where
  "talk_reports s t = filter (input_report (talk_report_handle s t)) (t_msgs t)"

text \<open>The handle of the descriptor follows that of the value, once there is one.\<close>

definition handles_agree :: "session \<Rightarrow> bool" where
  "handles_agree s \<longleftrightarrow> report_handle s = 0 \<or> report_cccd s = report_handle s + 1"

definition can_pair :: "session \<Rightarrow> bool" where
  "can_pair s \<longleftrightarrow> \<not> did_cancel s \<and> length (peer_addr s) = 6 \<and> length (local_addr s) = 6 \<and> handles_agree s"

text \<open>What a session leaves as it was: what the next one is paired with.\<close>

definition same_peer :: "session \<Rightarrow> session \<Rightarrow> bool" where
  "same_peer s s' \<longleftrightarrow> hci_fd s' = hci_fd s \<and> smp_tk s' = smp_tk s \<and>
     peer_addr_type s' = peer_addr_type s \<and> peer_addr s' = peer_addr s \<and>
     local_addr_type s' = local_addr_type s \<and> local_addr s' = local_addr s"

lemma talk_reads_same_peer: "same_peer s s' \<Longrightarrow> talk_reads c s' t = talk_reads c s t"
  by (simp add: same_peer_def talk_reads_def talk_confirm_def)

lemma choose_report_fields2:
  "same_peer s (choose_report cs s)" "did_cancel (choose_report cs s) = did_cancel s"
  "smp_stk (choose_report cs s) = smp_stk s" "smp_mrand (choose_report cs s) = smp_mrand s"
  by (induction cs arbitrary: s) (simp_all add: choose_report_def same_peer_def)

lemma choose_report_handles: "handles_agree s \<Longrightarrow> handles_agree (choose_report cs s)"
proof (induction cs arbitrary: s)
  case (Cons b cs)
  have "choose_report (b # cs) s = choose_report cs
      (if notifies b then s\<lparr>report_handle := get_le16 b 5, report_cccd := get_le16 b 5 + 1\<rparr> else s)"
    by (simp add: choose_report_def)
  with Cons show ?case by (simp add: handles_agree_def)
qed (simp add: choose_report_def)

lemma served_handles: "handles_agree p \<Longrightarrow> report_cccd (served mtu st en cs p) = report_handle (served mtu st en cs p) + 1"
  using choose_report_handles [of "p\<lparr>att_mtu := mtu, state := STATE_ATT_READY, svc_start := st, svc_end := en\<rparr>" cs]
  by (auto simp: served_def discovered_def handles_agree_def Let_def)

lemma served_same_peer:
  "same_peer s (served mtu st en cs (paired_session c s h pres mrand mconf sconf srand))"
  "\<not> did_cancel (served mtu st en cs (paired_session c s h pres mrand mconf sconf srand))"
  using choose_report_fields2 [where s = "(paired_session c s h pres mrand mconf sconf srand)
      \<lparr>att_mtu := mtu, state := STATE_ATT_READY, svc_start := st, svc_end := en\<rparr>" and cs = cs]
  by (simp_all add: served_def discovered_def same_peer_def paired_session_def Let_def)

lemma served_key:
  "smp_stk (served mtu st en cs p) = smp_stk p" "smp_mrand (served mtu st en cs p) = smp_mrand p"
  "smp_mconfirm (served mtu st en cs p) = smp_mconfirm p" "link_trace (served mtu st en cs p) = link_trace p"
proof -
  have c: "smp_mconfirm (choose_report cs p) = smp_mconfirm p" for p
    by (induction cs arbitrary: p) (simp_all add: choose_report_def)
  have q: "peer_addr_type (choose_report cs p) = peer_addr_type p" "peer_addr (choose_report cs p) = peer_addr p"
    "local_addr_type (choose_report cs p) = local_addr_type p" for p
    using choose_report_fields2(1) [of p cs] by (simp_all add: same_peer_def)
  show "smp_stk (served mtu st en cs p) = smp_stk p" "smp_mrand (served mtu st en cs p) = smp_mrand p"
    "smp_mconfirm (served mtu st en cs p) = smp_mconfirm p" "link_trace (served mtu st en cs p) = link_trace p"
    by (simp_all add: served_def discovered_def choose_report_fields2(2-4) choose_report_fields c q link_trace_def
        create_write_def le_create_conn_params_def smp_write_def start_write_def start_encryption_params_def Let_def)
qed

lemma filter_att_out: "length d \<le> 503 \<Longrightarrow> att_write (att_out s d)"
  using acl_packet_lens(3) [of "conn_handle s" ATT_CID d "of_nat (length d)" "[]"]
    length_acl_packet [of d "of_nat (length d)" "conn_handle s" ATT_CID]
  by (simp add: att_out_def acl_packet_type unat_of_nat_u16)

lemma att_requests_are_att: "filter att_write (map (att_out s) (att_requests st en c)) = map (att_out s) (att_requests st en c)"
  by (rule filter_True) (auto simp: att_requests_def put_le16_def intro!: filter_att_out)

text \<open>The confirm value of the daemon for its random value, and everything it does in a session.\<close>

definition talk_own_confirm :: "cipher \<Rightarrow> session \<Rightarrow> talk \<Rightarrow> bytes \<Rightarrow> bytes" where
  "talk_own_confirm c s t mrand = smp_c1 c (smp_tk s) mrand pairing_preq (t_pres t)
     (local_addr_type s) (local_addr s) (peer_addr_type s) (peer_addr s)"

definition session_trace :: "talk \<Rightarrow> session \<Rightarrow> action list" where
  "session_trace t s = link_trace s @ map (att_out s) (att_requests (t_start t) (t_end t) (report_cccd s))"

lemma session_setup_completes:
  assumes "block_cipher c" and "can_pair s" and "talk_ok t"
    and "ready e (map poll_ok (t_link_times t) @ map poll_ok (t_char_times t) @
             replicate 6 poll_silent @ poll_ok d # ps)
           (peer_script 0x01 (t_handle t) (t_rest t) (t_pres t) (talk_confirm c s t) (t_srand t) @
            map (att_data (t_handle t)) (talk_answers t) @ rs)"
  shows "\<exists>s1 e1. session_setup c j False s e = (Inr (), s1, e1) \<and> ready e1 ps rs \<and>
     state s1 = STATE_NOTIFICATIONS_ENABLED \<and> conn_handle s1 = t_handle t \<and> same_peer s s1 \<and> \<not> did_cancel s1 \<and>
     report_handle s1 = talk_report_handle s t \<and> report_cccd s1 = report_handle s1 + 1 \<and> length (smp_mrand s1) = 16 \<and>
     smp_mconfirm s1 = talk_own_confirm c s t (smp_mrand s1) \<and>
     smp_stk s1 = smp_s1 c (smp_tk s) (smp_mrand s1) (t_srand t) \<and> acts e1 = acts e @ session_trace t s1"
proof -
  let ?h = "t_handle t" and ?sc = "talk_confirm c s t" and ?cs = "t_chars t"
  have "length (t_link_times t) = 7" using assms(3) by (simp add: talk_ok_def)
  then obtain d1 d2 d3 d4 d5 d6 d7 where ls: "t_link_times t = [d1, d2, d3, d4, d5, d6, d7]"
    by (auto simp: numeral_eq_Suc length_Suc_conv)
  let ?ps = "poll_ok d6 # poll_ok d7 # map poll_ok (t_char_times t) @ replicate 6 poll_silent @ poll_ok d # ps"
  have r: "ready e (map (\<lambda>dt. Poll_ans dt False P_ready) [d1, d2, d3, d4, d5] @ ?ps)
           (peer_script 0x01 ?h (t_rest t) (t_pres t) ?sc (t_srand t) @
            (map (att_data ?h) (talk_answers t) @ rs))"
    using assms(4) by (simp add: poll_ok_def ls)
  have ok: "?h AND 0x0fff = ?h" "length (t_rest t) = 15" "length (t_pres t) = 7"
    "hd (t_pres t) = SMP_OP_PAIRING_RSP" "length (t_srand t) = 16" "length (t_uuid t) \<le> 58"
    "length (t_write t) \<le> 16" "length (t_char_times t) = length ?cs" "sum_list (t_char_times t) \<le> 499000"
    "\<forall>b \<in> set ?cs. b \<noteq> [] \<and> length b \<le> 64 \<and> hd b \<noteq> ATT_OP_ERROR_RSP"
    using assms(3) by (simp_all add: talk_ok_def)
  have s: "\<not> did_cancel s" "length (peer_addr s) = 6" "length (local_addr s) = 6" "handles_agree s"
    using assms(2) by (simp_all add: can_pair_def)
  from link_trace_completes [OF r s(1) ok(1-5) talk_confirm_def assms(1) s(2,3), of j] obtain mrand mconf e1 where
    l: "link_phases c j False s e = (Inr (), paired_session c s ?h (t_pres t) mrand mconf ?sc (t_srand t), e1)"
    and r1: "ready e1 ?ps (map (att_data ?h) (talk_answers t) @ rs)"
    and k: "length mrand = 16" "mconf = talk_own_confirm c s t mrand"
      "acts e1 = acts e @ link_trace (paired_session c s ?h (t_pres t) mrand mconf ?sc (t_srand t))"
    unfolding talk_own_confirm_def by blast
  define p where "p = paired_session c s ?h (t_pres t) mrand mconf ?sc (t_srand t)"
  define s1 where "s1 = served (t_mtu t) (t_start t) (t_end t) ?cs p"
  have h: "conn_handle p = ?h" "hci_fd p = hci_fd s" "report_handle p = report_handle s"
    by (simp_all add: p_def paired_session_def)
  from phase_gatt_completes [of e1 d6 d7 "t_char_times t" d ps p "t_mtu t" "t_start t" "t_end t" "t_uuid t"
      ?cs "t_write t" rs j, unfolded h, OF r1 [unfolded talk_answers_def] ok(1,6-10)]
  obtain e2 where g: "phase_gatt j p e1 = (Inr (), s1, e2)" "ready e2 ps rs"
    "acts e2 = acts e1 @ map (att_out p) (att_requests (t_start t) (t_end t) (report_cccd s1))"
    unfolding s1_def by blast
  have "att_out s1 = att_out p" by (rule ext) (simp add: att_out_def s1_def served_fields)
  with g(3) k(3) have "acts e2 = acts e @ session_trace t s1"
    by (simp add: session_trace_def s1_def served_key p_def)
  moreover have "session_setup c j False s e = (Inr (), s1, e2)"
    using l g(1) by (simp add: session_setup_def p_def)
  moreover have "report_handle s1 = talk_report_handle s t"
    by (simp add: s1_def served_fields h talk_report_handle_def)
  moreover have "report_cccd s1 = report_handle s1 + 1"
    unfolding s1_def by (rule served_handles) (use s(4) in \<open>simp add: p_def paired_session_def handles_agree_def\<close>)
  moreover have "same_peer s s1" "\<not> did_cancel s1" using served_same_peer by (simp_all add: s1_def p_def)
  moreover have "state s1 = STATE_NOTIFICATIONS_ENABLED" "conn_handle s1 = ?h"
    by (simp_all add: s1_def served_fields h)
  moreover have "length (smp_mrand s1) = 16" "smp_stk s1 = smp_s1 c (smp_tk s) (smp_mrand s1) (t_srand t)"
    "smp_mconfirm s1 = talk_own_confirm c s t (smp_mrand s1)"
    using k by (simp_all add: s1_def served_key) (simp_all add: p_def paired_session_def)
  ultimately show ?thesis using g(2) by blast
qed

text \<open>
  The whole session: it ends with the disconnection, and the next one can be paired.
\<close>

text \<open>The session \<open>s2\<close> was paired and subscribed in the talk \<open>t\<close>, starting from \<open>s\<close>.\<close>

definition served_as :: "cipher \<Rightarrow> session \<Rightarrow> talk \<Rightarrow> session \<Rightarrow> bool" where
  "served_as c s t s2 \<longleftrightarrow> same_peer s s2 \<and> conn_handle s2 = t_handle t \<and>
     report_cccd s2 = report_handle s2 + 1 \<and> length (smp_mrand s2) = 16 \<and>
     smp_mconfirm s2 = talk_own_confirm c s t (smp_mrand s2) \<and>
     smp_stk s2 = smp_s1 c (smp_tk s) (smp_mrand s2) (t_srand t)"

definition session_served :: "nat \<Rightarrow> cipher \<Rightarrow> stack \<Rightarrow> session \<Rightarrow> env \<Rightarrow> talk \<Rightarrow> session \<Rightarrow> env \<Rightarrow> bool" where
  "session_served fuel c j s e t s2 e2 \<longleftrightarrow>
     (\<exists>s1 e1. session_setup c j False s e = (Inr (), s1, e1) \<and>
       state s1 = STATE_NOTIFICATIONS_ENABLED \<and> report_handle s1 = talk_report_handle s t \<and>
       report_loop fuel j s1 0 e1 = Some (s2, length (talk_reports s t), e2) \<and>
       s2 = s1\<lparr>last_disconnect_reason := t_reason t\<rparr>) \<and>
     served_as c s t s2 \<and> acts e2 = acts e @ session_trace t s2"

lemma talk_is_served:
  assumes "block_cipher c" and "can_pair s" and "talk_ok t" and "length (t_msgs t) < fuel"
    and "ready e (talk_polls t @ ps) (talk_reads c s t @ rs)"
  obtains s2 e2 where "session_served fuel c j s e t s2 e2" "ready e2 ps rs" "same_peer s s2"
    "session_cycle fuel c j False s e = Some (s2\<lparr>did_cancel := False\<rparr>, e2)"
proof -
  from assms(3) obtain d es1 where es1: "t_msg_times t = d # es1" "length es1 = Suc (length (t_msgs t))"
    by (cases "t_msg_times t") (auto simp: talk_ok_def)
  then obtain es' dl where es': "es1 = es' @ [dl]" "length es' = length (t_msgs t)"
    by (cases es1 rule: rev_cases) auto
  let ?h = "t_handle t"
  have r: "ready e (map poll_ok (t_link_times t) @ map poll_ok (t_char_times t) @
             replicate 6 poll_silent @ poll_ok d # (map poll_ok es' @ poll_ok dl # ps))
           (peer_script 0x01 ?h (t_rest t) (t_pres t) (talk_confirm c s t) (t_srand t) @
            map (att_data ?h) (talk_answers t) @
            (map (att_data ?h) (t_msgs t) @ R_data (disconnect_event ?h (t_reason t)) # rs))"
    using assms(5) by (simp add: talk_polls_def talk_reads_def es1(1) es')
  have ok: "\<forall>d \<in> set (t_msgs t). length d \<le> 503" "?h AND 0x0fff = ?h" using assms(3) by (simp_all add: talk_ok_def)
  from session_setup_completes [OF assms(1-3) r, of j] obtain s1 e1 where
    u: "session_setup c j False s e = (Inr (), s1, e1)" "state s1 = STATE_NOTIFICATIONS_ENABLED"
      "conn_handle s1 = ?h" "report_handle s1 = talk_report_handle s t" "same_peer s s1" "\<not> did_cancel s1"
      "length (smp_mrand s1) = 16" "smp_stk s1 = smp_s1 c (smp_tk s) (smp_mrand s1) (t_srand t)"
      "smp_mconfirm s1 = talk_own_confirm c s t (smp_mrand s1)" "acts e1 = acts e @ session_trace t s1"
      "report_cccd s1 = report_handle s1 + 1"
    and r1: "ready e1 (map poll_ok es' @ poll_ok dl # ps)
        (map (att_data ?h) (t_msgs t) @ R_data (disconnect_event ?h (t_reason t)) # rs)"
    by blast
  define s2 where "s2 = s1\<lparr>last_disconnect_reason := t_reason t\<rparr>"
  from report_loop_counts [of e1 es' dl ps s1 "t_msgs t" ?h "t_reason t" rs fuel j 0, unfolded u(3),
      OF r1 es'(2) ok(1) assms(4) u(2) ok(2)]
  obtain e2 where l: "report_loop fuel j s1 0 e1 = Some (s2, length (talk_reports s t), e2)" "ready e2 ps rs"
    "acts e2 = acts e1" by (auto simp: talk_reports_def u(4) s2_def)
  have p: "same_peer s s2" using u(5) by (simp add: s2_def same_peer_def)
  moreover have "served_as c s t s2" using p u(3,7-9,11) by (simp add: served_as_def s2_def)
  moreover have "session_trace t s2 = session_trace t s1"
    by (simp add: session_trace_def link_trace_def create_write_def le_create_conn_params_def smp_write_def
        start_write_def start_encryption_params_def att_out_def s2_def fun_eq_iff)
  ultimately have "session_served fuel c j s e t s2 e2"
    using u l unfolding session_served_def s2_def by auto
  moreover have "session_cycle fuel c j False s e = Some (s2\<lparr>did_cancel := False\<rparr>, e2)"
    using u(1) l(1) by (simp add: session_cycle_def)
  ultimately show thesis using l(2) p that by blast
qed


text \<open>
  Two characteristics, of which the second notifies on handle 0x2A; one input report, one
  notification of another handle, and the reason 0x13.
\<close>

definition demo_talk :: talk where
  "demo_talk = \<lparr>t_handle = 0x40, t_rest = replicate 15 0, t_pres = demo_pres, t_srand = replicate 16 7,
     t_mtu = 185, t_start = 1, t_end = 0x2F, t_uuid = [0x91, 0x64],
     t_chars = [[0x09, 0x15, 0x10, 0x00, 0x02, 0x20, 0x00, 0xAA], [0x09, 0x15, 0x29, 0x00, 0x10, 0x2A, 0x00, 0xAB]],
     t_write = [ATT_OP_WRITE_RSP],
     t_msgs = [[0x1b, 0x2A, 0x00, 0x09, 0x01], [0x1b, 0x2C, 0x00, 0x09, 0x01]], t_reason = 0x13,
     t_link_times = replicate 7 1, t_char_times = [1, 1], t_msg_times = [1, 1, 1, 1]\<rparr>"

lemma demo_can_pair: "can_pair demo_session"
  by (simp add: can_pair_def handles_agree_def demo_session_def init_session_def)

lemma demo_talk_ok: "talk_ok demo_talk"
  by (simp add: talk_ok_def demo_talk_def demo_pres_def)

lemma demo_talk_reports:
  "talk_report_handle demo_session demo_talk = 0x2A" "length (talk_reports demo_session demo_talk) = 1"
proof -
  have "chosen_handle 0 (t_chars demo_talk) = 0x2A"
    by (simp add: chosen_handle_def demo_talk_def notifies_def get_le16_def)
  moreover have "report_handle demo_session = 0" by (simp add: demo_session_def init_session_def)
  ultimately show h: "talk_report_handle demo_session demo_talk = 0x2A" by (simp add: talk_report_handle_def)
  show "length (talk_reports demo_session demo_talk) = 1"
    unfolding talk_reports_def h by (simp add: demo_talk_def input_report_def get_le16_def)
qed


section \<open>A controller that comes back\<close>

text \<open>A signal at the first \<open>poll\<close> ends the last session before it is connected.\<close>

lemma session_cycle_signalled:
  assumes "ready e [Poll_ans dt True P_timeout] rs" and "can_pair s"
  shows "\<exists>s' e'. session_cycle fuel c j False s e = Some (s', e') \<and> \<not> running e' \<and>
    acts e' = acts e @ [create_write s]"
proof -
  let ?s0 = "s\<lparr>state := STATE_DISCONNECTED, conn_handle := 0, att_mtu := 0,
                 last_disconnect_reason := 0, did_cancel := True\<rparr>"
  have st: "session_start j s e = (?s0, e)"
    using assms(2) by (simp add: session_start_def can_pair_def Let_def)
  have cw: "create_write ?s0 = create_write s" by (simp add: create_write_def le_create_conn_params_def)
  let ?e1 = "act (create_write ?s0) e"
  have w: "le_create_conn ?s0 e = (0, ?e1)"
    unfolding create_write_def le_create_conn_def by (rule ready_send_cmd [OF assms(1)])
  have r1: "ready ?e1 [Poll_ans dt True P_timeout] rs" using assms(1) by simp
  define e2 where "e2 = ?e1\<lparr>polls := [], clock := clock ?e1 + int dt + 1000 * 500, running := False\<rparr>"
  have "hci_user_read_frame (jframe j) 500 ?e1 = (0, jframe j, e2)"
    using r1 by (simp add: hci_user_read_frame_def sys_poll_def ready_def e2_def Let_def)
  moreover have "rx_await_loop evt sub d f out s e2 = (-1, out, s, e2)" for evt sub d f out s
    by (subst rx_await_loop.simps) (simp add: e2_def)
  ultimately have "rx_await (jframe j) EVT_LE_META EVT_LE_CONN_COMPLETE None 10000 ?s0 ?e1 = (-1, None, ?s0, e2)"
    unfolding rx_await_def using r1 by (subst rx_await_loop.simps) (simp add: ready_def Let_def)
  with st w have "link_phases c j False s e = (Inl Reconnect, ?s0, e2)"
    by (simp add: link_phases_def phase_connect_def)
  then have "session_cycle fuel c j False s e = Some (?s0, e2)"
    by (simp add: session_cycle_def session_setup_def)
  then show ?thesis by (auto simp: e2_def cw)
qed

lemma sleep_ready: "ready e ps rs \<Longrightarrow> ready (sleep n e) ps rs"
  by (simp add: sleep_def ready_usleep)

text \<open>What the reconnect loop does for the sessions, with its pauses.\<close>

fun loop_trace :: "nat \<Rightarrow> talk list \<Rightarrow> session list \<Rightarrow> action list" where
  "loop_trace b (t # ts) (s # ss) = session_trace t s @ [A_sleep (1000000 * b)] @ loop_trace (next_backoff b) ts ss"
| "loop_trace b _ _ = []"

lemma served_as_same_peer: "same_peer s s' \<Longrightarrow> served_as c s' t s2 = served_as c s t s2"
  by (auto simp: served_as_def same_peer_def talk_own_confirm_def)

lemma reconnect_loop_round:
  assumes "block_cipher c" and "can_pair s" and "talk_ok t" and "length (t_msgs t) < Suc fuel"
    and "ready e (talk_polls t @ ps) (talk_reads c s t @ rs)"
  obtains s2 s3 e3 where
    "reconnect_loop (Suc fuel) c j False b s e = reconnect_loop fuel c j False (next_backoff b) s3 e3"
    "ready e3 ps rs" "served_as c s t s2" "same_peer s s3" "can_pair s3"
    "acts e3 = acts e @ session_trace t s2 @ [A_sleep (1000000 * b)]"
proof -
  from talk_is_served [OF assms, of j] obtain s2 e2 where
    v: "session_served (Suc fuel) c j s e t s2 e2" and r2: "ready e2 ps rs" and sp: "same_peer s s2"
    and cyc: "session_cycle (Suc fuel) c j False s e = Some (s2\<lparr>did_cancel := False\<rparr>, e2)" .
  define s3 where "s3 = s2\<lparr>did_cancel := False\<rparr>"
  have "reconnect_loop (Suc fuel) c j False b s e = reconnect_loop fuel c j False (next_backoff b) s3 (sleep b e2)"
    using cyc assms(5) r2 by (simp add: ready_def s3_def)
  moreover have "same_peer s s3" using sp by (simp add: s3_def same_peer_def)
  moreover have "can_pair s3"
    using v assms(2) by (simp add: s3_def session_served_def served_as_def same_peer_def can_pair_def handles_agree_def)
  moreover have "acts (sleep b e2) = acts e @ session_trace t s2 @ [A_sleep (1000000 * b)]"
    using v by (simp add: session_served_def sleep_def usleep_acts)
  moreover have "served_as c s t s2" using v by (simp add: session_served_def)
  ultimately show thesis using that sleep_ready [OF r2] by blast
qed

text \<open>
  A controller that comes back is served again: against a list of such sessions, each with its
  own connection handle, services and messages, the reconnect loop serves one after the other,
  whichever pause it starts with, and ends when the signal comes in the session after the last,
  when it has asked for one more connection. These are all its actions.
\<close>

theorem returning_controller_is_served:
  assumes "block_cipher c" and "can_pair s" and "\<forall>t \<in> set ts. talk_ok t \<and> length (t_msgs t) < k"
    and "ready e (concat (map talk_polls ts) @ [Poll_ans dt True P_timeout]) (concat (map (talk_reads c s) ts))"
    and "k + length ts \<le> fuel" "0 < fuel"
  shows "\<exists>e' ss. reconnect_loop fuel c j False backoff s e = Some e' \<and> \<not> running e' \<and>
     list_all2 (served_as c s) ts ss \<and> acts e' = acts e @ loop_trace backoff ts ss @ [create_write s]"
  using assms
proof (induction ts arbitrary: s e fuel backoff)
  case Nil
  then obtain fuel' where fuel: "fuel = Suc fuel'" by (cases fuel) auto
  from Nil.prems(4) have r: "ready e [Poll_ans dt True P_timeout] []" by simp
  from session_cycle_signalled [OF r Nil.prems(2)] obtain s' e' where
    "session_cycle fuel c j False s e = Some (s', e')" "\<not> running e'" "acts e' = acts e @ [create_write s]" by blast
  with r show ?case by (auto simp: fuel ready_def)
next
  case (Cons t ts)
  then obtain fuel' where fuel: "fuel = Suc fuel'" by (cases fuel) auto
  let ?ps = "concat (map talk_polls ts) @ [Poll_ans dt True P_timeout]"
  have t: "talk_ok t" "length (t_msgs t) < Suc fuel'" using Cons.prems(3,5) fuel by auto
  have r: "ready e (talk_polls t @ ?ps) (talk_reads c s t @ concat (map (talk_reads c s) ts))"
    using Cons.prems(4) by simp
  from reconnect_loop_round [OF assms(1) Cons.prems(2) t r, of j backoff] obtain s2 s3 e3 where
    l: "reconnect_loop fuel c j False backoff s e = reconnect_loop fuel' c j False (next_backoff backoff) s3 e3"
    and r3: "ready e3 ?ps (concat (map (talk_reads c s) ts))" and v: "served_as c s t s2"
    and sp: "same_peer s s3" and cp: "can_pair s3"
    and a: "acts e3 = acts e @ session_trace t s2 @ [A_sleep (1000000 * backoff)]"
    unfolding fuel .
  have ok: "\<forall>t \<in> set ts. talk_ok t \<and> length (t_msgs t) < k" "k + length ts \<le> fuel'" "0 < fuel'"
    using Cons.prems(3,5) by (auto simp: fuel)
  have tr: "talk_reads c s3 = talk_reads c s" by (rule ext) (rule talk_reads_same_peer [OF sp])
  have sv: "served_as c s3 = served_as c s" by (intro ext) (rule served_as_same_peer [OF sp])
  have cw: "create_write s3 = create_write s" using sp by (simp add: create_write_def le_create_conn_params_def same_peer_def)
  from Cons.IH [OF assms(1) cp ok(1) _ ok(2,3), of e3 "next_backoff backoff"] r3 obtain e' ss where
    u: "reconnect_loop fuel' c j False (next_backoff backoff) s3 e3 = Some e'" "\<not> running e'"
      "list_all2 (served_as c s) ts ss" "acts e' = acts e3 @ loop_trace (next_backoff backoff) ts ss @ [create_write s]"
    unfolding tr sv cw by blast
  from l u a v show ?case by (intro exI [of _ e'] exI [of _ "s2 # ss"]) simp
qed

theorem returning_controller_is_served_witness:
  "\<exists>e' s1 s2. reconnect_loop 5 pad_cipher demo_stack False 1 demo_session
       (quiet_env\<lparr>polls := talk_polls demo_talk @ talk_polls demo_talk @ [Poll_ans 1 True P_timeout],
          reads := talk_reads pad_cipher demo_session demo_talk @
            talk_reads pad_cipher demo_session (demo_talk\<lparr>t_handle := 0x41\<rparr>)\<rparr>) = Some e' \<and>
     acts e' = session_trace demo_talk s1 @ [A_sleep 1000000] @
       session_trace (demo_talk\<lparr>t_handle := 0x41\<rparr>) s2 @ [A_sleep 2000000, create_write demo_session]"
proof -
  let ?t = "demo_talk\<lparr>t_handle := 0x41\<rparr>"
  let ?e = "quiet_env\<lparr>polls := talk_polls demo_talk @ talk_polls demo_talk @ [Poll_ans 1 True P_timeout],
      reads := talk_reads pad_cipher demo_session demo_talk @ talk_reads pad_cipher demo_session ?t\<rparr>"
  have ok: "\<forall>t \<in> set [demo_talk, ?t]. talk_ok t \<and> length (t_msgs t) < 3"
    using demo_talk_ok by (simp add: talk_ok_def) (simp add: demo_talk_def)
  have "talk_polls ?t = talk_polls demo_talk" by (simp add: talk_polls_def)
  then have r: "ready ?e (concat (map talk_polls [demo_talk, ?t]) @ [Poll_ans 1 True P_timeout])
      (concat (map (talk_reads pad_cipher demo_session) [demo_talk, ?t]))"
    by (simp add: ready_def quiet_env_def)
  from returning_controller_is_served [OF block_cipher_pad demo_can_pair ok r, of 5 demo_stack 1]
  obtain e' ss where u: "reconnect_loop 5 pad_cipher demo_stack False 1 demo_session ?e = Some e'"
    "list_all2 (served_as pad_cipher demo_session) [demo_talk, ?t] ss"
    "acts e' = acts ?e @ loop_trace 1 [demo_talk, ?t] ss @ [create_write demo_session]" by force
  from u(2) obtain s1 s2 where "ss = [s1, s2]" by (auto simp: list_all2_Cons1)
  with u(3) have "acts e' = session_trace demo_talk s1 @ [A_sleep 1000000] @
       session_trace ?t s2 @ [A_sleep 2000000, create_write demo_session]"
    by (simp add: quiet_env_def next_backoff_def)
  with u(1) show ?thesis by blast
qed

end
