(* ===== verification/Discovery.thy ===== *)
theory Discovery
  imports Gatt_Exchange
begin

text \<open>
  The scan of \<^verbatim>\<open>sw2d_final.c\<close> against the advertising events of a controller: the
  parser of an event with several reports, the scan loop and \<^verbatim>\<open>scan_for_peer_user\<close> select
  the first report whose data names a Switch 2 Pro controller.
\<close>

section \<open>Advertising events\<close>

text \<open>A report: event type, address type, address, advertising data as elements, RSSI.\<close>

type_synonym adv_report = "byte \<times> byte \<times> bytes \<times> (byte \<times> bytes) list \<times> byte"

definition report_bytes :: "adv_report \<Rightarrow> bytes" where
  "report_bytes = (\<lambda>(t, at, addr, els, rssi). [t, at] @ addr @ [of_nat (length (tlv els))] @ tlv els @ [rssi])"

definition report_ok :: "adv_report \<Rightarrow> bool" where
  "report_ok = (\<lambda>(t, at, addr, els, rssi). length addr = 6 \<and> length (tlv els) < 256)"

text \<open>The address and its type, where the data names the controller.\<close>

definition controller_of :: "adv_report \<Rightarrow> (bytes \<times> byte) option" where
  "controller_of = (\<lambda>(t, at, addr, els, rssi). if switch2_advertiser els then Some (addr, at) else None)"

fun first_controller :: "adv_report list \<Rightarrow> (bytes \<times> byte) option" where
  "first_controller [] = None"
| "first_controller (r # reps) = (case controller_of r of Some x \<Rightarrow> Some x | None \<Rightarrow> first_controller reps)"

lemma first_controller_append:
  "first_controller (xs @ ys) = (case first_controller xs of Some x \<Rightarrow> Some x | None \<Rightarrow> first_controller ys)"
  by (induction xs) (auto split: option.splits)

lemma length_report_bytes: "report_ok r \<Longrightarrow> length (report_bytes r) = 10 + length (tlv (fst (snd (snd (snd r)))))"
  by (auto simp: report_ok_def report_bytes_def split: prod.splits)

lemma scan_reports_list:
  assumes "raw f = pre @ concat (map report_bytes reps) @ post" and "length pre = payload f + off"
    and "list_all report_ok reps" "nrep = ri + length reps"
  shows "scan_reports f (off + length (concat (map report_bytes reps))) nrep ri off = first_controller reps"
  using assms
proof (induction reps arbitrary: pre ri off)
  case Nil
  then show ?case by (subst scan_reports.simps) simp
next
  case (Cons r reps)
  obtain t at addr els rssi where r: "r = (t, at, addr, els, rssi)" by (metis prod_cases5)
  define n where "n = length (tlv els)"
  let ?rest = "concat (map report_bytes reps)"
  have ok: "length addr = 6" "n < 256" using Cons.prems(3) by (simp_all add: r report_ok_def n_def)
  then have u: "unat (of_nat n :: byte) = n" by (simp add: unat_of_nat_byte)
  have raw: "raw f = pre @ [t, at] @ addr @ [of_nat n] @ tlv els @ [rssi] @ ?rest @ post"
    using Cons.prems(1) by (simp add: r report_bytes_def n_def)
  have l: "length (report_bytes r) = 10 + n" using ok by (simp add: r report_bytes_def n_def)
  have b: "pl_byte f (off + 1) = at" "pl_byte f (off + 8) = of_nat n"
    using Cons.prems(2) ok(1) by (simp_all add: pl_byte_def raw nth_append add.assoc [symmetric])
  have sl: "pl_slice f (off + 2) 6 = addr"
    using Cons.prems(2) ok(1) by (simp add: pl_slice_def slice_def raw)
  have d: "drop (payload f + off + 9) (raw f) = tlv els @ [rssi] @ ?rest @ post"
    using Cons.prems(2) ok(1) by (simp add: raw)
  have a: "adv_data_has_switch2_pro (drop (payload f + off + 9) (raw f)) (of_nat n) =
      (if switch2_advertiser els then Some (0x0553, 0x057E, 0x2069) else None)"
    unfolding d n_def by (rule adv_data_spec) (use ok(2) in \<open>simp add: n_def\<close>)
  have "scan_reports f (off + (10 + n) + length ?rest) nrep (ri + 1) (off + (10 + n)) = first_controller reps"
    by (rule Cons.IH [of "pre @ report_bytes r"]) (use Cons.prems l in simp_all)
  then show ?case
    using b sl a u l Cons.prems(4)
    by (subst scan_reports.simps) (simp add: Let_def r controller_of_def add.assoc)
qed

definition adv_event :: "adv_report list \<Rightarrow> bytes" where
  "adv_event reps = event_packet EVT_LE_META
     ([EVT_LE_ADV_REPORT, of_nat (length reps)] @ concat (map report_bytes reps))"

definition adv_event_ok :: "adv_report list \<Rightarrow> bool" where
  "adv_event_ok reps \<longleftrightarrow> reps \<noteq> [] \<and> list_all report_ok reps \<and> length (concat (map report_bytes reps)) \<le> 253"

lemma adv_event_count: "list_all report_ok reps \<Longrightarrow> 10 * length reps \<le> length (concat (map report_bytes reps))"
  by (induction reps) (auto simp: length_report_bytes)

lemma scan_adv_event:
  fixes f0 :: frame
  assumes "adv_event_ok reps"
  shows "scan_frame (parse_frame (length (adv_event reps)) (f0\<lparr>raw := overwrite (raw f0) (adv_event reps)\<rparr>)) =
    first_controller reps"
proof -
  let ?b = "concat (map report_bytes reps)"
  let ?p = "adv_event reps"
  define f where "f = parse_frame (length ?p) (f0\<lparr>raw := overwrite (raw f0) ?p\<rparr>)"
  define m where "m = 2 + length ?b"
  have m: "12 \<le> m" "m \<le> 255"
    using assms adv_event_count [of reps] by (cases reps; simp add: adv_event_ok_def m_def)+
  then have u: "unat (of_nat m :: byte) = m" by (intro unat_of_nat_byte) simp
  have c: "unat (of_nat (length reps) :: byte) = length reps"
    using assms adv_event_count [of reps] m by (intro unat_of_nat_byte) (simp add: adv_event_ok_def m_def)
  have p: "?p = [0x04, 0x3e, of_nat m, 0x02, of_nat (length reps)] @ ?b"
    by (simp add: adv_event_def event_packet_def m_def)
  have lp: "length ?p = 3 + m" by (simp add: p m_def)
  have r16: "unat (of_nat m :: u16) = m" using m by (intro unat_of_nat_u16) simp
  have pl: "unat (ucast (of_nat m :: byte) :: u16) = m" using u by simp
  have two: "(2 :: u16) \<le> ucast (of_nat m :: byte)" using pl m by (simp add: word_le_nat_alt)
  have f: "pkt_type f = HCI_EVENT_PKT" "evt_code f = EVT_LE_META" "subevent f = EVT_LE_ADV_REPORT"
    "payload f = 3" "payload_len f = ucast (of_nat m :: byte)" "raw f = overwrite (raw f0) ?p"
    "raw_len f = of_nat (3 + m)"
    unfolding f_def lp using m two
    by (simp_all add: parse_frame_def parse_event_def pl_byte_def overwrite_def p Let_def)
  have n: "pl_byte f 1 = of_nat (length reps)" by (simp add: pl_byte_def f overwrite_def p)
  have plf: "unat (payload_len f) = m" "\<not> payload_len f < 3" using pl f m by (simp_all add: word_less_nat_alt)
  have "scan_reports f m (unat (pl_byte f 1)) 0 2 = first_controller reps"
    unfolding m_def by (rule scan_reports_list [of _ "[0x04, 0x3e, of_nat m, 0x02, of_nat (length reps)]"])
      (use assms n c f in \<open>simp_all add: adv_event_ok_def overwrite_def p\<close>)
  moreover have "\<not> (raw_len f - 3 < payload_len f)"
    using pl f r16 by (simp add: word_less_nat_alt)
  ultimately have "scan_frame f = first_controller reps"
    using f(1-3) plf by (simp add: scan_frame_def)
  then show ?thesis by (simp add: f_def)
qed

section \<open>The scan\<close>

lemma scan_loop_nothing:
  "ready e [] [] \<Longrightarrow> \<exists>e'. scan_loop d junk e = (None, e') \<and> ready e' [] [] \<and> acts e' = acts e"
proof (induction "nat (d - now_ms e)" arbitrary: e rule: less_induct)
  case less
  show ?case
  proof (cases "now_ms e < d")
    case False
    with less.prems show ?thesis by (subst scan_loop.simps) simp
  next
    case True
    define t where "t = (if 500 < d - now_ms e then 500 else d - now_ms e)"
    let ?e1 = "e\<lparr>clock := clock e + 1000 * t\<rparr>"
    have n: "now_ms ?e1 = now_ms e + t" "0 < t" using True by (auto simp: now_ms_def t_def)
    have "nat (d - now_ms ?e1) < nat (d - now_ms e)" "ready ?e1 [] []"
      using True n less.prems by (simp_all add: ready_def)
    from less.hyps [OF this] obtain e' where
      "scan_loop d junk ?e1 = (None, e')" "ready e' [] []" "acts e' = acts e" by auto
    moreover have "running e" using less.prems by (simp add: ready_def)
    ultimately show ?thesis
      using True read_nothing [OF less.prems, of junk t] unfolding t_def
      by (subst scan_loop.simps) (simp add: Let_def)
  qed
qed

lemma adv_event_nonempty: "adv_event_ok reps \<Longrightarrow> adv_event reps \<noteq> [] \<and> length (adv_event reps) \<le> 512"
  by (simp add: adv_event_def event_packet_def adv_event_ok_def)

lemma scan_loop_selects:
  assumes "ready e (map poll_ok ds) (map (\<lambda>reps. R_data (adv_event reps)) evs)"
    and "length ds = length evs" "\<forall>reps \<in> set evs. adv_event_ok reps"
    and "clock e + int (sum_list ds) < 1000 * d"
  shows "\<exists>e' ps rs. scan_loop d junk e = (first_controller (concat evs), e') \<and> ready e' ps rs \<and> acts e' = acts e"
  using assms
proof (induction evs arbitrary: ds e)
  case Nil
  then have "ready e [] []" by simp
  from scan_loop_nothing [OF this, of d junk] show ?case by auto
next
  case (Cons reps evs)
  from Cons.prems(2) obtain dt ds' where ds: "ds = dt # ds'" by (cases ds) auto
  let ?p = "adv_event reps"
  let ?ps = "map poll_ok ds'" and ?rs = "map (\<lambda>reps. R_data (adv_event reps)) evs"
  let ?e1 = "after_read dt False ?ps ?rs e"
  let ?f = "parse_frame (length ?p) (junk\<lparr>raw := overwrite (raw junk) ?p\<rparr>)"
  have r: "ready e (poll_ok dt # ?ps) (R_data ?p # ?rs)" using Cons.prems(1) ds by simp
  have ok: "adv_event_ok reps" using Cons.prems(3) by simp
  have "now_ms e < d" using Cons.prems(4) by (simp add: now_ms_def)
  moreover have "hci_user_read_frame junk t e = (1, ?f, ?e1)" for t
    by (rule read_frame_ready) (use r adv_event_nonempty [OF ok] in \<open>simp_all add: ready_def poll_ok_def\<close>)
  ultimately have step: "scan_loop d junk e =
      (case first_controller reps of Some x \<Rightarrow> (Some x, ?e1) | None \<Rightarrow> scan_loop d junk ?e1)"
    using r scan_adv_event [OF ok, of junk] by (subst scan_loop.simps) (simp add: ready_def split: option.split)
  show ?case
  proof (cases "first_controller reps")
    case None
    with step Cons.IH [OF ready_after_read [OF r]] Cons.prems(2-4) ds show ?thesis
      by (simp add: first_controller_append)
  next
    case (Some x)
    with step ready_after_read [OF r, of dt ?ps ?rs] show ?thesis
      by (auto simp: first_controller_append)
  qed
qed

text \<open>
  The parameters of LE Set Scan Parameters as a controller reads them: scan type, interval,
  window, own address type, filter policy.
\<close>

definition scan_parameters :: "bytes \<Rightarrow> byte \<times> u16 \<times> u16 \<times> byte \<times> byte" where
  "scan_parameters p = (p ! 0, get_le16 p 1, get_le16 p 3, p ! 5, p ! 6)"

text \<open>
  C12. The scan finds the controller: of the advertising events that arrive before the
  deadline, each with any number of reports of any advertisers, it selects address and type
  of the first report whose data names a Switch 2 Pro controller, or nothing if there is
  none; it writes the scan parameters, the enable and the disable command, in this order,
  and nothing else. But the parameters are laid out without regard to the command: a
  controller reads a scan type of 0x10 (reserved), an interval of 0x1000 and a window of 0.
\<close>

theorem scan_selects_controller:
  assumes "ready e (map poll_ok ds) (map (\<lambda>reps. R_data (adv_event reps)) evs)"
    and "length ds = length evs" "\<forall>reps \<in> set evs. adv_event_ok reps"
    and "int (sum_list ds) + 1000 \<le> 1000 * t"
  shows "\<exists>e' ps. scan_for_peer_user fd own t junk e = (first_controller (concat evs), e') \<and>
     acts e' = acts e @ [A_write fd (cmd_packet OGF_LE_CTL OCF_LE_SET_SCAN_PARAMS (Some ps) 7),
       A_write fd (cmd_packet OGF_LE_CTL OCF_LE_SET_SCAN_ENABLE (Some [0x01, 0x00]) 2),
       A_write fd (cmd_packet OGF_LE_CTL OCF_LE_SET_SCAN_ENABLE (Some [0x00, 0x00]) 2)] \<and>
     scan_parameters ps = (0x10, 0x1000, 0, own, 0)"
proof -
  define ps where "ps = put_le16 0x0010 @ put_le16 0x0010 @ [0x00, own, 0x00]"
  define e1 where "e1 = act (A_write fd (cmd_packet OGF_LE_CTL OCF_LE_SET_SCAN_PARAMS (Some ps) 7)) e"
  define e2 where "e2 = act (A_write fd (cmd_packet OGF_LE_CTL OCF_LE_SET_SCAN_ENABLE (Some [0x01, 0x00]) 2)) e1"
  have r1: "ready e1 (map poll_ok ds) (map (\<lambda>reps. R_data (adv_event reps)) evs)"
    using assms(1) by (simp add: e1_def)
  then have r2: "ready e2 (map poll_ok ds) (map (\<lambda>reps. R_data (adv_event reps)) evs)" by (simp add: e2_def)
  have w1: "hci_user_send_cmd fd OGF_LE_CTL OCF_LE_SET_SCAN_PARAMS (Some ps) 7 e = (0, e1)"
    unfolding e1_def by (rule ready_send_cmd [OF assms(1)])
  have w2: "hci_user_send_cmd fd OGF_LE_CTL OCF_LE_SET_SCAN_ENABLE (Some [0x01, 0x00]) 2 e1 = (0, e2)"
    unfolding e2_def by (rule ready_send_cmd [OF r1])
  have "clock e2 < 1000 * now_ms e2 + 1000" by (simp add: now_ms_def)
  with assms(4) have "clock e2 + int (sum_list ds) < 1000 * (now_ms e2 + t)" by simp
  from scan_loop_selects [OF r2 assms(2,3) this, of junk] obtain e3 qs rs where
    s: "scan_loop (now_ms e2 + t) junk e2 = (first_controller (concat evs), e3)" "ready e3 qs rs" "acts e3 = acts e2"
    by blast
  have w3: "hci_user_send_cmd fd OGF_LE_CTL OCF_LE_SET_SCAN_ENABLE (Some [0x00, 0x00]) 2 e3 =
      (0, act (A_write fd (cmd_packet OGF_LE_CTL OCF_LE_SET_SCAN_ENABLE (Some [0x00, 0x00]) 2)) e3)"
    by (rule ready_send_cmd [OF s(2)])
  have "scan_for_peer_user fd own t junk e = (first_controller (concat evs),
      act (A_write fd (cmd_packet OGF_LE_CTL OCF_LE_SET_SCAN_ENABLE (Some [0x00, 0x00]) 2)) e3)"
    using w1 w2 w3 s(1) by (simp add: scan_for_peer_user_def flip: ps_def)
  moreover have "scan_parameters ps = (0x10, 0x1000, 0, own, 0)"
    by (simp add: scan_parameters_def ps_def put_le16_def get_le16_def)
  ultimately show ?thesis using s(3) by (auto simp: e1_def e2_def)
qed

text \<open>Two events; the controller is the second report of the second one.\<close>

definition demo_adverts :: "adv_report list list" where
  "demo_adverts =
     [[(0, 0, [9, 9, 9, 9, 9, 9], [(0x01, [0x06])], 0xC0)],
      [(0, 1, [8, 8, 8, 8, 8, 8], [(0xFF, [0x4C, 0x00, 1, 2, 3, 4, 5])], 0xC0),
       (0, 1, [1, 2, 3, 4, 5, 0xC6], [(0x01, [0x06]), (0xFF, [0x53, 0x05, 1, 0, 3, 0x7E, 0x05, 0x69, 0x20])], 0xB0)]]"

theorem scan_selects_controller_witness:
  "\<exists>e'. scan_for_peer_user 3 0 20000 zero_frame
     (quiet_env\<lparr>polls := [poll_ok 1000, poll_ok 1000], reads := map (\<lambda>reps. R_data (adv_event reps)) demo_adverts\<rparr>)
     = (Some ([1, 2, 3, 4, 5, 0xC6], 1), e') \<and> length (acts e') = 3"
proof -
  let ?e = "quiet_env\<lparr>polls := [poll_ok 1000, poll_ok 1000], reads := map (\<lambda>reps. R_data (adv_event reps)) demo_adverts\<rparr>"
  have r: "ready ?e (map poll_ok [1000, 1000]) (map (\<lambda>reps. R_data (adv_event reps)) demo_adverts)"
    by (simp add: ready_def quiet_env_def)
  have l: "length [1000, 1000 :: nat] = length demo_adverts" by (simp add: demo_adverts_def)
  have ok: "\<forall>reps \<in> set demo_adverts. adv_event_ok reps"
    by (simp add: demo_adverts_def adv_event_ok_def report_ok_def report_bytes_def tlv_def)
  have f: "first_controller (concat demo_adverts) = Some ([1, 2, 3, 4, 5, 0xC6], 1)" by code_simp
  from scan_selects_controller [OF r l ok, of 20000 3 0 zero_frame] f show ?thesis
    by (auto simp: quiet_env_def)
qed

end
