(* ===== verification/Whole_Daemon.thy ===== *)
theory Whole_Daemon
  imports Served Discovery
begin

text \<open>
  The daemon \<^verbatim>\<open>sw2d_final\<close> from its command line to its exit: opening the channel,
  initialising the controller, the scan and the sessions, put together from the theorems on
  its parts.
\<close>

section \<open>The scan with a controller that answers commands\<close>

text \<open>What arrives during the scan: events of another kind, or advertising reports.\<close>

datatype heard = Other_event byte bytes | Adverts "adv_report list"

fun heard_packet :: "heard \<Rightarrow> bytes" where
  "heard_packet (Other_event code ps) = event_packet code ps"
| "heard_packet (Adverts reps) = adv_event reps"

fun heard_ok :: "heard \<Rightarrow> bool" where
  "heard_ok (Other_event code ps) \<longleftrightarrow> code \<noteq> EVT_LE_META \<and> length ps < 256"
| "heard_ok (Adverts reps) \<longleftrightarrow> adv_event_ok reps"

fun heard_controller :: "heard \<Rightarrow> (bytes \<times> byte) option" where
  "heard_controller (Other_event code ps) = None"
| "heard_controller (Adverts reps) = first_controller reps"

lemma evt_code_parse_frame:
  "3 \<le> n \<Longrightarrow> raw f ! 0 = HCI_EVENT_PKT \<Longrightarrow> evt_code (parse_frame n f) = raw f ! 1"
  by (simp add: parse_frame_def parse_event_def Let_def)

lemma scan_heard:
  assumes "heard_ok x"
  shows "scan_frame (parse_frame (length (heard_packet x)) (f\<lparr>raw := overwrite (raw f) (heard_packet x)\<rparr>)) =
    heard_controller x"
proof (cases x)
  case (Other_event code ps)
  with assms have "evt_code (parse_frame (length (heard_packet x)) (f\<lparr>raw := overwrite (raw f) (heard_packet x)\<rparr>)) \<noteq> EVT_LE_META"
    by (subst evt_code_parse_frame) (simp_all add: event_packet_def overwrite_def)
  then show ?thesis using Other_event by (simp add: scan_frame_def)
next
  case (Adverts reps)
  with assms show ?thesis by (simp add: scan_adv_event)
qed

lemma heard_packet_nonempty: "heard_ok x \<Longrightarrow> heard_packet x \<noteq> [] \<and> length (heard_packet x) \<le> 512"
  by (cases x) (auto simp: event_packet_def dest: adv_event_nonempty)

definition heard_reads :: "heard list \<Rightarrow> read_ans list" where
  "heard_reads hs = map (\<lambda>x. R_data (heard_packet x)) hs"

lemma scan_loop_step:
  assumes "ready e (poll_ok dt # ps) (R_data (heard_packet x) # rs)" and "heard_ok x" and "clock e < 1000 * d"
  shows "scan_loop d junk e =
    (case heard_controller x of Some peer \<Rightarrow> (Some peer, after_read dt False ps rs e)
     | None \<Rightarrow> scan_loop d junk (after_read dt False ps rs e))"
proof -
  let ?p = "heard_packet x"
  have "now_ms e < d" using assms(3) by (simp add: now_ms_def)
  moreover have "hci_user_read_frame junk t e =
      (1, parse_frame (length ?p) (junk\<lparr>raw := overwrite (raw junk) ?p\<rparr>), after_read dt False ps rs e)" for t
    by (rule read_frame_ready) (use assms(1) heard_packet_nonempty [OF assms(2)] in \<open>simp_all add: ready_def poll_ok_def\<close>)
  ultimately show ?thesis
    using assms(1) scan_heard [OF assms(2), of junk]
    by (subst scan_loop.simps) (simp add: ready_def split: option.split)
qed

lemma scan_loop_finds:
  assumes "ready e (map poll_ok ds @ ps) (heard_reads (hs @ [x]) @ rs)"
    and "length ds = Suc (length hs)" "list_all heard_ok (hs @ [x])"
    and "list_all (\<lambda>y. heard_controller y = None) hs" "heard_controller x = Some peer"
    and "clock e + int (sum_list ds) < 1000 * d"
  shows "\<exists>e'. scan_loop d junk e = (Some peer, e') \<and> ready e' ps rs \<and> acts e' = acts e"
  using assms
proof (induction hs arbitrary: ds e)
  case Nil
  from Nil.prems(2) obtain dt where ds: "ds = [dt]" by (cases ds) auto
  have r: "ready e (poll_ok dt # ps) (R_data (heard_packet x) # rs)"
    using Nil.prems(1) ds by (simp add: heard_reads_def)
  with Nil.prems(3,5,6) ready_after_read [OF r, of dt ps rs] show ?case
    by (simp add: scan_loop_step [OF r])
next
  case (Cons y hs)
  from Cons.prems(2) obtain dt ds' where ds: "ds = dt # ds'" by (cases ds) auto
  let ?ps = "map poll_ok ds' @ ps" and ?rs = "heard_reads (hs @ [x]) @ rs"
  have r: "ready e (poll_ok dt # ?ps) (R_data (heard_packet y) # ?rs)"
    using Cons.prems(1) ds by (simp add: heard_reads_def)
  with Cons.prems(3,4,6) have "scan_loop d junk e = scan_loop d junk (after_read dt False ?ps ?rs e)"
    by (simp add: scan_loop_step [OF r])
  with Cons.IH [OF ready_after_read [OF r]] Cons.prems(2-6) ds show ?case by simp
qed

definition scan_trace :: "int \<Rightarrow> byte \<Rightarrow> action list" where
  "scan_trace fd own =
     [A_write fd (cmd_packet OGF_LE_CTL OCF_LE_SET_SCAN_PARAMS
        (Some (put_le16 0x0010 @ put_le16 0x0010 @ [0x00, own, 0x00])) 7),
      A_write fd (cmd_packet OGF_LE_CTL OCF_LE_SET_SCAN_ENABLE (Some [0x01, 0x00]) 2),
      A_write fd (cmd_packet OGF_LE_CTL OCF_LE_SET_SCAN_ENABLE (Some [0x00, 0x00]) 2)]"

lemma scan_finds:
  assumes "ready e (map poll_ok ds @ ps) (heard_reads (hs @ [x]) @ rs)"
    and "length ds = Suc (length hs)" "list_all heard_ok (hs @ [x])"
    and "list_all (\<lambda>y. heard_controller y = None) hs" "heard_controller x = Some peer"
    and "int (sum_list ds) + 1000 \<le> 1000 * t"
  obtains e' where "scan_for_peer_user fd own t junk e = (Some peer, e')" "ready e' ps rs"
    "acts e' = acts e @ scan_trace fd own"
proof -
  define ps1 where "ps1 = put_le16 0x0010 @ put_le16 0x0010 @ [0x00, own, 0x00]"
  define e1 where "e1 = act (A_write fd (cmd_packet OGF_LE_CTL OCF_LE_SET_SCAN_PARAMS (Some ps1) 7)) e"
  define e2 where "e2 = act (A_write fd (cmd_packet OGF_LE_CTL OCF_LE_SET_SCAN_ENABLE (Some [0x01, 0x00]) 2)) e1"
  have r1: "ready e1 (map poll_ok ds @ ps) (heard_reads (hs @ [x]) @ rs)" using assms(1) by (simp add: e1_def)
  then have r2: "ready e2 (map poll_ok ds @ ps) (heard_reads (hs @ [x]) @ rs)" by (simp add: e2_def)
  have "clock e2 < 1000 * now_ms e2 + 1000" by (simp add: now_ms_def)
  with assms(6) have "clock e2 + int (sum_list ds) < 1000 * (now_ms e2 + t)" by simp
  from scan_loop_finds [OF r2 assms(2-5) this, of junk] obtain e3 where
    s: "scan_loop (now_ms e2 + t) junk e2 = (Some peer, e3)" "ready e3 ps rs" "acts e3 = acts e2" by blast
  define e4 where "e4 = act (A_write fd (cmd_packet OGF_LE_CTL OCF_LE_SET_SCAN_ENABLE (Some [0x00, 0x00]) 2)) e3"
  have "scan_for_peer_user fd own t junk e = (Some peer, e4)"
    using ready_send_cmd [OF assms(1), of fd OGF_LE_CTL OCF_LE_SET_SCAN_PARAMS "Some ps1" 7]
      ready_send_cmd [OF r1, of fd OGF_LE_CTL OCF_LE_SET_SCAN_ENABLE "Some [0x01, 0x00]" 2]
      ready_send_cmd [OF s(2), of fd OGF_LE_CTL OCF_LE_SET_SCAN_ENABLE "Some [0x00, 0x00]" 2] s(1)
    by (simp add: scan_for_peer_user_def flip: ps1_def e1_def e2_def e4_def)
  moreover have "ready e4 ps rs" using s(2) by (simp add: e4_def)
  moreover have "acts e4 = acts e @ scan_trace fd own"
    using s(3) by (simp add: e4_def e2_def e1_def scan_trace_def ps1_def)
  ultimately show thesis by (rule that)
qed

section \<open>Opening and initialising the controller\<close>

text \<open>A Command Complete event for an opcode, with the number of packets the host may send.\<close>

definition command_done :: "byte \<Rightarrow> u16 \<Rightarrow> byte \<Rightarrow> bytes" where
  "command_done n op st = event_packet EVT_CMD_COMPLETE ([n] @ put_le16 op @ [st])"

lemma parse_command_done:
  fixes f0 :: frame and n st :: byte and op :: u16
  defines "f \<equiv> parse_frame 7 (f0\<lparr>raw := overwrite (raw f0) (command_done n op st)\<rparr>)"
  shows "pkt_type f = HCI_EVENT_PKT" "evt_code f = EVT_CMD_COMPLETE" "payload_len f = 4" "pl_le16 f 1 = op"
    "pl_byte f 3 = st"
proof -
  have raw: "overwrite (raw f0) (command_done n op st) =
      [HCI_EVENT_PKT, EVT_CMD_COMPLETE, 4, n] @ put_le16 op @ [st] @ drop 7 (raw f0)"
    by (simp add: overwrite_def command_done_def event_packet_def)
  have op: "get_le16 ([HCI_EVENT_PKT, EVT_CMD_COMPLETE, 4, n] @ put_le16 op @ [st] @ drop 7 (raw f0)) 4 = op"
    by (rule get_le16_append) simp
  show "pkt_type f = HCI_EVENT_PKT" "evt_code f = EVT_CMD_COMPLETE" "payload_len f = 4" "pl_le16 f 1 = op"
    "pl_byte f 3 = st"
    unfolding f_def raw using op
    by (simp_all add: parse_frame_def parse_event_def pl_byte_def pl_le16_def Let_def put_le16_def)
qed

lemma length_command_done: "length (command_done n op st) = 7"
  by (simp add: command_done_def event_packet_def)

lemma read_command_done:
  assumes "ready e (poll_ok dt # ps) (R_data (command_done n op st) # rs)"
  shows "hci_user_read_frame f t e = (1, parse_frame 7 (f\<lparr>raw := overwrite (raw f) (command_done n op st)\<rparr>),
    after_read dt False ps rs e)"
proof -
  have "command_done n op st \<noteq> []" by (simp add: command_done_def event_packet_def)
  then show ?thesis
    using read_frame_ready [of e dt False ps "command_done n op st" rs f t] assms length_command_done [of n op st]
    by (simp add: ready_def poll_ok_def)
qed

definition init_trace :: "int \<Rightarrow> action list" where
  "init_trace fd = [A_write fd (cmd_packet 0x03 OCF_HCI_RESET None 0),
     A_write fd (cmd_packet OGF_LE_CTL OCF_LE_SET_EVENT_MASK (Some [0xFF, 0x1F, 0, 0, 0, 0, 0, 0]) 8)]"

lemma init_completes:
  assumes "ready e (map poll_ok [d1, d2] @ ps)
      (R_data (command_done n1 0x0C03 st1) # R_data (command_done n2 0x2001 st2) # rs)"
  obtains e' where "hci_user_init fd junk e = (0, e')" "ready e' ps rs" "acts e' = acts e @ init_trace fd"
proof -
  define m where "m = [0xFF, 0x1F, 0, 0, 0, 0, 0, 0 :: byte]"
  define w1 where "w1 = A_write fd (cmd_packet 0x03 OCF_HCI_RESET None 0)"
  define w2 where "w2 = A_write fd (cmd_packet OGF_LE_CTL OCF_LE_SET_EVENT_MASK (Some m) 8)"
  let ?rs = "R_data (command_done n2 0x2001 st2) # rs"
  define e2 where "e2 = after_read d1 False (poll_ok d2 # ps) ?rs (act w1 e)"
  define e4 where "e4 = after_read d2 False ps rs (act w2 e2)"
  have r1: "ready (act w1 e) (poll_ok d1 # poll_ok d2 # ps) (R_data (command_done n1 0x0C03 st1) # ?rs)"
    using assms by simp
  then have r2: "ready e2 (poll_ok d2 # ps) ?rs" unfolding e2_def by (rule ready_after_read)
  have r3: "ready (act w2 e2) (poll_ok d2 # ps) ?rs" using r2 by simp
  then have r4: "ready e4 ps rs" unfolding e4_def by (rule ready_after_read)
  have "reset_wait (Suc 9) junk (act w1 e) = (True, e2)"
    using parse_command_done [of junk n1 "0x0C03" st1]
    by (subst reset_wait.simps(2)) (simp add: read_command_done [OF r1] e2_def)
  then have reset: "reset_wait 10 junk (act w1 e) = (True, e2)" by simp
  have mask: "wait_cmd_complete 0x2001 1000 junk (act w2 e2) = (if st2 = 0 then 0 else -1, e4)"
    using parse_command_done [of junk n2 "0x2001" st2]
    by (simp add: wait_cmd_complete_def wait_cmd_loop.simps read_command_done [OF r3] e4_def cmd_complete_for_def)
  have s1: "hci_user_send_cmd fd 0x03 OCF_HCI_RESET None 0 e = (0, act w1 e)"
    unfolding w1_def by (rule ready_send_cmd [OF assms])
  have s2: "hci_user_send_cmd fd OGF_LE_CTL OCF_LE_SET_EVENT_MASK (Some m) 8 e2 = (0, act w2 e2)"
    unfolding w2_def by (rule ready_send_cmd [OF r2])
  have "hci_user_init fd junk e = (0, e4)"
    unfolding hci_user_init_def m_def [symmetric] s1 using reset mask s2 by simp
  moreover have "acts e4 = acts e @ init_trace fd" by (simp add: e4_def e2_def init_trace_def w1_def w2_def m_def)
  ultimately show thesis using r4 that by blast
qed

text \<open>The device is taken down over a raw socket, then its user channel is bound.\<close>

definition open_trace :: "int \<Rightarrow> int \<Rightarrow> int \<Rightarrow> action list" where
  "open_trace rt ctl fd = (let dev = (if rt < 0 then 0 else rt)
     in [A_bind ctl (word_of_int dev) HCI_CHANNEL_RAW, A_ioctl_down ctl dev, A_close ctl, A_sleep 100000,
         A_bind fd (word_of_int dev) HCI_CHANNEL_USER])"

lemma open_completes:
  assumes "ready e ps rs" and "fds e = ctl # fd # fs" "0 \<le> ctl" "0 \<le> fd" and "statuses e = []"
  obtains e' where "hci_user_open rt e = (fd, e')" "ready e' ps rs" "acts e' = acts e @ open_trace rt ctl fd"
proof -
  have "\<exists>e'. hci_user_open rt e = (fd, e') \<and> ready e' ps rs \<and> acts e' = acts e @ open_trace rt ctl fd"
    using assms
    by (simp add: hci_user_open_def hci_bring_down_def sys_fd_def sys_status_def sys_close_def usleep_def
        ready_def open_trace_def Let_def)
  then show thesis using that by blast
qed

section \<open>From the command line to the loop\<close>

text \<open>The options of a start with a scan and without the USB preparation and the guards.\<close>

definition scan_options :: "options \<Rightarrow> bool" where
  "scan_options opts \<longleftrightarrow> auto_scan opts \<and> bdaddr_s opts = None \<and> \<not> scan_only opts \<and> \<not> usb_init opts \<and>
     \<not> exclusive opts \<and> \<not> kill_bluez opts \<and> \<not> preflight opts \<and> \<not> send_security_req opts \<and>
     host_spec opts = ''auto''"

text \<open>The session \<^verbatim>\<open>main\<close> loops with, for the controller the scan found.\<close>

definition found_session :: "host \<Rightarrow> options \<Rightarrow> int \<Rightarrow> bytes \<times> byte \<Rightarrow> session" where
  "found_session h opts fd peer = init_session opts fd peer (snd (snd (resolve_types opts)))
     (case read_local_bdaddr h of Some lb \<Rightarrow> lb | None \<Rightarrow> [0xD8, 0x3A, 0xDD, 0xE5, 0x69, 0xED])"

definition setup_trace :: "host \<Rightarrow> options \<Rightarrow> int \<Rightarrow> int \<Rightarrow> action list" where
  "setup_trace h opts ctl fd =
     open_trace (route h) ctl fd @ init_trace fd @ scan_trace fd (snd (snd (resolve_types opts)))"

lemma length_local_bdaddr: "read_local_bdaddr h = Some lb \<Longrightarrow> length lb = 6"
  by (auto simp: read_local_bdaddr_def bind_eq_Some_conv dest: length_scan_fields)

lemma length_first_controller:
  "list_all report_ok reps \<Longrightarrow> first_controller reps = Some (addr, at) \<Longrightarrow> length addr = 6"
  by (induction reps) (auto simp: report_ok_def controller_of_def split: option.splits if_splits prod.splits)

lemma length_heard_controller: "heard_ok x \<Longrightarrow> heard_controller x = Some (addr, at) \<Longrightarrow> length addr = 6"
  by (cases x) (auto simp: adv_event_ok_def dest: length_first_controller)

lemma found_session_can_pair: "length (fst peer) = 6 \<Longrightarrow> can_pair (found_session h opts fd peer)"
  by (auto simp: can_pair_def handles_agree_def found_session_def init_session_def dest: length_local_bdaddr split: option.split)

lemma scan_options_types:
  "scan_options opts \<Longrightarrow> \<exists>ptype. resolve_types opts = (opts, ptype, snd (snd (resolve_types opts)))"
  by (cases opts) (auto simp: resolve_types_def scan_options_def Let_def)

lemma setup_completes:
  assumes "scan_options opts" and "fds e = ctl # fd # fs" "0 \<le> ctl" "0 \<le> fd" and "statuses e = []"
    and "length ds = Suc (length hs)" "list_all heard_ok (hs @ [x])"
    and "list_all (\<lambda>y. heard_controller y = None) hs" "heard_controller x = Some peer"
    and "\<not> addr_is_zero (fst peer)" and "int (sum_list ds) + 1000 \<le> 1000 * scan_timeout opts"
    and "ready e (map poll_ok [d1, d2] @ map poll_ok ds @ ps)
      (R_data (command_done n1 0x0C03 st1) # R_data (command_done n2 0x2001 st2) # heard_reads (hs @ [x]) @ rs)"
  obtains e' where "main_setup h junk opts e = (Inr (found_session h opts fd peer), e')" "ready e' ps rs"
    "acts e' = acts e @ setup_trace h opts ctl fd"
proof -
  from scan_options_types [OF assms(1)] obtain ptype own where
    ty: "resolve_types opts = (opts, ptype, own)" "snd (snd (resolve_types opts)) = own" by force
  from open_completes [OF assms(12,2-5), of "route h"] obtain e1 where
    o: "hci_user_open (route h) e = (fd, e1)" "acts e1 = acts e @ open_trace (route h) ctl fd"
    and r1: "ready e1 (map poll_ok [d1, d2] @ map poll_ok ds @ ps)
      (R_data (command_done n1 0x0C03 st1) # R_data (command_done n2 0x2001 st2) # heard_reads (hs @ [x]) @ rs)" .
  from init_completes [OF r1, of fd junk] obtain e2 where
    i: "hci_user_init fd junk e1 = (0, e2)" "acts e2 = acts e1 @ init_trace fd"
    and r2: "ready e2 (map poll_ok ds @ ps) (heard_reads (hs @ [x]) @ rs)" .
  from scan_finds [OF r2 assms(6-9,11), of fd own junk] obtain e3 where
    s: "scan_for_peer_user fd own (scan_timeout opts) junk e2 = (Some peer, e3)" "ready e3 ps rs"
      "acts e3 = acts e2 @ scan_trace fd own" .
  have "main_setup h junk opts e = (Inr (found_session h opts fd peer), e3)"
    using assms(1,4,10) o(1) i(1) s(1) ty(2)
    by (auto simp: main_setup_def ty(1) scan_options_def bluez_guard_def resolve_peer_def resolve_host_def
        usb_stage_def transport_stage_def scan_stage_def peer_stage_def found_session_def split: option.split)
  moreover have "acts e3 = acts e @ setup_trace h opts ctl fd"
    using o(2) i(2) s(3) by (simp add: setup_trace_def ty(2))
  ultimately show thesis using s(2) that by blast
qed

section \<open>The whole run\<close>


text \<open>
  The completion of the scan command, an advertisement of another device, then the controller;
  two sessions; then the signal.
\<close>

definition demo_heard :: "heard list" where
  "demo_heard = [Other_event EVT_CMD_COMPLETE [1, 0x0C, 0x20, 0],
     Adverts [(0, 0, [9, 9, 9, 9, 9, 9], [(0x01, [0x06])], 0xC0)]]"

definition demo_advert :: heard where
  "demo_advert = Adverts [(0, 1, [1, 2, 3, 4, 5, 0xC6],
     [(0x01, [0x06]), (0xFF, [0x53, 0x05, 1, 0, 3, 0x7E, 0x05, 0x69, 0x20])], 0xB0)]"

definition demo_scan_env :: env where
  "demo_scan_env = quiet_env\<lparr>fds := [5, 7],
     polls := map poll_ok [1, 1] @ map poll_ok [1000, 1000, 1000] @
       concat (map talk_polls [demo_talk, demo_talk]) @ [Poll_ans 1 True P_timeout],
     reads := R_data (command_done 1 0x0C03 0) # R_data (command_done 1 0x2001 0) #
       heard_reads (demo_heard @ [demo_advert]) @ concat (map (talk_reads pad_cipher
         (found_session demo_host (default_options\<lparr>auto_scan := True\<rparr>) 7 ([1, 2, 3, 4, 5, 0xC6], 1)))
         [demo_talk, demo_talk])\<rparr>"


end
