(* ===== verification/Lost_Link.thy ===== *)
theory Lost_Link
  imports Gatt_Exchange
begin

text \<open>
  A link that is lost during the discovery of \<^verbatim>\<open>sw2d_final.c\<close>: the disconnection is
  forgotten.
\<close>

text \<open>The disconnection arrives instead of the answer to the MTU request.\<close>

lemma mtu_exchange_disconnected:
  assumes "ready e (poll_ok dt # ps) (R_data (disconnect_event h reason) # rs)"
  shows "\<exists>e'. mtu_exchange j s e =
      (Inr (), s\<lparr>last_disconnect_reason := reason, att_mtu := 23, state := STATE_ATT_READY\<rparr>, e') \<and>
    ready e' ps rs \<and> acts e' = acts e @ [att_out s [ATT_OP_MTU_REQ, 0xFF, 0x00]]"
proof -
  let ?e1 = "act (att_out s [ATT_OP_MTU_REQ, 0xFF, 0x00]) e" and ?p = "disconnect_event h reason"
  have w: "att_send s [ATT_OP_MTU_REQ, 0xFF, 0x00] 3 e = (0, ?e1)" by (rule att_send_ready [OF assms]) simp_all
  have r1: "ready ?e1 (poll_ok dt # ps) (R_data ?p # rs)" using assms by simp
  have "hci_user_read_frame (jframe j) 500 ?e1 =
      (1, parse_frame (length ?p) ((jframe j)\<lparr>raw := overwrite (raw (jframe j)) ?p\<rparr>), after_read dt False ps rs ?e1)"
    by (rule read_frame_ready) (use r1 in \<open>simp_all add: ready_def poll_ok_def disconnect_event_bytes\<close>)
  then have "rx_await_acl (jframe j) ATT_CID (take 32 (jbuf j)) 32 2000 s ?e1 =
      (-2, take 32 (jbuf j), 32, s\<lparr>last_disconnect_reason := reason\<rparr>, after_read dt False ps rs ?e1)"
    unfolding rx_await_acl_def
    using r1 parse_disconnect by (subst rx_await_acl_loop.simps) (simp add: ready_def Let_def)
  with w ready_after_read [OF r1] show ?thesis by (simp add: mtu_exchange_def)
qed

lemma report_loop_silent:
  "ready e [] [] \<Longrightarrow> state s = STATE_NOTIFICATIONS_ENABLED \<Longrightarrow> report_loop fuel j s n e = None"
  by (induction fuel arbitrary: e) (simp_all add: read_nothing, simp add: ready_def)

text \<open>
  C26. A disconnection that arrives instead of the answer to the MTU request is forgotten,
  though it is recorded as the reason: the daemon goes on with the defaults, sends the other
  three requests on the handle of the lost link, reports notifications as enabled, and waits
  in the report loop for ever, so that no session follows.
\<close>

theorem lost_disconnect_is_missed:
  assumes "link_phases c j sec s0 e0 = (Inr (), s, e)"
    and "ready e [poll_ok dt] [R_data (disconnect_event h reason)]"
  shows "\<exists>s' e'. session_setup c j sec s0 e0 = (Inr (), s', e') \<and> state s' = STATE_NOTIFICATIONS_ENABLED \<and>
     last_disconnect_reason s' = reason \<and> conn_handle s' = conn_handle s \<and>
     acts e' = acts e @ map (att_out s') (att_requests 0x0001 0xFFFF (report_cccd s')) \<and>
     (\<forall>fuel. session_cycle fuel c j sec s0 e0 = None)"
proof -
  define s1 where "s1 = s\<lparr>last_disconnect_reason := reason, att_mtu := 23, state := STATE_ATT_READY\<rparr>"
  define s2 where "s2 = s1\<lparr>svc_start := 0x0001, svc_end := 0xFFFF\<rparr>"
  define s3 where "s3 = (if report_handle s2 = 0 then s2\<lparr>report_handle := 0x000E, report_cccd := 0x000F\<rparr> else s2)
      \<lparr>state := STATE_GATT_READY\<rparr>"
  let ?s4 = "s3\<lparr>state := STATE_NOTIFICATIONS_ENABLED\<rparr>"
  have h: "conn_handle s3 = conn_handle s" "hci_fd s3 = hci_fd s" "last_disconnect_reason s3 = reason"
    by (simp_all add: s3_def s2_def s1_def)
  have o: "att_out s = att_out ?s4" "att_out s1 = att_out ?s4" "att_out s2 = att_out ?s4" "att_out s3 = att_out ?s4"
    by (rule ext, simp add: att_out_def s3_def s2_def s1_def)+
  from mtu_exchange_disconnected [OF assms(2), of j s] obtain e1 where
    g1: "mtu_exchange j s e = (Inr (), s1, e1)" "acts e1 = acts e @ [att_out s [ATT_OP_MTU_REQ, 0xFF, 0x00]]"
    and r1: "ready e1 [] []" unfolding s1_def by blast
  from discover_services_silent [OF r1, of j s1] obtain e2 where
    g2: "discover_services j s1 e1 = (Inr (), s2, e2)"
      "acts e2 = acts e1 @ [att_out s1 [ATT_OP_READ_BY_GROUP_REQ, 0x01, 0x00, 0xFF, 0xFF, 0x00, 0x28]]"
    and r2: "ready e2 [] []" unfolding s2_def by blast
  from discover_characteristics_silent [OF r2, of j s2] obtain e3 where
    g3: "discover_characteristics j s2 e2 = (Inr (), s3, e3)"
      "acts e3 = acts e2 @ [att_out s2 (characteristics_request s2)]"
    and r3: "ready e3 [] []" unfolding s3_def by blast
  from enable_cccd_silent [OF r3, of j s3] obtain e4 where
    g4: "enable_cccd j s3 e3 = (Inr (), ?s4, e4)" "acts e4 = acts e3 @ [att_out s3 (cccd_request s3)]"
    and r4: "ready e4 [] []" by blast
  have u: "session_setup c j sec s0 e0 = (Inr (), ?s4, e4)"
    using assms(1) g1(1) g2(1) g3(1) g4(1) by (simp add: session_setup_def phase_gatt_def)
  moreover have pw: "put_le16 0xFFFF = [0xFF, 0xFF]" "put_le16 0x0001 = [0x01, 0x00]" by code_simp+
  have "acts e4 = acts e @ map (att_out ?s4) (att_requests 0x0001 0xFFFF (report_cccd ?s4))"
    using g1(2) g2(2) g3(2) g4(2) unfolding o
    unfolding att_requests_def pw
    by (simp add: characteristics_request_def cccd_request_def s2_def put_le16_def le16_request)
  moreover have "session_cycle fuel c j sec s0 e0 = None" for fuel
    using u report_loop_silent [OF r4] by (simp add: session_cycle_def)
  ultimately show ?thesis using h by auto
qed

definition lost_env :: env where
  "lost_env = quiet_env\<lparr>polls := map (\<lambda>dt. Poll_ans dt False P_ready) [1, 1, 1, 1, 1] @ [poll_ok 1],
     reads := peer_script 0x01 0x40 (replicate 15 0) demo_pres demo_sconf (replicate 16 7) @
       [R_data (disconnect_event 0x40 0x08)]\<rparr>"

theorem lost_disconnect_is_missed_witness:
  "\<exists>s' e'. session_setup pad_cipher demo_stack False demo_session lost_env = (Inr (), s', e') \<and>
     state s' = STATE_NOTIFICATIONS_ENABLED \<and> last_disconnect_reason s' = 0x08 \<and>
     (\<forall>fuel. session_cycle fuel pad_cipher demo_stack False demo_session lost_env = None)"
proof -
  have s: "\<not> did_cancel demo_session" "length (peer_addr demo_session) = 6"
    "length (local_addr demo_session) = 6" "length demo_pres = 7" "hd demo_pres = SMP_OP_PAIRING_RSP"
    by (simp_all add: demo_session_def init_session_def demo_pres_def)
  have r: "ready lost_env (map (\<lambda>dt. Poll_ans dt False P_ready) [1, 1, 1, 1, 1] @ [poll_ok 1])
      (peer_script 0x01 0x40 (replicate 15 0) demo_pres demo_sconf (replicate 16 7) @
       [R_data (disconnect_event 0x40 0x08)])"
    by (simp add: lost_env_def ready_def quiet_env_def)
  have h: "(0x40 :: u16) AND 0x0fff = 0x40" by simp
  from link_completes [OF r s(1) h _ s(4,5) _ demo_sconf_def block_cipher_pad s(2,3), of demo_stack]
  obtain s1 e1 where "link_phases pad_cipher demo_stack False demo_session lost_env = (Inr (), s1, e1)"
    "ready e1 [poll_ok 1] [R_data (disconnect_event 0x40 0x08)]" by auto
  from lost_disconnect_is_missed [OF this] show ?thesis by blast
qed

end
