(* ===== verification/Sw2d_Io.thy ===== *)
theory Sw2d_Io
  imports Hci_Transport C_Strings
begin

text \<open>
  The input and output of \<^verbatim>\<open>sw2d.c\<close>, the daemon on the raw HCI channel: complete
  writes and reads, socket filters, HCI commands, the packet reader
  \<^verbatim>\<open>hci_read_packet\<close> and the LE connection. A packet that was read is the list of its
  bytes. Each \<open>R_data\<close> answer is what one \<^verbatim>\<open>read\<close> system call finds: a chunk of a
  byte stream, or one datagram, of which the part that does not fit is lost.
\<close>

section \<open>Complete writes and reads\<close>

function write_full :: "int \<Rightarrow> bytes \<Rightarrow> nat \<Rightarrow> env \<Rightarrow> int \<times> env" where
  "write_full fd p done_n e =
     (if done_n < length p then
        (case sys_write fd (drop done_n p) e of (n, e1) \<Rightarrow>
           if n < 0 then (if errno e1 = E_INTR then write_full fd p done_n e1 else (-1, e1))
           else write_full fd p (done_n + nat n) e1)
      else (int done_n, e))"
  by pat_completeness auto
termination
  by (relation "measure (\<lambda>(fd, p, d, e). (length p - d) + length (writes e))")
    (auto simp: sys_write_def split: list.splits write_ans.splits if_splits)

declare write_full.simps [simp del]

text \<open>\<^verbatim>\<open>read_full(fd, buf, len)\<close> with \<open>got\<close> already read: the count and all bytes read.\<close>

function read_full :: "nat \<Rightarrow> bytes \<Rightarrow> env \<Rightarrow> int \<times> bytes \<times> env" where
  "read_full len got e =
     (if length got < len then
        (case sys_read (len - length got) e of (n, bs, e1) \<Rightarrow>
           if n < 0 then (if errno e1 = E_INTR then read_full len got e1 else (-1, got, e1))
           else if n = 0 then (int (length got), got, e1)
           else read_full len (got @ bs) e1)
      else (int (length got), got, e))"
  by pat_completeness auto
termination
  by (relation "measure (\<lambda>(len, got, e). length (reads e))")
    (auto simp: sys_read_def split: list.splits read_ans.splits if_splits)

declare read_full.simps [simp del]

section \<open>Addresses and filters\<close>

text \<open>\<^verbatim>\<open>parse_bdaddr\<close>: six fields, kept in the order of the text.\<close>

definition parse_bdaddr :: "string \<Rightarrow> bytes option" where
  "parse_bdaddr s =
     Option.bind (scan_hex2 s) (\<lambda>(v, rest).
     Option.bind (scan_fields 5 rest) (\<lambda>vs.
       if list_all (\<lambda>a. 0 \<le> a \<and> a \<le> 0xff) (v # vs) then Some (map word_of_int (v # vs)) else None))"

definition exact_connect_filter :: bytes where
  "exact_connect_filter =
     [0x10, 0x00, 0x00, 0x00, 0x02, 0xc0, 0x00, 0x00,
      0x00, 0x00, 0x00, 0x40, 0x0d, 0x20, 0x00, 0x00]"

definition set_exact_connect_filter :: "int \<Rightarrow> env \<Rightarrow> int \<times> env" where
  "set_exact_connect_filter fd e =
     (let (r, e1) = sys_status (A_setsockopt fd exact_connect_filter) e
      in if r < 0 then (-1, e1) else (0, e1))"

definition acl_runtime_filter :: bytes where
  "acl_runtime_filter =
     (let event0 = push_bit 5 1 OR push_bit 0x0e 1 OR push_bit 0x0f 1 OR push_bit 0x13 (1 :: u32)
      in (replicate 16 0)
           [0 := ucast (push_bit 2 1 OR push_bit 4 (1 :: u32)),
            4 := ucast event0, 5 := ucast (drop_bit 8 event0), 6 := ucast (drop_bit 16 event0),
            7 := ucast (drop_bit 24 event0), 10 := 0x00, 11 := 0x40])"

definition set_acl_runtime_filter :: "int \<Rightarrow> env \<Rightarrow> int \<times> env" where
  "set_acl_runtime_filter fd e =
     (let (r, e1) = sys_status (A_setsockopt fd acl_runtime_filter) e
      in if r < 0 then (-1, e1) else (0, e1))"

definition hci_open :: "env \<Rightarrow> int \<times> env" where
  "hci_open e =
     (let (fd, e1) = sys_fd e
      in if fd < 0 then (-1, e1)
         else (let (b, e2) = sys_status (A_bind fd 0 HCI_CHANNEL_RAW) e1
               in if b < 0 then (-1, sys_close fd e2) else (fd, e2)))"

section \<open>Commands and packets\<close>

text \<open>\<^verbatim>\<open>hci_send_cmd\<close>: unlike the transport of the other daemon, a short write fails.\<close>

definition hci_send_cmd :: "int \<Rightarrow> u16 \<Rightarrow> u16 \<Rightarrow> bytes \<Rightarrow> byte \<Rightarrow> env \<Rightarrow> int \<times> env" where
  "hci_send_cmd fd ogf ocf params plen e =
     (let opcode = (ocf AND 0x03ff) OR push_bit 10 ogf;
          (n, e1) = sys_write fd ([HCI_COMMAND_PKT] @ put_le16 opcode @ [plen] @
                                  take (unat plen) params) e
      in if n < 0 then (-1, e1)
         else if n \<noteq> 1 + 3 + int (unat plen) then (-1, e1) else (0, e1))"

text \<open>One exact part of a packet: \<open>Inl\<close> where \<^verbatim>\<open>hci_read_packet\<close> returns -1.\<close>

definition read_part :: "nat \<Rightarrow> env \<Rightarrow> (unit + bytes) \<times> env" where
  "read_part len e = (case read_full len [] e of (n, bs, e1) \<Rightarrow>
     if n \<noteq> int len then (Inl (), e1) else (Inr bs, e1))"

text \<open>
  \<^verbatim>\<open>hci_read_packet\<close> with a buffer of \<open>bufsz\<close> bytes: the return code and the packet.
\<close>

definition read_packet_body :: "nat \<Rightarrow> env \<Rightarrow> (unit + bytes) \<times> env" where
  "read_packet_body bufsz e =
     (if bufsz < 1 then (Inl (), e)
      else and_then (read_part 1 e) (\<lambda>t e1.
        if t ! 0 = HCI_EVENT_PKT then
          (if bufsz < 3 then (Inl (), e1)
           else and_then (read_part 2 e1) (\<lambda>h e2.
             if bufsz < 3 + unat (h ! 1) then (Inl (), e2)
             else and_then (read_part (unat (h ! 1)) e2) (\<lambda>b e3. (Inr (t @ h @ b), e3))))
        else if t ! 0 = HCI_ACLDATA_PKT then
          (if bufsz < 5 then (Inl (), e1)
           else and_then (read_part 4 e1) (\<lambda>h e2.
             let dlen = unat (get_le16 h 2)
             in if bufsz < 5 + dlen then (Inl (), e2)
                else and_then (read_part dlen e2) (\<lambda>b e3. (Inr (t @ h @ b), e3))))
        else (Inr t, e1)))"

definition hci_read_packet :: "nat \<Rightarrow> int \<Rightarrow> env \<Rightarrow> int \<times> bytes \<times> env" where
  "hci_read_packet bufsz timeout_ms e =
     (let (pr, e1) = sys_poll timeout_ms e
      in if pr \<le> 0 then (pr, [], e1)
         else (case read_packet_body bufsz e1 of
                 (Inl _, e2) \<Rightarrow> (-1, [], e2)
               | (Inr pkt, e2) \<Rightarrow> (int (length pkt), pkt, e2)))"

section \<open>Connecting\<close>

definition connect_params :: "bytes \<Rightarrow> bytes" where
  "connect_params peer =
     put_le16 0x0004 @ put_le16 0x0004 @ [0x00, 0x00] @ take 6 peer @ [0x00] @
     put_le16 0x000F @ put_le16 0x000F @ put_le16 0x0000 @ put_le16 0x0C80 @
     put_le16 0x0001 @ put_le16 0x0001"

text \<open>
  What the wait for the connection makes of a packet: \<open>None\<close> to go on, \<open>Some\<close> of the
  return code and the handle.
\<close>

definition conn_packet :: "bytes \<Rightarrow> (int \<times> u16 option) option" where
  "conn_packet pkt =
     (if pkt ! 0 \<noteq> HCI_EVENT_PKT \<or> length pkt < 3 then None
      else if pkt ! 1 = EVT_CMD_STATUS \<and> 4 \<le> pkt ! 2 then None
      else if pkt ! 1 = EVT_LE_META \<and> 19 \<le> pkt ! 2 \<and> pkt ! 3 = EVT_LE_CONN_COMPLETE then
        (if pkt ! 4 \<noteq> 0x00 then Some (-1, None) else Some (0, Some (get_le16 pkt 5 AND 0x0fff)))
      else None)"

fun connect_wait :: "nat \<Rightarrow> env \<Rightarrow> int \<times> u16 option \<times> env" where
  "connect_wait 0 e = (-1, None, e)"
| "connect_wait (Suc k) e =
     (if \<not> running e then (-1, None, e)
      else (let (n, pkt, e1) = hci_read_packet 260 100 e
            in if n \<le> 0 then connect_wait k e1
               else case conn_packet pkt of
                      Some (r, h) \<Rightarrow> (r, h, e1)
                    | None \<Rightarrow> connect_wait k e1))"

definition hci_connect_le :: "int \<Rightarrow> bytes \<Rightarrow> env \<Rightarrow> int \<times> u16 option \<times> env" where
  "hci_connect_le fd peer e =
     (let (r, e1) = set_exact_connect_filter fd e
      in if r < 0 then (-1, None, e1)
         else (let (r2, e2) = hci_send_cmd fd OGF_LE_CTL OCF_LE_CREATE_CONN (connect_params peer) 25 e1
               in if r2 < 0 then (-1, None, e2) else connect_wait 120 e2))"

definition hci_request_conn_update :: "int \<Rightarrow> u16 \<Rightarrow> env \<Rightarrow> env" where
  "hci_request_conn_update fd h e =
     snd (hci_send_cmd fd OGF_LE_CTL 0x0013
       (put_le16 h @ put_le16 0x0006 @ put_le16 0x0006 @ put_le16 0x0000 @ put_le16 0x002a @
        put_le16 0x0000 @ put_le16 0x0000) 14 e)"

end
