(* ===== verification/Sw2d_Session.thy ===== *)
theory Sw2d_Session
  imports Sw2d_Io
begin

text \<open>
  ATT over raw ACL packets and the session of \<^verbatim>\<open>sw2d.c\<close>: requests and responses, the
  GATT probe, the virtual gamepad (UHID) and its reports, the USB preparation,
  \<^verbatim>\<open>run_session\<close> and \<^verbatim>\<open>main\<close>. The layout of \<^verbatim>\<open>struct uhid_event\<close> comes
  from a kernel header, so the bytes of an event are the parameter \<open>ub\<close>.
\<close>

abbreviation (input) SW2_ATT_CID :: u16 where "SW2_ATT_CID \<equiv> 0x0004"
abbreviation (input) SW2_ATT_ERROR_RSP :: byte where "SW2_ATT_ERROR_RSP \<equiv> 0x01"
abbreviation (input) SW2_ATT_MTU_RSP :: byte where "SW2_ATT_MTU_RSP \<equiv> 0x03"
abbreviation (input) SW2_ATT_TYPE_RSP :: byte where "SW2_ATT_TYPE_RSP \<equiv> 0x09"
abbreviation (input) SW2_ATT_GROUP_RSP :: byte where "SW2_ATT_GROUP_RSP \<equiv> 0x11"
abbreviation (input) SW2_ATT_WRITE_RSP :: byte where "SW2_ATT_WRITE_RSP \<equiv> 0x13"
abbreviation (input) SW2_ATT_NOTIFY :: byte where "SW2_ATT_NOTIFY \<equiv> 0x1b"
abbreviation (input) SW2_INPUT_VALUE_HANDLE :: u16 where "SW2_INPUT_VALUE_HANDLE \<equiv> 0x000e"
abbreviation (input) SW2_INPUT_CCCD_HANDLE :: u16 where "SW2_INPUT_CCCD_HANDLE \<equiv> 0x000f"

section \<open>ATT requests\<close>

definition acl_send_att :: "int \<Rightarrow> u16 \<Rightarrow> bytes \<Rightarrow> u16 \<Rightarrow> env \<Rightarrow> int \<times> env" where
  "acl_send_att fd h att att_len e =
     (if 1024 < att_len then (-1, e\<lparr>errno := E_OTHER\<rparr>)
      else (let pkt = [HCI_ACLDATA_PKT] @ put_le16 ((h AND 0x0fff) OR push_bit 12 2) @
                  put_le16 (4 + att_len) @ put_le16 att_len @ put_le16 SW2_ATT_CID @
                  take (unat att_len) att;
                (n, e1) = write_full fd pkt 0 e
            in if n < 0 then (-1, e1) else (0, e1)))"

text \<open>
  One packet in the loop of \<^verbatim>\<open>read_acl_att\<close>: \<open>None\<close> to go on, \<open>Some (Inl r)\<close> for a
  return code, \<open>Some (Inr att)\<close> for the ATT data.
\<close>

definition att_packet :: "u16 \<Rightarrow> nat \<Rightarrow> bytes \<Rightarrow> (int + bytes) option" where
  "att_packet conn_handle attsz pkt =
     (let n = length pkt in
      if pkt ! 0 = HCI_EVENT_PKT \<and> 3 \<le> n then
        (if pkt ! 1 = EVT_DISCONN_COMPLETE \<and> 7 \<le> n then Some (Inl (-2)) else None)
      else if pkt ! 0 \<noteq> HCI_ACLDATA_PKT \<or> n < 9 then None
      else (let h = get_le16 pkt 1 AND 0x0fff; acl_len = unat (get_le16 pkt 3);
                l2_len = unat (get_le16 pkt 5); cid = get_le16 pkt 7
            in if h \<noteq> conn_handle \<or> cid \<noteq> SW2_ATT_CID then None
               else if n < acl_len + 5 \<or> acl_len < l2_len + 4 then None
               else if attsz < l2_len then None
               else Some (Inr (slice 9 l2_len pkt))))"

lemma read_full_polls: "read_full len got e = (n, bs, e') \<Longrightarrow> polls e' = polls e"
proof (induction len got e rule: read_full.induct)
  case (1 len got e)
  obtain k cs e1 where r: "sys_read (len - length got) e = (k, cs, e1)" by (metis prod_cases3)
  with sys_read_frame [OF r] 1 show ?case
    by (subst (asm) (3) read_full.simps) (auto split: if_splits)
qed

lemma read_part_polls: "read_part len e = (r, e') \<Longrightarrow> polls e' = polls e"
  by (auto simp: read_part_def split: prod.splits if_splits dest: read_full_polls)

lemma read_packet_body_polls: "read_packet_body n e = (r, e') \<Longrightarrow> polls e' = polls e"
  by (auto simp: read_packet_body_def and_then_def Let_def split: if_splits prod.splits sum.splits
      dest!: read_part_polls)

lemma hci_read_packet_polls:
  "hci_read_packet bufsz t e = (n, pkt, e') \<Longrightarrow> 0 < n \<Longrightarrow> length (polls e') < length (polls e)"
  by (auto simp: hci_read_packet_def Let_def split: prod.splits sum.splits if_splits
      dest!: read_packet_body_polls sys_poll_progress)

function read_acl_att :: "u16 \<Rightarrow> bytes \<Rightarrow> nat \<Rightarrow> int \<Rightarrow> env \<Rightarrow> int \<times> bytes \<times> env" where
  "read_acl_att conn_handle att attsz timeout_ms e =
     (case hci_read_packet 2048 timeout_ms e of (n, pkt, e1) \<Rightarrow>
        if n \<le> 0 then (n, att, e1)
        else (case att_packet conn_handle attsz pkt of
                None \<Rightarrow> read_acl_att conn_handle att attsz timeout_ms e1
              | Some (Inl r) \<Rightarrow> (r, att, e1)
              | Some (Inr d) \<Rightarrow> (int (length d), overwrite att d, e1)))"
  by pat_completeness auto
termination
  by (relation "measure (\<lambda>(h, att, sz, t, e). length (polls e))")
    (auto dest: hci_read_packet_polls [OF sym])

declare read_acl_att.simps [simp del]

lemma read_acl_att_polls:
  "read_acl_att h att sz t e = (n, att', e') \<Longrightarrow> 0 < n \<Longrightarrow> length (polls e') < length (polls e)"
proof (induction h att sz t e rule: read_acl_att.induct)
  case (1 h att sz t e)
  obtain k pkt e1 where r: "hci_read_packet 2048 t e = (k, pkt, e1)" by (metis prod_cases3)
  have len: "0 < k \<Longrightarrow> length (polls e1) < length (polls e)" by (rule hci_read_packet_polls [OF r])
  note IH = "1.IH" [OF r [symmetric] refl]
  from "1.prems" r len IH show ?case
    by (subst (asm) read_acl_att.simps) (auto split: if_splits option.splits sum.splits)
qed

function att_response :: "u16 \<Rightarrow> bytes \<Rightarrow> nat \<Rightarrow> byte \<Rightarrow> int \<Rightarrow> env \<Rightarrow> int \<times> bytes \<times> env" where
  "att_response h rsp rspsz expect timeout_ms e =
     (case read_acl_att h rsp rspsz timeout_ms e of (n, rsp1, e1) \<Rightarrow>
        if n \<le> 0 then (if n \<noteq> 0 then n else -1, rsp1, e1)
        else if rsp1 ! 0 = SW2_ATT_NOTIFY then att_response h rsp1 rspsz expect timeout_ms e1
        else (n, rsp1, e1))"
  by pat_completeness auto
termination
  by (relation "measure (\<lambda>(h, rsp, sz, x, t, e). length (polls e))")
    (auto dest: read_acl_att_polls [OF sym])

declare att_response.simps [simp del]

text \<open>
  \<^verbatim>\<open>att_request_response\<close>. The three ways its loop returns a response (expected, error,
  unexpected) give the same value; they differ in what is printed.
\<close>

definition att_request_response ::
  "int \<Rightarrow> u16 \<Rightarrow> bytes \<Rightarrow> u16 \<Rightarrow> bytes \<Rightarrow> nat \<Rightarrow> byte \<Rightarrow> int \<Rightarrow> env \<Rightarrow> int \<times> bytes \<times> env" where
  "att_request_response fd h req req_len rsp rspsz expect timeout_ms e =
     (let (r, e1) = acl_send_att fd h req req_len e
      in if r < 0 then (-1, rsp, e1) else att_response h rsp rspsz expect timeout_ms e1)"

text \<open>
  \<^verbatim>\<open>gatt_probe\<close>: three requests; the entries of the two lists are what it prints. Both
  lists divide the answer into elements of the length the peer declares in its second byte.
\<close>

definition att_elements :: "int \<Rightarrow> bytes \<Rightarrow> nat list" where
  "att_elements n rsp =
     (let elen = unat (rsp ! 1); count = (if elen \<noteq> 0 then (nat n - 2) div elen else 0)
      in map (\<lambda>i. 2 + i * elen) [0..<count])"

definition gatt_probe ::
  "int \<Rightarrow> u16 \<Rightarrow> bytes \<Rightarrow> env \<Rightarrow> ((u16 \<times> u16) list \<times> (u16 \<times> byte \<times> u16) list) \<times> env" where
  "gatt_probe fd h rsp e =
     (let (n1, rsp1, e1) = att_request_response fd h [0x02, 0x05, 0x02] 3 rsp 768 SW2_ATT_MTU_RSP 2000 e;
          (n2, rsp2, e2) = att_request_response fd h [0x10, 0x01, 0x00, 0xff, 0xff, 0x00, 0x28] 7
             rsp1 768 SW2_ATT_GROUP_RSP 2000 e1;
          services = (if 2 \<le> n2 \<and> rsp2 ! 0 = SW2_ATT_GROUP_RSP
            then map (\<lambda>o'. (get_le16 rsp2 o', get_le16 rsp2 (o' + 2))) (att_elements n2 rsp2) else []);
          (n3, rsp3, e3) = att_request_response fd h [0x08, 0x08, 0x00, 0x2a, 0x00, 0x03, 0x28] 7
             rsp2 768 SW2_ATT_TYPE_RSP 2000 e2;
          chars = (if 2 \<le> n3 \<and> rsp3 ! 0 = SW2_ATT_TYPE_RSP \<and> 7 \<le> rsp3 ! 1
            then map (\<lambda>o'. (get_le16 rsp3 o', rsp3 ! (o' + 2), get_le16 rsp3 (o' + 3)))
                   (att_elements n3 rsp3) else [])
      in ((services, chars), e3))"

definition enable_notifications :: "int \<Rightarrow> u16 \<Rightarrow> bytes \<Rightarrow> env \<Rightarrow> int \<times> env" where
  "enable_notifications fd h rsp e =
     (let (n, rsp1, e1) = att_request_response fd h
            ([0x12] @ put_le16 SW2_INPUT_CCCD_HANDLE @ [0x01, 0x00]) 5 rsp 64 SW2_ATT_WRITE_RSP 2000 e
      in if 1 \<le> n \<and> rsp1 ! 0 = SW2_ATT_WRITE_RSP then (0, e1) else (-1, e1))"

end
