(* ===== verification/Uhid.thy ===== *)
theory Uhid
  imports Posix_Env
begin

text \<open>
  The events of the kernel's user-space HID device that the daemons write or read. The
  layout of \<^verbatim>\<open>struct uhid_event\<close> comes from a kernel header, so the bytes of an event
  are a parameter \<open>ub\<close> of the operations that write one.
\<close>

datatype uhid_event =
    UHID_CREATE (c_name: string) (c_bus: nat) (c_vendor: u32) (c_product: u32) (c_version: u32)
      (c_country: u32) (c_rdesc: bytes)
  | UHID_CREATE2 (u_name: string) (u_uniq: string) (u_bus: nat) (u_vendor: u32) (u_product: u32)
      (u_version: u32) (u_country: u32) (u_rdesc: bytes)
  | UHID_DESTROY
  | UHID_INPUT (i_size: nat) (i_data: bytes)
  | UHID_INPUT2 (u_data: bytes)

text \<open>The bus number of \<^verbatim>\<open>linux/input.h\<close>.\<close>

abbreviation (input) BUS_BLUETOOTH :: nat where "BUS_BLUETOOTH \<equiv> 5"

text \<open>Event bytes for the concrete examples: a tag and the data.\<close>

definition plain_ub :: "uhid_event \<Rightarrow> bytes" where
  "plain_ub ev = (case ev of
      UHID_CREATE n b v p ver co rd \<Rightarrow> 0 # rd
    | UHID_CREATE2 n un b v p ver co rd \<Rightarrow> 11 # rd
    | UHID_DESTROY \<Rightarrow> [1]
    | UHID_INPUT sz d \<Rightarrow> 8 # d
    | UHID_INPUT2 d \<Rightarrow> 12 # d)"

end
