(* ===== verification/Sw2d_Gamepad.thy ===== *)
theory Sw2d_Gamepad
  imports Sw2d_Session Uhid
begin

text \<open>
  The virtual gamepad of \<^verbatim>\<open>sw2d.c\<close>: its report descriptor, the translation of input
  report 0x09 to the 13-byte HID report, the UHID events; then the USB preparation,
  \<^verbatim>\<open>run_session\<close> and \<^verbatim>\<open>main\<close>.
\<close>

section \<open>Reports\<close>

definition gamepad_rdesc :: bytes where
  "gamepad_rdesc =
    [0x05, 0x01, 0x09, 0x05, 0xa1, 0x01, 0x85, 0x01,
     0x05, 0x09, 0x19, 0x01, 0x29, 0x18, 0x15, 0x00,
     0x25, 0x01, 0x75, 0x01, 0x95, 0x18, 0x81, 0x02,
     0x05, 0x01, 0x09, 0x30, 0x09, 0x31, 0x09, 0x32,
     0x09, 0x35, 0x15, 0x00, 0x26, 0xff, 0x0f, 0x75,
     0x0c, 0x95, 0x04, 0x81, 0x02, 0x09, 0x39, 0x15,
     0x00, 0x25, 0x08, 0x35, 0x00, 0x46, 0x3b, 0x01,
     0x65, 0x14, 0x75, 0x04, 0x95, 0x01, 0x81, 0x42,
     0x75, 0x04, 0x95, 0x01, 0x81, 0x03, 0x05, 0x02,
     0x09, 0xc5, 0x09, 0xc4, 0x15, 0x00,
     0x26, 0xff, 0x00, 0x75, 0x08, 0x95, 0x02, 0x81,
     0x02, 0xc0]"

text \<open>The four direction flags are constants of the function: they are never read from \<open>b\<close>.\<close>

definition dpad_from_buttons :: "u16 \<Rightarrow> byte" where
  "dpad_from_buttons b =
     (let up = False; down = False; left = False; right = False
      in if up \<and> right then 1 else if right \<and> down then 3 else if down \<and> left then 5
         else if left \<and> up then 7 else if up then 0 else if right then 2
         else if down then 4 else if left then 6 else 8)"

definition stick12_at :: "bytes \<Rightarrow> nat \<Rightarrow> nat \<Rightarrow> u16" where
  "stick12_at r len off = (if len \<le> off + 1 then 2048 else get_le16 r off AND 0x0fff)"

definition pack12 :: "u16 \<Rightarrow> u16 \<Rightarrow> bytes" where
  "pack12 x y = [ucast x, ucast (drop_bit 8 x OR push_bit 4 y), ucast (drop_bit 4 y)]"

definition report09_to_uhid :: "bytes \<Rightarrow> nat \<Rightarrow> nat \<Rightarrow> bytes option" where
  "report09_to_uhid r len outsz =
     (if len < 11 \<or> r ! 0 \<noteq> 0x09 \<or> outsz < 13 then None
      else (let b = get_le16 r 1;
                lx = stick12_at r len 3; ly = stick12_at r len 5;
                rx = stick12_at r len 7; ry = stick12_at r len 9
            in Some ([0x01, ucast b, ucast (drop_bit 8 b),
                      (if b AND push_bit 6 1 \<noteq> 0 then 1 else 0) OR
                      (if b AND push_bit 7 1 \<noteq> 0 then 2 else 0)] @
                     pack12 lx ly @ pack12 rx ry @
                     [dpad_from_buttons b AND 0x0f,
                      if b AND push_bit 6 1 \<noteq> 0 then 0xff else 0x00,
                      if b AND push_bit 7 1 \<noteq> 0 then 0xff else 0x00])))"

section \<open>The UHID device\<close>

definition DEFAULT_BDADDR :: string where "DEFAULT_BDADDR = ''E0:EF:BF:3B:C6:76''"

definition gamepad_device :: uhid_event where
  "gamepad_device = UHID_CREATE2 ''Nintendo Switch 2 Pro Controller'' DEFAULT_BDADDR BUS_BLUETOOTH
     0x057e 0x2069 0x0100 0 gamepad_rdesc"

definition uhid_create_device :: "(uhid_event \<Rightarrow> bytes) \<Rightarrow> env \<Rightarrow> int \<times> env" where
  "uhid_create_device ub e =
     (let (fd, e1) = sys_fd e
      in if fd < 0 then (-1, e1)
         else (let (n, e2) = write_full fd (ub gamepad_device) 0 e1
               in if n < 0 then (-1, sys_close fd e2) else (fd, e2)))"

definition uhid_destroy_device :: "(uhid_event \<Rightarrow> bytes) \<Rightarrow> int \<Rightarrow> env \<Rightarrow> env" where
  "uhid_destroy_device ub fd e =
     (if fd < 0 then e else sys_close fd (snd (write_full fd (ub UHID_DESTROY) 0 e)))"

text \<open>The data field of an input event holds 4096 bytes.\<close>

definition uhid_send_report :: "(uhid_event \<Rightarrow> bytes) \<Rightarrow> int \<Rightarrow> bytes \<Rightarrow> env \<Rightarrow> int \<times> env" where
  "uhid_send_report ub fd data e =
     (if fd < 0 then (0, e)
      else (let (n, e1) = write_full fd (ub (UHID_INPUT2 (take 4096 data))) 0 e
            in if n < 0 then (-1, e1) else (0, e1)))"

section \<open>USB preparation\<close>

definition usb_send_subcmd :: "int \<Rightarrow> byte \<Rightarrow> byte \<Rightarrow> bytes \<Rightarrow> env \<Rightarrow> int \<times> env" where
  "usb_send_subcmd fd counter subcmd arg e =
     (let report = (replicate 64 0)[0 := 0x01, 1 := counter, 10 := subcmd];
          a = take 53 arg;
          (n, e1) = write_full fd (take 11 report @ a @ drop (11 + length a) report) 0 e
      in if n < 0 then (-1, e1) else (0, e1))"

definition usb_init_controller :: "env \<Rightarrow> int \<times> env" where
  "usb_init_controller e =
     (let (fd, e0) = sys_fd e
      in if fd < 0 then (-1, e0)
         else (let (r1, e1) = usb_send_subcmd fd 0 0x06 [0x01] e0;
                   (r2, e2) = (if r1 < 0 then (-1, e1) else usb_send_subcmd fd 1 0x08 [0x00] e1);
                   (r3, e3) = (if r2 < 0 then (-1, e2)
                     else usb_send_subcmd fd 2 0x01 [0xd8, 0x3a, 0xdd, 0xe5, 0x69, 0xed] e2)
               in if r3 < 0 then (-1, sys_close fd e3) else (0, sleep 8 (sys_close fd e3))))"

section \<open>A session\<close>

text \<open>One notification: the HID report for the data of an ATT message of \<open>n\<close> bytes.\<close>

definition notification_report :: "int \<Rightarrow> bytes \<Rightarrow> bytes option" where
  "notification_report n att =
     (if 3 \<le> n \<and> att ! 0 = SW2_ATT_NOTIFY \<and> get_le16 att 1 = SW2_INPUT_VALUE_HANDLE
      then report09_to_uhid (drop 3 att) (nat n - 3) 32 else None)"

text \<open>The loop of \<^verbatim>\<open>run_session\<close>, bounded by fuel; the \<open>att\<close> buffer is shared by the rounds.\<close>

fun notify_loop :: "nat \<Rightarrow> (uhid_event \<Rightarrow> bytes) \<Rightarrow> u16 \<Rightarrow> int \<Rightarrow> bytes \<Rightarrow> env \<Rightarrow> env option" where
  "notify_loop 0 ub h uhid att e = None"
| "notify_loop (Suc fuel) ub h uhid att e =
     (if \<not> running e then Some e
      else (let (n, att1, e1) = read_acl_att h att 1024 1000 e
            in if n = -2 then Some e1
               else if n \<le> 0 then notify_loop fuel ub h uhid att1 e1
               else case notification_report n att1 of
                      Some hid \<Rightarrow> notify_loop fuel ub h uhid att1 (snd (uhid_send_report ub uhid hid e1))
                    | None \<Rightarrow> notify_loop fuel ub h uhid att1 e1))"

text \<open>The local buffers of the session start with the contents \<open>junk\<close> (1024 bytes or more).\<close>

definition run_session ::
  "nat \<Rightarrow> (uhid_event \<Rightarrow> bytes) \<Rightarrow> bytes \<Rightarrow> bytes \<Rightarrow> bool \<Rightarrow> env \<Rightarrow> (int \<times> env) option" where
  "run_session fuel ub junk peer no_uhid e =
     (let (hci, e1) = hci_open e in
      if hci < 0 then Some (-1, e1)
      else let (r2, ho, e2) = hci_connect_le hci peer e1 in
      if r2 < 0 then Some (-1, sys_close hci e2)
      else let h = (case ho of Some h \<Rightarrow> h | None \<Rightarrow> 0);
               (r3, e3) = set_acl_runtime_filter hci e2 in
      if r3 < 0 then Some (-1, sys_close hci e3)
      else let (printed, e4) = gatt_probe hci h (take 768 junk) (hci_request_conn_update hci h e3);
               (uhid, e5) = (if no_uhid then (-1, e4) else uhid_create_device ub e4) in
      if \<not> no_uhid \<and> uhid < 0 then Some (-1, sys_close hci e5)
      else let (r6, e6) = enable_notifications hci h (take 64 junk) e5 in
      if r6 < 0 then Some (-1, sys_close hci (uhid_destroy_device ub uhid e6))
      else map_option (\<lambda>e7. (0, sys_close hci (uhid_destroy_device ub uhid e7)))
             (notify_loop fuel ub h uhid (take 1024 junk) e6))"

section \<open>The program\<close>

record sw2d_options =
  o_bdaddr :: string
  o_hidraw :: string
  o_usb_init :: bool
  o_no_uhid :: bool

definition sw2d_defaults :: sw2d_options where
  "sw2d_defaults = \<lparr>o_bdaddr = DEFAULT_BDADDR, o_hidraw = ''/dev/hidraw0'', o_usb_init = False,
     o_no_uhid = False\<rparr>"

fun sw2d_parse_args :: "string list \<Rightarrow> sw2d_options \<Rightarrow> sw2d_options option" where
  "sw2d_parse_args [] w = Some w"
| "sw2d_parse_args (a # rest) w =
     (if a = ''--usb-init'' then sw2d_parse_args rest (w\<lparr>o_usb_init := True\<rparr>)
      else if a = ''--no-uhid'' then sw2d_parse_args rest (w\<lparr>o_no_uhid := True\<rparr>)
      else if a = ''--hidraw'' then
        (case rest of [] \<Rightarrow> None | v # rest' \<Rightarrow> sw2d_parse_args rest' (w\<lparr>o_hidraw := v\<rparr>))
      else if take 1 a = ''-'' then None
      else sw2d_parse_args rest (w\<lparr>o_bdaddr := a\<rparr>))"

text \<open>The reconnect loop of \<^verbatim>\<open>main\<close>: fuel for sessions and for the rounds of each.\<close>

fun sw2d_loop :: "nat \<Rightarrow> (uhid_event \<Rightarrow> bytes) \<Rightarrow> bytes \<Rightarrow> bytes \<Rightarrow> bool \<Rightarrow> nat \<Rightarrow> env \<Rightarrow> env option" where
  "sw2d_loop 0 ub junk peer no_uhid backoff e = None"
| "sw2d_loop (Suc fuel) ub junk peer no_uhid backoff e =
     (if \<not> running e then Some e
      else case run_session (Suc fuel) ub junk peer no_uhid e of
             None \<Rightarrow> None
           | Some (rc, e1) \<Rightarrow>
               if \<not> running e1 then Some e1
               else sw2d_loop fuel ub junk peer no_uhid (if backoff < 16 then backoff * 2 else backoff)
                      (sleep backoff e1))"

definition sw2d_main ::
  "nat \<Rightarrow> (uhid_event \<Rightarrow> bytes) \<Rightarrow> bytes \<Rightarrow> string list \<Rightarrow> env \<Rightarrow> (int \<times> env) option" where
  "sw2d_main fuel ub junk args e =
     (case sw2d_parse_args args sw2d_defaults of
        None \<Rightarrow> Some (2, e)
      | Some w \<Rightarrow>
         (case parse_bdaddr (o_bdaddr w) of
            None \<Rightarrow> Some (2, e)
          | Some peer \<Rightarrow>
              (case (if o_usb_init w then usb_init_controller e else (0, e)) of
                 (u, e1) \<Rightarrow>
                   if u < 0 then Some (1, e1)
                   else map_option (Pair 0)
                          (sw2d_loop fuel ub junk peer (o_no_uhid w) 1 e1))))"

end
