(* ===== verification/Sw2d_Packets.thy ===== *)
theory Sw2d_Packets
  imports Sw2d_Gamepad Daemon
begin

text \<open>
  The data formats of \<^verbatim>\<open>sw2d.c\<close>: ATT over ACL is the wire format of the other daemon
  and is read back, the HID report carries the sticks, and an address has the other byte
  order than everywhere else. The packet reader takes one packet from three datagrams.
\<close>

section \<open>ATT packets\<close>

text \<open>The message \<^verbatim>\<open>acl_send_att\<close> writes is the ACL packet of the transport, channel 4.\<close>

lemma write_full_at_once:
  "p \<noteq> [] \<Longrightarrow> writes e = [] \<Longrightarrow> write_full fd p 0 e = (int (length p), act (A_write fd p) e)"
  by (subst write_full.simps, simp, subst write_full.simps) (simp add: sys_write_def)

lemma acl_send_att_packet:
  assumes "\<not> 1024 < n" and "writes e = []"
  shows "acl_send_att fd h att n e = (0, act (A_write fd (acl_packet h SW2_ATT_CID att n)) e)"
  using write_full_at_once [of "acl_packet h SW2_ATT_CID att n"] assms
  by (simp add: acl_send_att_def acl_packet_def Let_def)

lemma att_packet_of_acl:
  assumes "length att = unat n" and "n \<le> 1024" and "unat n \<le> attsz"
  shows "att_packet (h AND 0x0fff) attsz (acl_packet h SW2_ATT_CID att n) = Some (Inr att)"
proof -
  let ?p = "acl_packet h SW2_ATT_CID att n"
  have n: "unat n \<le> 1024" using assms(2) by (simp add: word_le_nat_alt)
  then have "unat (4 + n) = 4 + unat n" by (simp add: unat_word_ariths)
  moreover have "length ?p = 9 + unat n" using length_acl_packet [OF assms(1)] assms(1) by simp
  moreover have "slice 9 (unat n) ?p = att"
    using assms(1) by (simp add: acl_packet_def slice_def put_le16_def)
  moreover have "get_le16 ?p (Suc 0) AND 0x0fff = h AND 0x0fff"
    using acl_packet_handle_12 [of h SW2_ATT_CID att n "[]"] by simp
  ultimately show ?thesis
    using acl_packet_lens [of h SW2_ATT_CID att n "[]"] n assms(3)
    by (simp add: att_packet_def Let_def acl_packet_type)
qed

definition enc_att :: "u16 \<times> bytes \<Rightarrow> bytes" where
  "enc_att = (\<lambda>(h, att). acl_packet h SW2_ATT_CID att (of_nat (length att)))"

definition dec_att :: "bytes \<Rightarrow> (u16 \<times> bytes) option" where
  "dec_att p = (let h = get_le16 p 1 AND 0x0fff in
     case att_packet h 1024 p of Some (Inr att) \<Rightarrow> Some (h, att) | _ \<Rightarrow> None)"

interpretation att: codec enc_att dec_att "\<lambda>(h, att). h AND 0x0fff = h \<and> length att \<le> 1024"
proof
  fix x :: "u16 \<times> bytes"
  obtain h att where x: "x = (h, att)" by fastforce
  assume "case x of (h, att) \<Rightarrow> h AND 0x0fff = h \<and> length att \<le> 1024"
  with x have h: "h AND 0x0fff = h" and l: "length att \<le> 1024" by simp_all
  from l have n: "length att = unat (of_nat (length att) :: u16)" by (simp add: unat_of_nat_u16)
  with l have "(of_nat (length att) :: u16) \<le> 1024" by (simp add: word_le_nat_alt)
  from att_packet_of_acl [OF n this, of 1024 h] h n l
  have "att_packet h 1024 (enc_att (h, att)) = Some (Inr att)" by (simp add: enc_att_def)
  moreover have "get_le16 (enc_att (h, att)) (Suc 0) AND 0x0fff = h"
    using acl_packet_handle_12 [of h SW2_ATT_CID att "of_nat (length att)" "[]"] h by (simp add: enc_att_def)
  ultimately show "dec_att (enc_att x) = Some x" by (simp add: x dec_att_def Let_def)
qed

text \<open>
  An ATT message that \<^verbatim>\<open>acl_send_att\<close> writes is, as it stands on the wire, a packet
  from which the reader of the peer (\<^verbatim>\<open>read_acl_att\<close>) extracts the message, for every
  handle and every length the sender accepts.
\<close>

theorem att_send_read_roundtrip:
  assumes "length att = unat n" and "n \<le> 1024" and "writes e = []"
  shows "\<exists>pkt. acl_send_att fd h att n e = (0, act (A_write fd pkt) e) \<and>
     att_packet (h AND 0x0fff) 1024 pkt = Some (Inr att)"
proof -
  have "\<not> 1024 < n" using assms(2) by simp
  moreover have "unat n \<le> 1024" using assms(2) by (simp add: word_le_nat_alt)
  ultimately show ?thesis using acl_send_att_packet assms(3) att_packet_of_acl [OF assms(1,2)] by blast
qed

theorem att_send_read_roundtrip_witness:
  "\<exists>pkt. acl_send_att 3 0x40 [0x0b, 7, 8, 9] 4 quiet_env = (0, act (A_write 3 pkt) quiet_env) \<and>
     att_packet 0x40 1024 pkt = Some (Inr [0x0b, 7, 8, 9])"
  using att_send_read_roundtrip [where att = "[0x0b, 7, 8, 9]" and n = 4 and e = quiet_env and fd = 3
    and h = "0x40"] by (simp add: quiet_env_def)

section \<open>The packet reader\<close>

lemma read_full_whole:
  assumes "reads e = R_data p # rs" and "k \<le> length p" "0 < k"
  shows "read_full k [] e = (int k, take k p, e\<lparr>reads := rs\<rparr>)"
  using assms by (subst read_full.simps, simp add: sys_read_def, subst read_full.simps) auto

lemma read_part_whole:
  assumes "reads e = R_data p # rs" and "k \<le> length p" "0 < k"
  shows "read_part k e = (Inr (take k p), e\<lparr>reads := rs\<rparr>)"
  using read_full_whole [OF assms] by (simp add: read_part_def)

text \<open>
  C37. On the datagram socket the daemon opens, where one \<^verbatim>\<open>read\<close> consumes one whole HCI
  packet, \<^verbatim>\<open>hci_read_packet\<close> builds its result from three packets: the type byte of the
  first, two bytes of the second taken as the event header, and as many bytes of the third
  as that header says. Nothing else of the three packets is ever seen.
\<close>

theorem packet_from_three_datagrams:
  assumes "polls e = Poll_ans t sg P_ready # ps"
    and "reads e = R_data p1 # R_data p2 # R_data p3 # rs"
    and "p1 \<noteq> []" "p1 ! 0 = HCI_EVENT_PKT" "2 \<le> length p2"
    and "unat (p2 ! 1) \<le> length p3" "p2 ! 1 \<noteq> 0" "3 + unat (p2 ! 1) \<le> bufsz"
  shows "\<exists>e'. hci_read_packet bufsz ms e =
      (3 + int (unat (p2 ! 1)), [HCI_EVENT_PKT, p2 ! 0, p2 ! 1] @ take (unat (p2 ! 1)) p3, e') \<and> reads e' = rs"
proof -
  obtain e1 where p: "sys_poll ms e = (1, e1)" and r: "reads e1 = reads e"
    using assms(1) by (simp add: sys_poll_def)
  have t1: "take 1 p1 = [HCI_EVENT_PKT]" using assms(3,4) by (cases p1) simp_all
  have t2: "take 2 p2 = [p2 ! 0, p2 ! 1]"
    using assms(5) by (cases p2; cases "tl p2") (auto simp: numeral_2_eq_2)
  have z: "0 < unat (p2 ! 1)" using assms(7) by (simp add: unat_gt_0)
  define e2 where "e2 = e1\<lparr>reads := R_data p2 # R_data p3 # rs\<rparr>"
  define e3 where "e3 = e1\<lparr>reads := R_data p3 # rs\<rparr>"
  have 1: "read_part 1 e1 = (Inr [HCI_EVENT_PKT], e2)"
    using read_part_whole [of e1 p1 "R_data p2 # R_data p3 # rs" 1] assms(2,3) r t1
    by (simp add: e2_def Suc_le_eq)
  have 2: "read_part 2 e2 = (Inr [p2 ! 0, p2 ! 1], e3)"
    using read_part_whole [of e2 p2 "R_data p3 # rs" 2] assms(5) t2 by (simp add: e2_def e3_def)
  have 3: "read_part (unat (p2 ! 1)) e3 = (Inr (take (unat (p2 ! 1)) p3), e1\<lparr>reads := rs\<rparr>)"
    using read_part_whole [of e3 p3 rs "unat (p2 ! 1)"] assms(6) z by (simp add: e3_def)
  from p 1 2 3 assms(6,8) show ?thesis
    by (simp add: hci_read_packet_def read_packet_body_def)
qed

text \<open>
  Three controller events, a connection, a command status and an encryption change: the
  result is none of them, and all three are gone.
\<close>

theorem packet_from_three_datagrams_witness:
  "\<exists>e'. hci_read_packet 260 100 (quiet_env\<lparr>polls := [Poll_ans 10 False P_ready],
       reads := [R_data [0x04, 0x3e, 4, 1, 0, 0x40, 0], R_data [0x04, 0x01, 0, 1],
                 R_data [0x04, 0x08, 4, 0, 0x40, 0, 1]]\<rparr>)
     = (4, [0x04, 0x04, 0x01, 0x04], e') \<and> reads e' = []"
  using packet_from_three_datagrams [of "quiet_env\<lparr>polls := [Poll_ans 10 False P_ready],
       reads := [R_data [0x04, 0x3e, 4, 1, 0, 0x40, 0], R_data [0x04, 0x01, 0, 1],
                 R_data [0x04, 0x08, 4, 0, 0x40, 0, 1]]\<rparr>" 10 False "[]" "[0x04, 0x3e, 4, 1, 0, 0x40, 0]"
       "[0x04, 0x01, 0, 1]" "[0x04, 0x08, 4, 0, 0x40, 0, 1]" "[]" 260 100]
  by simp

section \<open>The HID report\<close>

text \<open>The reader of two packed 12-bit values.\<close>

definition unpack12 :: "bytes \<Rightarrow> u16 \<times> u16" where
  "unpack12 p = (ucast (p ! 0) OR push_bit 8 (ucast (p ! 1 AND 0x0f)),
                 ucast (drop_bit 4 (p ! 1)) OR push_bit 4 (ucast (p ! 2)))"

lemma mask12: "(0x0fff :: u16) = mask 12" and mask4: "(0x0f :: byte) = mask 4"
  by (simp_all add: mask_eq_exp_minus_1)

lemma unpack_pack12:
  assumes "x AND 0x0fff = x" "y AND 0x0fff = y"
  shows "unpack12 (pack12 x y) = (x, y)"
proof -
  have x: "n < 12" if "bit x n" for n
    using assms that unfolding mask12 by (metis bit_and_iff bit_mask_iff)
  have y: "n < 12" if "bit y n" for n
    using assms that unfolding mask12 by (metis bit_and_iff bit_mask_iff)
  show ?thesis
    unfolding unpack12_def pack12_def prod.inject mask4
    by (auto intro!: bit_word_eqI simp: bit_simps) (linarith | (drule x, linarith) | (drule y, linarith))+
qed

interpretation sticks: fixed_codec "\<lambda>(x, y). pack12 x y" "\<lambda>p. Some (unpack12 p)"
  "\<lambda>(x, y). x AND 0x0fff = x \<and> y AND 0x0fff = y" 3
  by unfold_locales (auto simp: unpack_pack12, simp add: pack12_def)

lemma stick12_range: "stick12_at r len off AND 0x0fff = stick12_at r len off"
  by (simp add: stick12_at_def and.assoc)

text \<open>
  The HID report of \<^verbatim>\<open>sw2d.c\<close> carries the two button bytes and all four sticks of
  input report 0x09 (12 bits each, 2048 where the report is too short), but never a
  direction: its hat field is 8, centred, for every input.
\<close>

theorem report09_fields:
  assumes "report09_to_uhid r len outsz = Some q"
  shows "length q = 13 \<and> q ! 0 = 0x01 \<and> q ! 1 = r ! 1 \<and> q ! 2 = r ! 2 \<and>
     unpack12 (drop 4 q) = (stick12_at r len 3, stick12_at r len 5) \<and>
     unpack12 (drop 7 q) = (stick12_at r len 7, stick12_at r len 9) \<and> q ! 10 = 8"
proof -
  have b: "(ucast (get_le16 r 1) :: byte) = r ! 1" "(ucast (drop_bit 8 (get_le16 r 1)) :: byte) = r ! 2"
    by (rule bit_word_eqI; auto simp: get_le16_def bit_simps numeral_2_eq_2 dest: bit_imp_le_length)+
  have l: "length (pack12 x y) = 3" for x y by (simp add: pack12_def)
  then have u: "unpack12 (pack12 x y @ xs) = unpack12 (pack12 x y)" for x y xs
    by (simp add: unpack12_def nth_append)
  have p: "unpack12 (pack12 (stick12_at r len i) (stick12_at r len j) @ xs) = (stick12_at r len i, stick12_at r len j)" for i j xs
    unfolding u by (rule unpack_pack12 [OF stick12_range stick12_range])
  define m where "m = ((if get_le16 r 1 AND push_bit 6 1 \<noteq> 0 then 1 else 0 :: byte) OR
                       (if get_le16 r 1 AND push_bit 7 1 \<noteq> 0 then 2 else 0))"
  from assms have q: "q = [0x01, r ! 1, r ! 2, m] @ pack12 (stick12_at r len 3) (stick12_at r len 5) @
      pack12 (stick12_at r len 7) (stick12_at r len 9) @
      [8, if get_le16 r 1 AND push_bit 6 1 \<noteq> 0 then 0xff else 0x00,
          if get_le16 r 1 AND push_bit 7 1 \<noteq> 0 then 0xff else 0x00]"
    by (simp add: report09_to_uhid_def Let_def b [unfolded One_nat_def] m_def dpad_from_buttons_def split: if_splits)
  show ?thesis unfolding q by (simp add: p l nth_append)
qed

text \<open>Up is pressed (bit 7 of the second button byte in the controller's layout): hat 8.\<close>

theorem report09_fields_witness:
  "\<exists>q. report09_to_uhid [0x09, 0x00, 0x80, 0x34, 0x02, 0xff, 0x0f, 0, 8, 0, 8] 11 32 = Some q \<and>
     length q = 13 \<and> q ! 2 = 0x80 \<and> unpack12 (drop 4 q) = (0x234, 0xfff) \<and> q ! 10 = 8"
proof -
  let ?r = "[0x09, 0x00, 0x80, 0x34, 0x02, 0xff, 0x0f, 0, 8, 0, 8] :: bytes"
  have "report09_to_uhid ?r 11 32 \<noteq> None" by (simp add: report09_to_uhid_def Let_def)
  then obtain q where "report09_to_uhid ?r 11 32 = Some q" by auto
  moreover have "stick12_at ?r 11 3 = 0x234" "stick12_at ?r 11 5 = 0xfff" by code_simp+
  ultimately show ?thesis using report09_fields [of ?r 11 32 q] by simp
qed

section \<open>The byte order of addresses\<close>

lemma length_parse_bdaddr: "parse_bdaddr s = Some p \<Longrightarrow> length p = 6"
  by (auto simp: parse_bdaddr_def bind_eq_Some_conv dest: length_scan_fields split: if_splits)

lemma read_local_of_parse:
  assumes "parse_bdaddr (chomp line) = Some p" and "sysfs_address h = Some content"
    and "fgets 32 content = Some (line, rest)"
  shows "read_local_bdaddr h = Some (rev p)"
proof -
  from assms(1) obtain v r vs where "scan_hex2 (chomp line) = Some (v, r)" "scan_fields 5 r = Some vs"
    "p = map word_of_int (v # vs)"
    by (auto simp: parse_bdaddr_def bind_eq_Some_conv split: if_splits)
  with assms(2,3) show ?thesis by (simp add: read_local_bdaddr_def rev_map)
qed

text \<open>
  The two daemons disagree about an address text: \<^verbatim>\<open>parse_bdaddr\<close> of \<^verbatim>\<open>sw2d.c\<close>
  keeps the order of the text, and \<^verbatim>\<open>hci_connect_le\<close> puts those bytes into LE Create
  Connection as they are; \<^verbatim>\<open>read_local_bdaddr\<close> of \<^verbatim>\<open>sw2d_final.c\<close> reads the same
  text into the reversed order, the little-endian order HCI uses.
\<close>

theorem address_order_differs:
  assumes "parse_bdaddr (chomp line) = Some p" and "sysfs_address h = Some content"
    and "fgets 32 content = Some (line, rest)"
  shows "read_local_bdaddr h = Some (rev p) \<and> slice 6 6 (connect_params p) = p"
  using read_local_of_parse [OF assms] length_parse_bdaddr [OF assms(1)]
  by (simp add: connect_params_def slice_def put_le16_def)

theorem address_order_differs_witness:
  "\<exists>h. read_local_bdaddr h = Some [0x76, 0xC6, 0x3B, 0xBF, 0xEF, 0xE0] \<and>
     slice 6 6 (connect_params [0xE0, 0xEF, 0xBF, 0x3B, 0xC6, 0x76]) = [0xE0, 0xEF, 0xBF, 0x3B, 0xC6, 0x76]"
proof -
  let ?h = "\<lparr>str2ba = \<lambda>s. None, route = 0, euid = 0, paths = [],
     sysfs_address = Some ''E0:EF:BF:3B:C6:76'', cmdline = None, procs = None, procs_after_kill = None\<rparr> :: host"
  have "parse_bdaddr (chomp ''E0:EF:BF:3B:C6:76'') = Some [0xE0, 0xEF, 0xBF, 0x3B, 0xC6, 0x76]" by code_simp
  moreover have "fgets 32 ''E0:EF:BF:3B:C6:76'' = Some (''E0:EF:BF:3B:C6:76'', [])" by code_simp
  ultimately show ?thesis using address_order_differs [of "''E0:EF:BF:3B:C6:76''" _ ?h] by force
qed

end
