(* ===== verification/Unit_Tests.thy ===== *)
theory Unit_Tests
  imports Discovery
begin

text \<open>
  The unit tests in C of the repository, run on the model: the copies of program functions
  they test agree with the programs, and their checks hold. A test is the list of its checks;
  \<^verbatim>\<open>main\<close> returns 1 if one fails.
\<close>

definition test_exit :: "bool list \<Rightarrow> int" where
  "test_exit checks = (if list_ex Not checks then 1 else 0)"

section \<open>test_adv_parse.c\<close>

text \<open>Its copies of the two parsers. They return 1 or 0, and stop inside the loop.\<close>

definition test_manufacturer :: "bytes \<Rightarrow> nat \<Rightarrow> byte \<Rightarrow> bool" where
  "test_manufacturer data di el =
     (let cid = get_le16 data (di + 2); vid = get_le16 data (di + 4); pid = get_le16 data (di + 6)
      in (cid = 0x0553 \<and> vid = 0x057e \<and> pid = 0x2069) \<or>
         (cid = 0x0553 \<and> 10 \<le> el \<and> get_le16 data (di + 7) = 0x057e \<and> get_le16 data (di + 9) = 0x2069))"

function test_adv_loop :: "bytes \<Rightarrow> nat \<Rightarrow> nat \<Rightarrow> int" where
  "test_adv_loop data dlen di =
     (if di + 2 < dlen then
        (let el = data ! di; ty = data ! (di + 1)
         in if el = 0 \<or> dlen < di + 1 + unat el then 0
            else if ty = 0xff \<and> 7 \<le> el \<and> test_manufacturer data di el then 1
            else test_adv_loop data dlen (di + (1 + unat el)))
      else 0)"
  by pat_completeness auto
termination
  by (relation "measure (\<lambda>(data, dlen, di). dlen - di)") auto

declare test_adv_loop.simps [simp del]

definition test_adv_data :: "bytes \<Rightarrow> byte \<Rightarrow> int" where
  "test_adv_data data dlen = test_adv_loop data (unat dlen) 0"

function test_report_loop :: "bytes \<Rightarrow> nat \<Rightarrow> nat \<Rightarrow> nat \<Rightarrow> nat \<Rightarrow> (bytes \<times> byte) option" where
  "test_report_loop ev plen nrep ri off =
     (if ri < nrep \<and> off + 10 \<le> plen then
        (let dlen = ev ! (off + 8)
         in if plen < off + 10 + unat dlen then None
            else if test_adv_data (drop (off + 9) ev) dlen \<noteq> 0 then Some (slice (off + 2) 6 ev, ev ! (off + 1))
            else test_report_loop ev plen nrep (ri + 1) (off + (10 + unat dlen)))
      else None)"
  by pat_completeness auto
termination
  by (relation "measure (\<lambda>(ev, plen, nrep, ri, off). nrep - ri)") auto

declare test_report_loop.simps [simp del]

text \<open>\<^verbatim>\<open>parse_one_report\<close>: address and type where it returns 1.\<close>

definition parse_one_report :: "bytes \<Rightarrow> byte \<Rightarrow> (bytes \<times> byte) option" where
  "parse_one_report ev plen =
     (if plen < 3 \<or> ev ! 0 \<noteq> EVT_LE_ADV_REPORT then None
      else test_report_loop ev (unat plen) (unat (ev ! 1)) 0 2)"

text \<open>The copies agree with the program: on any data, and on any event whose length is honest.\<close>

lemma test_manufacturer_agrees:
  "7 \<le> el \<Longrightarrow> test_manufacturer data di el \<longleftrightarrow> manufacturer_match data (di + 2) el \<noteq> None"
proof -
  assume el: "7 \<le> el"
  have e: "di + 2 + 2 = di + 4" "di + 2 + 4 = di + 6" "di + 2 + 5 = di + 7" "di + 2 + 7 = di + 9" by simp_all
  show ?thesis
    unfolding test_manufacturer_def manufacturer_match_def Let_def e add_0_right
    using el by (cases "10 \<le> el") auto
qed

lemma test_adv_loop_agrees: "test_adv_loop data dlen di = (if adv_elements data dlen di = None then 0 else 1)"
proof (induction data dlen di rule: test_adv_loop.induct)
  case (1 data dlen di)
  show ?case
  proof (cases "di + 2 < dlen \<and> \<not> (data ! di = 0 \<or> dlen < di + 1 + unat (data ! di))")
    case True
    note IH = "1.IH" [OF conjunct1 [OF True] refl refl conjunct2 [OF True]]
    show ?thesis
      using True IH test_manufacturer_agrees [of "data ! di" data di]
      by (subst test_adv_loop.simps, subst adv_elements.simps) (auto simp: Let_def split: option.split)
  next
    case False
    then show ?thesis by (subst test_adv_loop.simps, subst adv_elements.simps) (auto simp: Let_def)
  qed
qed

lemma test_adv_data_agrees: "test_adv_data data dlen = (if adv_data_has_switch2_pro data dlen = None then 0 else 1)"
  by (simp add: test_adv_data_def adv_data_has_switch2_pro_def test_adv_loop_agrees)

lemma test_report_loop_agrees:
  assumes "drop (payload f) (raw f) = ev" "payload f \<le> length (raw f)" "plen \<le> length ev"
  shows "test_report_loop ev plen nrep ri off = scan_reports f plen nrep ri off"
  using assms
proof (induction ev plen nrep ri off rule: test_report_loop.induct)
  case (1 ev plen nrep ri off)
  have b: "pl_byte f i = ev ! i" for i using "1.prems" by (auto simp: pl_byte_def)
  have d: "drop (payload f + off + 9) (raw f) = drop (off + 9) ev"
    using "1.prems"(1) by (auto simp: ac_simps)
  have s: "pl_slice f (off + 2) 6 = slice (off + 2) 6 ev"
    using "1.prems"(1) by (auto simp: pl_slice_def slice_def ac_simps)
  show ?case
    using "1.IH" [OF _ refl _ _ "1.prems"]
    by (subst test_report_loop.simps, subst scan_reports.simps)
      (auto simp: Let_def b d s [simplified] test_adv_data_agrees split: option.split if_splits)
qed

lemma parse_one_report_agrees:
  assumes "pkt_type f = HCI_EVENT_PKT" "evt_code f = EVT_LE_META" "subevent f = pl_byte f 0"
    and "payload f = 3" "payload_len f = ucast plen" "raw_len f = 3 + ucast plen"
    and "3 + unat plen \<le> length (raw f)"
  shows "parse_one_report (drop 3 (raw f)) plen = scan_frame f"
proof -
  have "ucast plen < (3 :: u16) \<longleftrightarrow> plen < 3" by (simp add: word_less_nat_alt)
  moreover have "pl_byte f i = drop 3 (raw f) ! i" for i using assms(4,7) by (simp add: pl_byte_def)
  moreover have "test_report_loop (drop 3 (raw f)) (unat plen) n 0 2 = scan_reports f (unat plen) n 0 2" for n
    by (rule test_report_loop_agrees) (use assms in simp_all)
  ultimately show ?thesis using assms by (simp add: parse_one_report_def scan_frame_def)
qed

text \<open>\<^verbatim>\<open>build_report\<close> fills a buffer of 128 bytes with an event of one report.\<close>

definition build_report :: "byte \<Rightarrow> bytes \<Rightarrow> bytes \<Rightarrow> bytes" where
  "build_report addr_type addr adv =
     overwrite (replicate 128 0)
       ([HCI_EVENT_PKT, EVT_LE_META, of_nat (2 + 10 + length adv), EVT_LE_ADV_REPORT, 1, 0x00, addr_type] @
        addr @ [of_nat (length adv)] @ adv @ [0xc3])"

lemma build_report_event:
  "build_report at addr (tlv els) = overwrite (replicate 128 0) (adv_event [(0x00, at, addr, els, 0xc3)])"
  if "length addr = 6"
  using that by (simp add: build_report_def adv_event_def event_packet_def report_bytes_def)

definition phase_a_mfg :: bytes where
  "phase_a_mfg =
     [0x01, 0x00, 0x03, 0x7e, 0x05, 0x69, 0x20, 0x00, 0x01, 0x00, 0x31, 0xf8, 0x94, 0x55, 0xe2, 0x98,
      0x0f, 0x00, 0x00, 0x00, 0x00, 0x00, 0x00, 0x00]"

definition adv_test_checks :: "bool list" where
  "adv_test_checks =
     (let addr = [0x76, 0xc6, 0x3b, 0xbf, 0xef, 0xe0];
          adv = [0x02, 0x01, 0x06, of_nat (length phase_a_mfg + 3), 0xff, 0x53, 0x05] @ phase_a_mfg;
          n = of_nat (length adv);
          buf = build_report 0x01 addr adv;
          found = parse_one_report (drop 3 buf) (buf ! 2);
          bad = adv[12 := 0x66, 13 := 0x20]
      in [test_adv_data adv n = 1, found \<noteq> None, map_option snd found = Some 0x01,
          map_option (rev \<circ> fst) found = Some [0xE0, 0xEF, 0xBF, 0x3B, 0xC6, 0x76],
          test_adv_data bad n = 0])"

section \<open>test_args.c\<close>

definition parse_addr_type_cli :: "string option \<Rightarrow> byte option" where
  "parse_addr_type_cli s =
     (if s = Some ''public'' then Some 0x00 else if s = Some ''random'' then Some 0x01
      else if s = Some ''auto'' then Some 0xff else None)"

definition addr_type_str :: "byte \<Rightarrow> string" where
  "addr_type_str t = (if t = 0x00 then ''public'' else if t = 0x01 then ''random''
     else if t = 0xff then ''auto'' else ''unknown'')"

definition args_test_checks :: "bool list" where
  "args_test_checks =
     [parse_addr_type_cli (Some ''public'') = Some 0x00, parse_addr_type_cli (Some ''random'') = Some 0x01,
      parse_addr_type_cli (Some ''auto'') = Some 0xff, parse_addr_type_cli (Some ''invalid'') = None,
      parse_addr_type_cli None = None, parse_addr_type_cli (Some []) = None,
      addr_type_str 0x00 = ''public'', addr_type_str 0x01 = ''random'', addr_type_str 0xff = ''auto'',
      addr_type_str 0x42 = ''unknown'']"

text \<open>
  The names of the test are those of the program for the two types of addresses; the third
  is "unknown" there, and what the program takes as a type on its command line is otherwise
  public.
\<close>

lemma addr_type_names: "t \<noteq> 0xff \<Longrightarrow> addr_type_str t = addr_type_name t"
  by (simp add: addr_type_str_def addr_type_name_def)

lemma addr_type_of_options:
  "parse_addr_type_cli (Some (own_type_s opts)) = Some v \<Longrightarrow> v \<noteq> 0xff \<Longrightarrow> snd (snd (resolve_types opts)) = v"
  "parse_addr_type_cli (Some (own_type_s opts)) = None \<Longrightarrow> snd (snd (resolve_types opts)) = LE_PUBLIC_ADDRESS"
  by (auto simp: parse_addr_type_cli_def resolve_types_def Let_def split: if_splits)

section \<open>test_hci_frame.c\<close>

text \<open>A pipe holds the bytes of the packet; the frame was cleared.\<close>

definition feed_and_read :: "bytes \<Rightarrow> int \<times> frame" where
  "feed_and_read pkt =
     (case hci_user_read_frame zero_frame 100
             (quiet_env\<lparr>polls := [Poll_ans 0 False P_ready], reads := [R_data pkt]\<rparr>) of
        (rc, f, e) \<Rightarrow> (rc, f))"

definition frame_test_checks :: "bool list" where
  "frame_test_checks =
     (let (r1, enc) = feed_and_read [0x04, 0x08, 0x04, 0x00, 0x40, 0x00, 0x01];
          (r2, ltk) = feed_and_read [0x04, 0x3e, 0x0d, 0x05, 0x40, 0x00, 0, 1, 2, 3, 4, 5, 6, 7, 0x34, 0x12];
          (r3, smp) = feed_and_read [0x02, 0x40, 0x20, 0x07, 0x00, 0x03, 0x00, 0x06, 0x00, 0x0b, 0x01, 0x00]
      in [r1 = 1, pkt_type enc = HCI_EVENT_PKT, evt_code enc = EVT_ENCRYPT_CHANGE, status enc = 0x00,
          handle enc = 0x0040, payload enc = 3 \<and> pl_byte enc 0 = 0x00,
          r2 = 1, evt_code ltk = EVT_LE_META, subevent ltk = 0x05, payload ltk = 3 \<and> pl_byte ltk 1 = 0x40,
          r3 = 1, pkt_type smp = HCI_ACLDATA_PKT, handle smp = 0x0040, cid smp = 0x0006,
          payload smp = 9 \<and> pl_byte smp 0 = 0x0b])"

section \<open>The tests pass\<close>

lemma frame_checks_hold: "list_all (\<lambda>b. b) frame_test_checks"
  by code_simp

lemma adv_checks_hold: "list_all (\<lambda>b. b) adv_test_checks"
  by code_simp

lemma args_checks_hold: "list_all (\<lambda>b. b) args_test_checks"
  by code_simp

lemma test_exit_0: "test_exit checks = 0 \<longleftrightarrow> list_all (\<lambda>b. b) checks"
  by (simp add: test_exit_def list_ex_iff list_all_iff)

text \<open>
  The mains of the three tests return 0, and the parsers the first of them tests are the
  parsers of the program: on every buffer the same data is recognised, and on every event
  that is as long as it says the same report is selected.
\<close>

theorem unit_tests_pass:
  "test_exit frame_test_checks = 0 \<and> test_exit adv_test_checks = 0 \<and> test_exit args_test_checks = 0 \<and>
   (\<forall>data n. test_adv_data data n \<noteq> 0 \<longleftrightarrow> adv_data_has_switch2_pro data n \<noteq> None)"
  by (simp add: test_exit_0 frame_checks_hold adv_checks_hold args_checks_hold test_adv_data_agrees)

end
