(* ===== verification/Address_Text.thy ===== *)
theory Address_Text
  imports Sw2d_Packets Unit_Tests
begin

text \<open>
  Bluetooth addresses as text: what is printed with \<^verbatim>\<open>%02x\<close> or \<^verbatim>\<open>%02X\<close> and
  colons is read back by the three parsers of the repository, and the test of the addresses
  (\<^verbatim>\<open>test_bdaddr.c\<close>) run on the model.
\<close>

section \<open>The conversion %x\<close>

text \<open>
  \<^verbatim>\<open>%x\<close> without a width, as the C library reads it: white space, a sign, \<^verbatim>\<open>0x\<close>,
  then all hexadecimal digits, converted by \<^verbatim>\<open>strtoul\<close> (64 bits, the greatest value on
  overflow) and stored as an \<^verbatim>\<open>unsigned int\<close>.
\<close>

fun digits_of :: "int \<Rightarrow> string \<Rightarrow> int \<times> string" where
  "digits_of acc [] = (acc, [])"
| "digits_of acc (c # s) = (case hex_digit c of None \<Rightarrow> (acc, c # s) | Some v \<Rightarrow> digits_of (16 * acc + int v) s)"

definition strtoul_word :: "bool \<Rightarrow> int \<Rightarrow> u32" where
  "strtoul_word neg v = (if 2 ^ 64 \<le> v then -1 else if neg then - word_of_int v else word_of_int v)"

fun scan_sign :: "string \<Rightarrow> bool \<times> string" where
  "scan_sign [] = (False, [])"
| "scan_sign (c # s) = (if c = CHR ''-'' then (True, s) else if c = CHR ''+'' then (False, s) else (False, c # s))"

definition scan_hex :: "string \<Rightarrow> (u32 \<times> string) option" where
  "scan_hex s = (let (neg, s1) = scan_sign (dropWhile is_space s)
     in if take 2 s1 = ''0x'' \<or> take 2 s1 = ''0X'' then
          (let (v, r) = digits_of 0 (drop 2 s1) in Some (strtoul_word neg v, r))
        else if s1 = [] \<or> hex_digit (hd s1) = None then None
        else (let (v, r) = digits_of 0 s1 in Some (strtoul_word neg v, r)))"

fun scan_hex_fields :: "nat \<Rightarrow> string \<Rightarrow> u32 list option" where
  "scan_hex_fields 0 s = Some []"
| "scan_hex_fields (Suc n) s = Option.bind (expect_colon s) (\<lambda>s1.
     Option.bind (scan_hex s1) (\<lambda>(v, s2). map_option ((#) v) (scan_hex_fields n s2)))"

section \<open>test_bdaddr.c\<close>

text \<open>\<^verbatim>\<open>parse_colon_bytes\<close>; \<open>None\<close> is the return code -1 (and the argument NULL).\<close>

definition parse_colon_bytes :: "string option \<Rightarrow> bytes option" where
  "parse_colon_bytes arg =
     (case arg of None \<Rightarrow> None
      | Some s \<Rightarrow> Option.bind (scan_hex s) (\<lambda>(v, rest).
          Option.bind (scan_hex_fields 5 rest) (\<lambda>vs.
            if list_ex (\<lambda>a. a > 0xff) (v # vs) then None else Some (map ucast (v # vs)))))"

text \<open>\<^verbatim>\<open>get_local_bdaddr_text\<close> with the answer of \<^verbatim>\<open>hci_devba\<close> and \<^verbatim>\<open>ba2str\<close>.\<close>

definition get_local_bdaddr_text :: "(bytes \<Rightarrow> string) \<Rightarrow> bytes option \<Rightarrow> nat \<Rightarrow> string option" where
  "get_local_bdaddr_text to_text devba txtsz =
     (case devba of None \<Rightarrow> None
      | Some ba \<Rightarrow> (let txt = to_text ba in if txtsz \<le> length txt then None else Some txt))"

text \<open>The checks of \<^verbatim>\<open>main\<close>; the functions of the Bluetooth library are arguments.\<close>

definition bdaddr_test_checks ::
  "(string \<Rightarrow> bytes option) \<Rightarrow> (bytes \<Rightarrow> string) \<Rightarrow> bytes option \<Rightarrow> bool list" where
  "bdaddr_test_checks of_text to_text devba =
     [parse_colon_bytes (Some ''AA:BB:CC:DD:EE:FF'') = Some [0xAA, 0xBB, 0xCC, 0xDD, 0xEE, 0xFF],
      parse_colon_bytes (Some ''00:00:00:00:00:00'') = Some [0, 0, 0, 0, 0, 0],
      parse_colon_bytes (Some ''0a:1b:2c:3d:4e:5f'') = Some [0x0a, 0x1b, 0x2c, 0x3d, 0x4e, 0x5f],
      parse_colon_bytes (Some ''a0:b1:c2:d3:e4:f5'') = Some [0xa0, 0xb1, 0xc2, 0xd3, 0xe4, 0xf5],
      parse_colon_bytes (Some ''not:valid'') = None, parse_colon_bytes None = None,
      parse_colon_bytes (Some ''AA:BB:1FF:DD:EE:FF'') = None,
      of_text (to_text [0x11, 0x22, 0x33, 0x44, 0x55, 0x66]) = Some [0x11, 0x22, 0x33, 0x44, 0x55, 0x66]] @
     (case get_local_bdaddr_text to_text devba 18 of
        Some txt \<Rightarrow> [of_text txt \<noteq> None]
      | None \<Rightarrow> [])"

section \<open>Printing\<close>

definition hex_char :: "bool \<Rightarrow> nat \<Rightarrow> char" where
  "hex_char up n = char_of (if n < 10 then 48 + n else (if up then 55 else 87) + n)"

text \<open>\<^verbatim>\<open>%02x\<close> or, with \<open>up\<close>, \<^verbatim>\<open>%02X\<close>; six of them with colons are an address.\<close>

definition byte_text :: "bool \<Rightarrow> byte \<Rightarrow> string" where
  "byte_text up b = [hex_char up (unat b div 16), hex_char up (unat b mod 16)]"

definition colon_text :: "bool \<Rightarrow> bytes \<Rightarrow> string" where
  "colon_text up bs = concat (map (\<lambda>b. CHR '':'' # byte_text up b) bs)"

definition address_text :: "bool \<Rightarrow> bytes \<Rightarrow> string" where
  "address_text up a = tl (colon_text up a)"

text \<open>What \<^verbatim>\<open>main\<close> of \<^verbatim>\<open>sw2d_final.c\<close> prints as the address of the host.\<close>

definition host_bdaddr_text :: "host \<Rightarrow> string option" where
  "host_bdaddr_text h = map_option (\<lambda>b. address_text False [b ! 5, b ! 4, b ! 3, b ! 2, b ! 1, b ! 0]) (read_local_bdaddr h)"

lemma of_hex_char:
  "n < 16 \<Longrightarrow> (of_char (hex_char up n) :: nat) = (if n < 10 then 48 + n else (if up then 55 else 87) + n)"
  by (simp add: hex_char_def)

lemma hex_char_facts:
  assumes "n < 16"
  shows "hex_digit (hex_char up n) = Some n" "\<not> is_space (hex_char up n)"
    "hex_char up n \<notin> {CHR ''+'', CHR ''-'', CHR ''x'', CHR ''X'', CHR '':'', CHR 0x00, newline}"
proof -
  note o = of_hex_char [OF assms, of up]
  show "hex_digit (hex_char up n) = Some n"
    using assms by (simp add: hex_digit_def o Let_def)
  have "48 \<le> (of_char (hex_char up n) :: nat)" using o by simp
  then show "\<not> is_space (hex_char up n)" by (auto simp: is_space_def)
  have "(of_char (hex_char up n) :: nat) \<notin> {0, 10, 43, 45, 58, 88, 120}" using o assms by auto
  then show "hex_char up n \<notin> {CHR ''+'', CHR ''-'', CHR ''x'', CHR ''X'', CHR '':'', CHR 0x00, newline}"
    by (auto simp: newline_def)
qed

lemma nibbles: "unat (b :: byte) div 16 < 16" "unat b mod 16 < 16"
  using unat_byte_less [of b] by (simp_all add: less_mult_imp_div_less)

lemma scan_hex2_byte_text: "scan_hex2 (byte_text up b @ r) = Some (uint b, r)"
proof -
  note n = nibbles [of b]
  have "int (16 * (unat b div 16) + unat b mod 16) = uint b" by simp
  then show ?thesis
    using hex_char_facts [OF n(1), of up] hex_char_facts(1) [OF n(2), of up]
    by (simp add: scan_hex2_def byte_text_def)
qed

lemma scan_fields_colon_text: "scan_fields (length bs) (colon_text up bs @ r) = Some (map uint bs)"
  by (induction bs) (simp_all add: colon_text_def scan_hex2_byte_text)

lemma scan_hex_byte_text:
  assumes "r = [] \<or> hd r = CHR '':''"
  shows "scan_hex (byte_text up b @ r) = Some (ucast b, r)"
proof -
  note n = nibbles [of b]
  have r: "digits_of v r = (v, r)" for v
    using assms by (cases r) (simp_all add: hex_digit_def)
  have "int (16 * (unat b div 16) + unat b mod 16) = uint b" by simp
  then have i: "16 * int (unat b div 16) + int (unat b mod 16) = uint b"
    by (simp only: of_nat_add of_nat_mult of_nat_numeral)
  have v: "strtoul_word False (uint b) = ucast b"
    using uint_lt2p [of b] by (simp add: strtoul_word_def)
  show ?thesis
    using hex_char_facts [OF n(1), of up] hex_char_facts [OF n(2), of up] v
    by (simp add: scan_hex_def byte_text_def r i)
qed

lemma scan_hex_fields_colon_text: "scan_hex_fields (length bs) (colon_text up bs) = Some (map ucast bs)"
proof (induction bs)
  case (Cons b bs)
  have "colon_text up bs = [] \<or> hd (colon_text up bs) = CHR '':''" by (cases bs) (simp_all add: colon_text_def)
  from scan_hex_byte_text [OF this] Cons show ?case by (simp add: colon_text_def)
qed (simp add: colon_text_def)

text \<open>An address is read back, and the line of a file that holds it.\<close>

lemma address_text_Cons: "address_text up (b # bs) = byte_text up b @ colon_text up bs"
  by (simp add: address_text_def colon_text_def)

lemma parse_bdaddr_text: "length a = 6 \<Longrightarrow> parse_bdaddr (address_text up a) = Some a"
proof (cases a)
  case (Cons b bs)
  assume "length a = 6"
  with Cons have "length bs = 5" by simp
  with scan_fields_colon_text [of bs up "[]"] have f: "scan_fields 5 (colon_text up bs) = Some (map uint bs)" by simp
  have "uint x \<le> 0xff" for x :: byte using uint_lt2p [of x] by simp
  with f Cons show ?thesis
    by (simp add: parse_bdaddr_def address_text_Cons scan_hex2_byte_text list_all_iff comp_def)
qed simp

lemma parse_colon_text: "length a = 6 \<Longrightarrow> parse_colon_bytes (Some (address_text up a)) = Some a"
proof (cases a)
  case (Cons b bs)
  assume "length a = 6"
  with Cons have l: "length bs = 5" by simp
  have f: "scan_hex_fields 5 (colon_text up bs) = Some (map ucast bs)"
    using scan_hex_fields_colon_text [of bs up] by (simp only: l)
  have c: "colon_text up bs = [] \<or> hd (colon_text up bs) = CHR '':''" by (cases bs) (simp_all add: colon_text_def)
  have "\<not> ucast x > (0xff :: u32)" for x :: byte
  proof -
    have "unat (ucast x :: u32) = unat x"
      using less_trans [OF unat_byte_less [of x], of "2 ^ 32"] by (simp add: unsigned_ucast_eq take_bit_nat_eq_self)
    moreover have "unat x \<le> 255" using unat_byte_less [of x] by linarith
    ultimately show ?thesis by (simp add: word_less_nat_alt not_less)
  qed
  moreover have "(ucast (ucast x :: u32) :: byte) = x" for x by (rule bit_word_eqI) (simp add: bit_simps)
  ultimately show ?thesis
    using f scan_hex_byte_text [OF c] Cons
    by (simp add: parse_colon_bytes_def address_text_Cons list_ex_iff comp_def)
qed simp

lemma plain_byte_text: "set (byte_text up b) \<inter> {CHR 0x00, newline} = {}"
  using hex_char_facts(3) [OF nibbles(1), of up b] hex_char_facts(3) [OF nibbles(2), of up b]
  by (auto simp: byte_text_def)

lemma plain_colon_text: "set (colon_text up bs) \<inter> {CHR 0x00, newline} = {}"
proof (induction bs)
  case (Cons b bs)
  with plain_byte_text [of up b] show ?case by (auto simp: colon_text_def newline_def)
qed (simp add: colon_text_def)

lemma plain_address_text: "set (address_text up a) \<inter> {CHR 0x00, newline} = {}"
  using plain_colon_text [of up a] list.set_sel(2) [of "colon_text up a"]
  by (cases "colon_text up a") (auto simp: address_text_def)

lemma length_colon_text: "length (colon_text up bs) = 3 * length bs"
  by (induction bs) (simp_all add: colon_text_def byte_text_def)

lemma fgets_line_newline:
  "newline \<notin> set t \<Longrightarrow> length t < n \<Longrightarrow> fgets_line n (t @ newline # rest) = (t @ [newline], rest)"
proof (induction t arbitrary: n)
  case Nil
  then show ?case by (cases n) simp_all
next
  case (Cons c t)
  then obtain m where "n = Suc m" by (cases n) simp_all
  with Cons show ?case by auto
qed

lemma chomp_line: "set t \<inter> {CHR 0x00, newline} = {} \<Longrightarrow> chomp (t @ [newline]) = t"
proof -
  assume t: "set t \<inter> {CHR 0x00, newline} = {}"
  then have "cstr (t @ [newline]) = t @ [newline]"
    by (auto simp: cstr_def newline_def takeWhile_eq_all_conv)
  with t show ?thesis by (auto simp: chomp_def takeWhile_tail)
qed

text \<open>
  C38. Address texts round trip through every parser of the repository: six bytes printed in
  lower or upper case with colons are read back by \<^verbatim>\<open>parse_bdaddr\<close> of \<^verbatim>\<open>sw2d.c\<close> and by
  \<^verbatim>\<open>parse_colon_bytes\<close> of the tests in the order of the text, and, as a line of the sysfs
  file, by \<^verbatim>\<open>read_local_bdaddr\<close> of \<^verbatim>\<open>sw2d_final.c\<close> in reverse, whose \<^verbatim>\<open>main\<close> prints
  the text again. The two daemons disagree: HCI wants the bytes in reverse, but \<^verbatim>\<open>sw2d.c\<close>
  puts them into LE Create Connection in the order of the text.
\<close>

theorem address_text_roundtrip:
  assumes "length a = 6" and "sysfs_address h = Some (address_text up a @ newline # rest)"
  shows "parse_bdaddr (address_text up a) = Some a \<and> parse_colon_bytes (Some (address_text up a)) = Some a \<and>
    read_local_bdaddr h = Some (rev a) \<and> host_bdaddr_text h = Some (address_text False a) \<and>
    slice 6 6 (connect_params a) = a"
proof -
  have p: "parse_bdaddr (address_text up a) = Some a" by (rule parse_bdaddr_text [OF assms(1)])
  have "length (address_text up a) = 17" using assms(1) by (simp add: address_text_def length_colon_text)
  then have "fgets 32 (address_text up a @ newline # rest) = Some (address_text up a @ [newline], rest)"
    using plain_address_text [of up a] by (simp add: fgets_def fgets_line_newline)
  from read_local_of_parse [OF _ assms(2) this] p
  have r: "read_local_bdaddr h = Some (rev a)" by (simp add: chomp_line [OF plain_address_text])
  have "[rev a ! 5, rev a ! 4, rev a ! 3, rev a ! 2, rev a ! 1, rev a ! 0] = a"
    using assms(1) by (simp add: numeral_eq_Suc length_Suc_conv) auto
  with r have "host_bdaddr_text h = Some (address_text False a)" by (simp add: host_bdaddr_text_def)
  moreover have "slice 6 6 (connect_params a) = a" using assms(1) by (simp add: connect_params_def slice_def put_le16_def)
  ultimately show ?thesis using p r parse_colon_text [OF assms(1), of up] by blast
qed

theorem address_text_roundtrip_witness:
  "\<exists>h. read_local_bdaddr h = Some [0x76, 0xC6, 0x3B, 0xBF, 0xEF, 0xE0] \<and>
     host_bdaddr_text h = Some (address_text False [0xE0, 0xEF, 0xBF, 0x3B, 0xC6, 0x76])"
proof -
  let ?a = "[0xE0, 0xEF, 0xBF, 0x3B, 0xC6, 0x76] :: bytes"
  let ?h = "\<lparr>str2ba = \<lambda>s. None, route = 0, euid = 0, paths = [], sysfs_address = Some (address_text True ?a @ [newline]),
     cmdline = None, procs = None, procs_after_kill = None\<rparr> :: host"
  have "length ?a = 6" "sysfs_address ?h = Some (address_text True ?a @ newline # [])" by simp_all
  from address_text_roundtrip [OF this] show ?thesis by auto
qed

section \<open>The test passes\<close>

text \<open>
  With a library that prints an address last byte first and reads it so, as
  \<^verbatim>\<open>ba2str\<close> and \<^verbatim>\<open>str2ba\<close> do, the test returns 0, with or without an adapter.
\<close>

definition print_ba :: "bytes \<Rightarrow> string" where
  "print_ba ba = address_text True (rev ba)"

definition read_ba :: "string \<Rightarrow> bytes option" where
  "read_ba s = map_option rev (parse_colon_bytes (Some s))"

lemma read_print_ba: "length ba = 6 \<Longrightarrow> read_ba (print_ba ba) = Some ba"
  using parse_colon_text [of "rev ba" True] by (simp add: read_ba_def print_ba_def)

lemma bdaddr_checks_hold:
  "pred_option (\<lambda>ba. length ba = 6) devba \<Longrightarrow>
     list_all (\<lambda>b. b) (bdaddr_test_checks read_ba print_ba devba)"
proof -
  assume d: "pred_option (\<lambda>ba. length ba = 6) devba"
  have "list_all (\<lambda>b. b) (bdaddr_test_checks read_ba print_ba None)" by code_simp
  moreover have "list_all (\<lambda>b. b) (case get_local_bdaddr_text print_ba devba 18 of
      Some txt \<Rightarrow> [read_ba txt \<noteq> None] | None \<Rightarrow> [])"
    using d by (auto simp: get_local_bdaddr_text_def read_print_ba Let_def split: option.splits)
  ultimately show ?thesis by (simp add: bdaddr_test_checks_def get_local_bdaddr_text_def)
qed

lemma bdaddr_test_passes:
  "pred_option (\<lambda>ba. length ba = 6) devba \<Longrightarrow> test_exit (bdaddr_test_checks read_ba print_ba devba) = 0"
  by (simp add: test_exit_0 bdaddr_checks_hold)

end
