(* ===== verification/Forwarding.thy ===== *)
theory Forwarding
  imports Gatt_Exchange Sw2d_Packets
begin

text \<open>
  What the report loop of \<^verbatim>\<open>sw2d.c\<close> does with a stream of ATT messages: it writes
  exactly the HID reports of the input reports in it to the virtual gamepad, in order.
\<close>

section \<open>Packets that arrive as a byte stream\<close>

text \<open>
  Each \<^verbatim>\<open>read\<close> finds what it asks for: the type byte, the rest of the header, the body.
\<close>

definition stream_packet :: "bytes \<Rightarrow> read_ans list" where
  "stream_packet p =
     (let k = (if p ! 0 = HCI_EVENT_PKT then 3 else 5)
      in [R_data (take 1 p), R_data (take (k - 1) (drop 1 p)), R_data (drop k p)])"

lemma read_part_exact:
  "reads e = R_data p # rs \<Longrightarrow> length p = k \<Longrightarrow> p \<noteq> [] \<Longrightarrow> read_part k e = (Inr p, e\<lparr>reads := rs\<rparr>)"
  using read_part_whole [of e p rs k] by auto

lemma ready_poll: "ready e (poll_ok dt # ps) rs \<Longrightarrow> sys_poll t e = (1, after_read dt False ps rs e)"
  by (simp add: ready_def sys_poll_def poll_ok_def after_read_def Let_def)

lemma stream_parts:
  assumes "5 \<le> length p"
  shows "p = take 1 p @ take 4 (drop 1 p) @ drop 5 p" "take 1 p ! 0 = p ! 0"
    "get_le16 (take 4 (drop 1 p)) 2 = get_le16 p 3"
proof -
  have "take 4 (drop 1 p) @ drop 5 p = drop 1 p" using append_take_drop_id [of 4 "drop 1 p"] by simp
  then show "p = take 1 p @ take 4 (drop 1 p) @ drop 5 p" by simp
  show "take 1 p ! 0 = p ! 0" by simp
  show "get_le16 (take 4 (drop 1 p)) 2 = get_le16 p 3" using assms by (simp add: get_le16_def eval_nat_numeral)
qed

lemma read_packet_stream_acl:
  assumes "ready e (poll_ok dt # ps) (stream_packet p @ rs)"
    and "p ! 0 = HCI_ACLDATA_PKT" "length p = 5 + unat (get_le16 p 3)" "5 < length p" "length p \<le> 2048"
  shows "hci_read_packet 2048 t e = (int (length p), p, after_read dt False ps rs e)"
proof -
  let ?e1 = "after_read dt False ps (stream_packet p @ rs) e"
  let ?a = "take 1 p" and ?b = "take 4 (drop 1 p)" and ?c = "drop 5 p"
  note parts = stream_parts [of p]
  have s: "stream_packet p = [R_data ?a, R_data ?b, R_data ?c]" using assms(2) by (simp add: stream_packet_def)
  have l: "length ?a = 1" "length ?b = 4" "length ?c = unat (get_le16 p 3)" using assms(3,4) by auto
  have n: "?a \<noteq> []" "?b \<noteq> []" "?c \<noteq> []" using assms(4) by auto
  have 1: "read_part 1 ?e1 = (Inr ?a, ?e1\<lparr>reads := [R_data ?b, R_data ?c] @ rs\<rparr>)"
    by (rule read_part_exact [OF _ l(1) n(1)]) (simp add: s)
  have 2: "read_part 4 (?e1\<lparr>reads := [R_data ?b, R_data ?c] @ rs\<rparr>) = (Inr ?b, ?e1\<lparr>reads := R_data ?c # rs\<rparr>)"
    using read_part_exact [OF _ l(2) n(2), of "?e1\<lparr>reads := [R_data ?b, R_data ?c] @ rs\<rparr>" "R_data ?c # rs"] by simp
  have 3: "read_part (unat (get_le16 p 3)) (?e1\<lparr>reads := R_data ?c # rs\<rparr>) = (Inr ?c, ?e1\<lparr>reads := rs\<rparr>)"
    using read_part_exact [OF _ l(3) n(3), of "?e1\<lparr>reads := R_data ?c # rs\<rparr>" rs] by simp
  have "read_packet_body 2048 ?e1 = (Inr (?a @ ?b @ ?c), ?e1\<lparr>reads := rs\<rparr>)"
    using 1 2 3 assms(2-5) parts(2,3) by (simp add: read_packet_body_def)
  moreover have "?a @ ?b @ ?c = p" using parts(1) assms(4) by simp
  moreover have "?e1\<lparr>reads := rs\<rparr> = after_read dt False ps rs e" by (simp add: after_read_def)
  ultimately show ?thesis using ready_poll [OF assms(1)] by (simp add: hci_read_packet_def)
qed

lemma read_packet_stream_event:
  assumes "ready e (poll_ok dt # ps) (stream_packet (event_packet code params) @ rs)"
    and "0 < length params" "length params \<le> 255" "3 + length params \<le> bufsz"
  shows "hci_read_packet bufsz t e =
    (3 + int (length params), event_packet code params, after_read dt False ps rs e)"
proof -
  let ?n = "of_nat (length params) :: byte"
  let ?e1 = "after_read dt False ps (stream_packet (event_packet code params) @ rs) e"
  have u: "unat ?n = length params" using assms(3) by (intro unat_of_nat_byte) simp
  have p: "event_packet code params = [0x04, code, ?n] @ params" by (simp add: event_packet_def)
  have s: "stream_packet (event_packet code params) = [R_data [0x04], R_data [code, ?n], R_data params]"
    by (simp add: stream_packet_def p numeral_3_eq_3)
  have 1: "read_part 1 ?e1 = (Inr [0x04], ?e1\<lparr>reads := [R_data [code, ?n], R_data params] @ rs\<rparr>)"
    by (rule read_part_exact) (simp_all add: s)
  have 2: "read_part 2 (?e1\<lparr>reads := [R_data [code, ?n], R_data params] @ rs\<rparr>) =
      (Inr [code, ?n], ?e1\<lparr>reads := R_data params # rs\<rparr>)"
    using read_part_exact [of "?e1\<lparr>reads := [R_data [code, ?n], R_data params] @ rs\<rparr>" "[code, ?n]"
        "R_data params # rs" 2] by simp
  have 3: "read_part (length params) (?e1\<lparr>reads := R_data params # rs\<rparr>) = (Inr params, ?e1\<lparr>reads := rs\<rparr>)"
    using read_part_exact [of "?e1\<lparr>reads := R_data params # rs\<rparr>" params rs] assms(2) by simp
  have "read_packet_body bufsz ?e1 = (Inr (event_packet code params), ?e1\<lparr>reads := rs\<rparr>)"
    using 1 2 3 u assms(2-4) by (simp add: read_packet_body_def p)
  moreover have "?e1\<lparr>reads := rs\<rparr> = after_read dt False ps rs e" by (simp add: after_read_def)
  moreover have "length (event_packet code params) = 3 + length params" by (simp add: p)
  ultimately show ?thesis using ready_poll [OF assms(1)] by (simp add: hci_read_packet_def)
qed

lemma read_packet_stream_disconnect:
  "ready e (poll_ok dt # ps) (stream_packet (disconnect_event h reason) @ rs) \<Longrightarrow>
     hci_read_packet 2048 t e = (7, disconnect_event h reason, after_read dt False ps rs e)"
  using read_packet_stream_event [of e dt ps EVT_DISCONN_COMPLETE "[0x00] @ put_le16 h @ [reason]" rs 2048 t]
  by (simp add: disconnect_event_def)

section \<open>The report loop\<close>

text \<open>The HID report of an ATT message, if it is an input report of the subscribed value.\<close>

definition report_of :: "bytes \<Rightarrow> bytes option" where
  "report_of d =
     (if 14 \<le> length d \<and> d ! 0 = SW2_ATT_NOTIFY \<and> get_le16 d 1 = SW2_INPUT_VALUE_HANDLE
      then report09_to_uhid (drop 3 d) (length d - 3) 32 else None)"

text \<open>A shorter message is none; what the shared buffer held before does not matter.\<close>

lemma report09_cong:
  assumes "\<And>i. i < n \<Longrightarrow> r ! i = r' ! i"
  shows "report09_to_uhid r n sz = report09_to_uhid r' n sz"
proof (cases "n < 11")
  case False
  then have "get_le16 r 1 = get_le16 r' 1" "r ! 0 = r' ! 0" by (simp_all add: get_le16_def assms)
  moreover have "stick12_at r n i = stick12_at r' n i" for i
    using assms by (auto simp: stick12_at_def get_le16_def)
  ultimately show ?thesis by (simp add: report09_to_uhid_def)
qed (simp add: report09_to_uhid_def)

lemma notification_report_of: "notification_report (int (length d)) (overwrite att d) = report_of d"
proof (cases "3 \<le> length d")
  case True
  have n: "overwrite att d ! i = d ! i" if "i < length d" for i using that by (rule nth_overwrite_low)
  have "report09_to_uhid (drop 3 (overwrite att d)) (length d - 3) 32 = report09_to_uhid (drop 3 d) (length d - 3) 32"
    by (rule report09_cong) (use True in \<open>simp add: overwrite_def nth_append\<close>)
  moreover have "report09_to_uhid r (length d - 3) 32 = None" if "\<not> 14 \<le> length d" for r
    using that by (simp add: report09_to_uhid_def) linarith
  moreover have "get_le16 (overwrite att d) 1 = get_le16 d 1" using True n by (auto simp: get_le16_def)
  moreover have "overwrite att d ! 0 = d ! 0" by (rule n) (use True in linarith)
  ultimately show ?thesis using True by (auto simp: notification_report_def report_of_def nat_diff_distrib)
qed (auto simp: notification_report_def report_of_def)

text \<open>The stream of packets on the wire for a list of ATT messages on a handle.\<close>

definition att_stream :: "u16 \<Rightarrow> bytes list \<Rightarrow> read_ans list" where
  "att_stream h ms = concat (map (\<lambda>d. stream_packet (acl_packet h SW2_ATT_CID d (of_nat (length d)))) ms)"

lemma att_stream_simps:
  "att_stream h [] = []"
  "att_stream h (d # ms) = stream_packet (acl_packet h SW2_ATT_CID d (of_nat (length d))) @ att_stream h ms"
  by (simp_all add: att_stream_def)

lemma read_acl_att_message:
  assumes "ready e (poll_ok dt # ps) (stream_packet (acl_packet h SW2_ATT_CID d (of_nat (length d))) @ rs)"
    and "h AND 0x0fff = h" "length d \<le> 1024" "length d \<le> sz"
  shows "read_acl_att h att sz t e = (int (length d), overwrite att d, after_read dt False ps rs e)"
proof -
  let ?n = "of_nat (length d) :: u16"
  let ?p = "acl_packet h SW2_ATT_CID d ?n"
  have u: "unat ?n = length d" using assms(3) by (intro unat_of_nat_u16) simp
  have n: "?n \<le> 1024" using u assms(3) by (simp add: word_le_nat_alt)
  have l: "length ?p = 9 + length d" by (rule length_acl_packet) (simp add: u)
  have "unat (4 + ?n) = 4 + length d" using assms(3) u by (simp add: unat_word_ariths)
  moreover have "get_le16 ?p 3 = 4 + ?n" "?p ! 0 = HCI_ACLDATA_PKT"
    using acl_packet_lens [of h SW2_ATT_CID d ?n "[]"] by (simp_all add: acl_packet_type)
  ultimately have "hci_read_packet 2048 t e = (int (length ?p), ?p, after_read dt False ps rs e)"
    using l assms(3) by (intro read_packet_stream_acl [OF assms(1)]) simp_all
  moreover have "att_packet h sz ?p = Some (Inr d)"
    using att_packet_of_acl [OF u [symmetric] n, of sz h] assms(2,4) u by simp
  ultimately show ?thesis using l by (subst read_acl_att.simps) simp
qed

lemma read_acl_att_disconnect:
  assumes "ready e (poll_ok dt # ps) (stream_packet (disconnect_event h reason) @ rs)"
  shows "read_acl_att g att 1024 t e = (-2, att, after_read dt False ps rs e)"
proof -
  have "att_packet g 1024 (disconnect_event h reason) = Some (Inl (-2))"
    by (simp add: att_packet_def disconnect_event_bytes)
  with read_packet_stream_disconnect [OF assms] show ?thesis by (subst read_acl_att.simps) simp
qed

lemma after_read_supply [simp]:
  "fds (after_read dt sg ps rs e) = fds e" "statuses (after_read dt sg ps rs e) = statuses e"
  by (simp_all add: after_read_def)

text \<open>
  The report loop of \<^verbatim>\<open>sw2d.c\<close> forwards exactly the input reports: of a stream of
  ATT messages on the connection, each is dropped or becomes one UHID event with the HID
  report of that message alone (whatever the shared buffer held from the messages before),
  the events are written to the gamepad in the order of the messages, nothing else is
  written, and the loop ends with the disconnection.
\<close>

theorem notify_loop_forwards:
  assumes "ready e (map poll_ok ds @ poll_ok dl # ps)
      (att_stream h ms @ stream_packet (disconnect_event g reason) @ rs)"
    and "length ds = length ms" "\<forall>d \<in> set ms. d \<noteq> [] \<and> length d \<le> 1024" "length ms < fuel"
    and "h AND 0x0fff = h" "0 \<le> uhid" "\<forall>ev. ub ev \<noteq> []"
  shows "\<exists>e'. notify_loop fuel ub h uhid att e = Some e' \<and> ready e' ps rs \<and>
     fds e' = fds e \<and> statuses e' = statuses e \<and>
     acts e' = acts e @ map (\<lambda>q. A_write uhid (ub (UHID_INPUT2 q))) (List.map_filter report_of ms)"
  using assms
proof (induction ms arbitrary: ds e att fuel)
  case Nil
  then obtain fuel' where fuel: "fuel = Suc fuel'" by (cases fuel) auto
  have r: "ready e (poll_ok dl # ps) (stream_packet (disconnect_event g reason) @ rs)"
    using Nil.prems(1,2) by (simp add: att_stream_simps)
  from r ready_after_read [OF r] show ?case
    by (simp add: fuel read_acl_att_disconnect [OF r] ready_def map_filter_simps)
next
  case (Cons d ms)
  from Cons.prems(2) obtain dt ds' where ds: "ds = dt # ds'" by (cases ds) auto
  from Cons.prems(4) obtain fuel' where fuel: "fuel = Suc fuel'" by (cases fuel) auto
  let ?ps = "map poll_ok ds' @ poll_ok dl # ps"
  let ?rs = "att_stream h ms @ stream_packet (disconnect_event g reason) @ rs"
  let ?e1 = "after_read dt False ?ps ?rs e"
  have d: "d \<noteq> []" "length d \<le> 1024" using Cons.prems(3) by simp_all
  have r: "ready e (poll_ok dt # ?ps) (stream_packet (acl_packet h SW2_ATT_CID d (of_nat (length d))) @ ?rs)"
    using Cons.prems(1) ds by (simp add: att_stream_simps)
  note r1 = ready_after_read [OF r, of dt ?ps ?rs]
  note rd = read_acl_att_message [OF r Cons.prems(5) d(2,2), of att 1000]
  have len: "int (length d) \<noteq> -2" "\<not> int (length d) \<le> 0" using d(1) by auto
  have run: "running e" using r by (simp add: ready_def)
  note IH = Cons.IH [OF _ _ _ _ Cons.prems(5-7), of _ ds' fuel' "overwrite att d"]
  show ?case
  proof (cases "report_of d")
    case None
    with rd len run have "notify_loop fuel ub h uhid att e = notify_loop fuel' ub h uhid (overwrite att d) ?e1"
      by (simp add: fuel notification_report_of)
    with IH [OF r1] Cons.prems(2-4) ds fuel None show ?thesis by (simp add: map_filter_simps)
  next
    case (Some q)
    let ?e2 = "act (A_write uhid (ub (UHID_INPUT2 q))) ?e1"
    have q: "take 4096 q = q"
      using Some report09_fields [of "drop 3 d" "length d - 3" 32 q] by (simp add: report_of_def split: if_splits)
    have "uhid_send_report ub uhid q ?e1 = (0, ?e2)"
      using write_full_at_once [of "ub (UHID_INPUT2 q)" ?e1 uhid] Cons.prems(6,7) r1
      by (simp add: uhid_send_report_def ready_def q)
    with rd len run Some have "notify_loop fuel ub h uhid att e = notify_loop fuel' ub h uhid (overwrite att d) ?e2"
      by (simp add: fuel notification_report_of)
    moreover have "ready ?e2 ?ps ?rs" using r1 by (simp add: ready_def)
    ultimately show ?thesis using IH [of ?e2] Cons.prems(2-4) ds fuel Some by (simp add: map_filter_simps)
  qed
qed

text \<open>Two input reports and a message too short to be one, then the disconnection.\<close>

definition demo_notes :: "bytes list" where
  "demo_notes =
     [[0x1b, 0x0e, 0x00, 0x09, 0x01, 0x00, 0, 8, 0, 8, 0, 8, 0, 8], [0x1b, 0x0e, 0x00, 0x09],
      [0x1b, 0x0e, 0x00, 0x09, 0x00, 0x40, 0, 8, 0, 8, 0, 8, 0, 8]]"

theorem notify_loop_forwards_witness:
  "\<exists>e'. notify_loop 4 plain_ub 0x40 5 (replicate 1024 0)
       (quiet_env\<lparr>polls := replicate 4 (poll_ok 1),
          reads := att_stream 0x40 demo_notes @ stream_packet (disconnect_event 0x40 0x13)\<rparr>) = Some e' \<and>
     acts e' = [A_write 5 [12, 1, 1, 0, 0, 0, 8, 0x80, 0, 8, 0x80, 8, 0, 0],
                A_write 5 [12, 1, 0, 0x40, 0, 0, 8, 0x80, 0, 8, 0x80, 8, 0, 0]]"
proof -
  let ?e = "quiet_env\<lparr>polls := replicate 4 (poll_ok 1),
      reads := att_stream 0x40 demo_notes @ stream_packet (disconnect_event 0x40 0x13)\<rparr>"
  have l: "length demo_notes = 3" by (simp add: demo_notes_def)
  have r: "ready ?e (map poll_ok (replicate 3 1) @ poll_ok 1 # [])
      (att_stream 0x40 demo_notes @ stream_packet (disconnect_event 0x40 0x13) @ [])"
    by (simp add: ready_def quiet_env_def numeral_eq_Suc)
  have d: "\<forall>d \<in> set demo_notes. d \<noteq> [] \<and> length d \<le> 1024" by (simp add: demo_notes_def)
  have h: "(0x40 :: u16) AND 0x0fff = 0x40" by simp
  have b: "\<forall>ev. plain_ub ev \<noteq> []" by (simp add: plain_ub_def split: uhid_event.splits)
  have q: "List.map_filter report_of demo_notes =
      [[1, 1, 0, 0, 0, 8, 0x80, 0, 8, 0x80, 8, 0, 0], [1, 0, 0x40, 0, 0, 8, 0x80, 0, 8, 0x80, 8, 0, 0]]"
    by code_simp
  from notify_loop_forwards [OF r _ d _ h _ b, where fuel = 4 and uhid = 5] l
  obtain e' where "notify_loop 4 plain_ub 0x40 5 (replicate 1024 0) ?e = Some e'"
    "acts e' = acts ?e @ map (\<lambda>q. A_write 5 (plain_ub (UHID_INPUT2 q))) (List.map_filter report_of demo_notes)"
    by auto
  then show ?thesis by (simp add: q plain_ub_def quiet_env_def)
qed

end
