(* ===== verification/Sw2d_Served.thy ===== *)
theory Sw2d_Served
  imports Forwarding
begin

text \<open>
  Whole sessions of \<^verbatim>\<open>sw2d.c\<close> with a controller that answers, and the program from its
  command line to its exit, on a transport that delivers the bytes of the packets as they are
  asked for: every action, in order.
\<close>

section \<open>The steps before the reports\<close>

text \<open>Descriptors are available and set-up calls succeed, besides what \<open>ready\<close> says.\<close>

definition supplied :: "env \<Rightarrow> poll_ans list \<Rightarrow> read_ans list \<Rightarrow> int list \<Rightarrow> bool" where
  "supplied e ps rs fs \<longleftrightarrow> ready e ps rs \<and> fds e = fs \<and> statuses e = []"

lemma supplied_ready: "supplied e ps rs fs \<Longrightarrow> ready e ps rs"
  by (simp add: supplied_def)

lemma supplied_act: "supplied e ps rs fs \<Longrightarrow> supplied (e\<lparr>acts := l\<rparr>) ps rs fs"
  by (simp add: supplied_def ready_def)

lemma supplied_after_read: "supplied e ps0 rs0 fs \<Longrightarrow> supplied (after_read dt False ps rs e) ps rs fs"
  by (simp add: supplied_def ready_def after_read_def)

lemma hci_open_supplied:
  assumes "supplied e ps rs (fd # fs)" "0 \<le> fd"
  shows "\<exists>e'. hci_open e = (fd, e') \<and> supplied e' ps rs fs \<and> acts e' = acts e @ [A_bind fd 0 HCI_CHANNEL_RAW]"
  using assms by (simp add: hci_open_def sys_fd_def sys_status_def supplied_def ready_def)

lemma hci_send_cmd_supplied:
  assumes "supplied e ps rs fs" "length params = unat plen" "0 < plen"
  shows "hci_send_cmd fd ogf ocf params plen e = (0, act (A_write fd (cmd_packet ogf ocf (Some params) plen)) e)"
proof -
  have "\<not> 4 + uint plen < 0" using uint_ge_0 [of plen] by linarith
  with assms show ?thesis
    by (simp add: hci_send_cmd_def sys_write_def supplied_def ready_def cmd_packet_def hci_opcode_def Let_def)
qed

lemma set_filter_supplied:
  "supplied e ps rs fs \<Longrightarrow> set_exact_connect_filter fd e = (0, act (A_setsockopt fd exact_connect_filter) e)"
  "supplied e ps rs fs \<Longrightarrow> set_acl_runtime_filter fd e = (0, act (A_setsockopt fd acl_runtime_filter) e)"
  by (simp_all add: set_exact_connect_filter_def set_acl_runtime_filter_def sys_status_def supplied_def)

definition connect_acts :: "int \<Rightarrow> bytes \<Rightarrow> action list" where
  "connect_acts fd peer =
     [A_setsockopt fd exact_connect_filter,
      A_write fd (cmd_packet OGF_LE_CTL OCF_LE_CREATE_CONN (Some (connect_params peer)) 25)]"

lemma conn_packet_complete:
  assumes "h AND 0x0fff = h" "length rest = 15"
  shows "conn_packet (conn_complete_event h rest) = Some (0, Some h)"
proof -
  have "conn_complete_event h rest = [0x04, 0x3e, 19, 0x01, 0x00] @ put_le16 h @ rest"
    using assms(2) by (simp add: conn_complete_event_def event_packet_def)
  with assms get_le16_append [of "[0x04, 0x3e, 19, 0x01, 0x00]" 5 h rest] show ?thesis
    by (simp add: conn_packet_def)
qed

lemma hci_connect_le_supplied:
  assumes "supplied e (poll_ok dt # ps) (stream_packet (conn_complete_event h rest) @ rs) fs"
    and "h AND 0x0fff = h" "length rest = 15" "length peer = 6"
  shows "\<exists>e'. hci_connect_le fd peer e = (0, Some h, e') \<and> supplied e' ps rs fs \<and>
    acts e' = acts e @ connect_acts fd peer"
proof -
  define e1 where "e1 = act (A_setsockopt fd exact_connect_filter) e"
  have s1: "supplied e1 (poll_ok dt # ps) (stream_packet (conn_complete_event h rest) @ rs) fs"
    unfolding e1_def by (rule supplied_act [OF assms(1)])
  have l: "length (connect_params peer) = unat (25 :: byte)" using assms(4) by (simp add: connect_params_def)
  define e2 where "e2 = act (A_write fd (cmd_packet OGF_LE_CTL OCF_LE_CREATE_CONN (Some (connect_params peer)) 25)) e1"
  have w: "hci_send_cmd fd OGF_LE_CTL OCF_LE_CREATE_CONN (connect_params peer) 25 e1 = (0, e2)"
    unfolding e2_def by (rule hci_send_cmd_supplied [OF s1 l]) simp
  have s2: "supplied e2 (poll_ok dt # ps) (stream_packet (conn_complete_event h rest) @ rs) fs"
    unfolding e2_def by (rule supplied_act [OF s1])
  have "hci_read_packet 260 100 e2 = (22, conn_complete_event h rest, after_read dt False ps rs e2)"
    using read_packet_stream_event [of e2 dt ps EVT_LE_META "[EVT_LE_CONN_COMPLETE, 0x00] @ put_le16 h @ rest" rs 260 100]
      supplied_ready [OF s2] assms(3) by (simp add: conn_complete_event_def)
  then have "connect_wait 120 e2 = (0, Some h, after_read dt False ps rs e2)"
    using supplied_ready [OF s2] conn_packet_complete [OF assms(2,3)]
    by (simp add: numeral_eq_Suc [of "Num.BitM _"] ready_def connect_wait.simps(2) [of 119, simplified])
  moreover have "set_exact_connect_filter fd e = (0, e1)"
    unfolding e1_def by (rule set_filter_supplied [OF assms(1)])
  ultimately show ?thesis
    using w supplied_after_read [OF s2, of dt ps rs]
    by (simp add: hci_connect_le_def connect_acts_def e1_def e2_def)
qed

text \<open>A request and its answer.\<close>

definition sw2d_att :: "int \<Rightarrow> u16 \<Rightarrow> bytes \<Rightarrow> action" where
  "sw2d_att fd h d = A_write fd (acl_packet h SW2_ATT_CID d (of_nat (length d)))"

lemma request_supplied:
  assumes "supplied e (poll_ok dt # ps) (att_stream h (d # ms) @ rs) fs"
    and "h AND 0x0fff = h" "d \<noteq> []" "hd d \<noteq> SW2_ATT_NOTIFY" "length d \<le> sz" "sz \<le> 1024"
    and "n = of_nat (length req)" "length req \<le> 1024"
  shows "\<exists>e'. att_request_response fd h req n rsp sz x t e = (int (length d), overwrite rsp d, e') \<and>
    supplied e' ps (att_stream h ms @ rs) fs \<and> acts e' = acts e @ [sw2d_att fd h req]"
proof -
  let ?e1 = "act (sw2d_att fd h req) e"
  have u: "unat n = length req" using assms(7,8) by (simp add: unat_of_nat_u16)
  then have "\<not> 1024 < n" using assms(8) by (simp add: word_less_nat_alt)
  then have w: "acl_send_att fd h req n e = (0, ?e1)"
    using acl_send_att_packet [of n e fd h req] assms(1,7) by (simp add: sw2d_att_def supplied_def ready_def)
  have s1: "supplied ?e1 (poll_ok dt # ps) (att_stream h (d # ms) @ rs) fs" by (rule supplied_act [OF assms(1)])
  then have r: "ready ?e1 (poll_ok dt # ps)
      (stream_packet (acl_packet h SW2_ATT_CID d (of_nat (length d))) @ (att_stream h ms @ rs))"
    by (simp add: supplied_def att_stream_simps)
  have "read_acl_att h rsp sz t ?e1 =
      (int (length d), overwrite rsp d, after_read dt False ps (att_stream h ms @ rs) ?e1)"
    by (rule read_acl_att_message [OF r assms(2)]) (use assms(5,6) in simp_all)
  moreover have "overwrite rsp d ! 0 = hd d" using assms(3) by (simp add: hd_conv_nth)
  ultimately have "att_response h rsp sz x t ?e1 =
      (int (length d), overwrite rsp d, after_read dt False ps (att_stream h ms @ rs) ?e1)"
    using assms(3,4) by (subst att_response.simps) simp
  then show ?thesis
    using w supplied_after_read [OF s1, of dt ps "att_stream h ms @ rs"] by (simp add: att_request_response_def)
qed

text \<open>The three requests of the probe, and the one that subscribes.\<close>

definition probe_requests :: "bytes list" where
  "probe_requests = [[0x02, 0x05, 0x02], [0x10, 0x01, 0x00, 0xff, 0xff, 0x00, 0x28],
     [0x08, 0x08, 0x00, 0x2a, 0x00, 0x03, 0x28]]"

definition subscribe_request :: bytes where
  "subscribe_request = [0x12] @ put_le16 SW2_INPUT_CCCD_HANDLE @ [0x01, 0x00]"

definition answer_ok :: "nat \<Rightarrow> bytes \<Rightarrow> bool" where
  "answer_ok sz d \<longleftrightarrow> d \<noteq> [] \<and> hd d \<noteq> SW2_ATT_NOTIFY \<and> length d \<le> sz"

lemma gatt_probe_supplied:
  assumes "supplied e (poll_ok d1 # poll_ok d2 # poll_ok d3 # ps) (att_stream h (a1 # a2 # a3 # ms) @ rs) fs"
    and "h AND 0x0fff = h" "answer_ok 768 a1" "answer_ok 768 a2" "answer_ok 768 a3"
  shows "\<exists>r e'. gatt_probe fd h rsp e = (r, e') \<and> supplied e' ps (att_stream h ms @ rs) fs \<and>
    acts e' = acts e @ map (sw2d_att fd h) probe_requests"
proof -
  have ok: "a1 \<noteq> []" "hd a1 \<noteq> SW2_ATT_NOTIFY" "length a1 \<le> 768" "a2 \<noteq> []" "hd a2 \<noteq> SW2_ATT_NOTIFY"
    "length a2 \<le> 768" "a3 \<noteq> []" "hd a3 \<noteq> SW2_ATT_NOTIFY" "length a3 \<le> 768" "(768 :: nat) \<le> 1024"
    using assms(3-5) by (simp_all add: answer_ok_def)
  from request_supplied [OF assms(1,2) ok(1-3,10), of 3 "[0x02, 0x05, 0x02]" fd rsp SW2_ATT_MTU_RSP 2000]
  obtain e1 where 1: "att_request_response fd h [0x02, 0x05, 0x02] 3 rsp 768 SW2_ATT_MTU_RSP 2000 e =
      (int (length a1), overwrite rsp a1, e1)"
    "supplied e1 (poll_ok d2 # poll_ok d3 # ps) (att_stream h (a2 # a3 # ms) @ rs) fs"
    "acts e1 = acts e @ [sw2d_att fd h [0x02, 0x05, 0x02]]" by auto
  from request_supplied [OF 1(2) assms(2) ok(4-6,10), of 7 "[0x10, 0x01, 0x00, 0xff, 0xff, 0x00, 0x28]" fd
      "overwrite rsp a1" SW2_ATT_GROUP_RSP 2000]
  obtain e2 where 2: "att_request_response fd h [0x10, 0x01, 0x00, 0xff, 0xff, 0x00, 0x28] 7
      (overwrite rsp a1) 768 SW2_ATT_GROUP_RSP 2000 e1 = (int (length a2), overwrite (overwrite rsp a1) a2, e2)"
    "supplied e2 (poll_ok d3 # ps) (att_stream h (a3 # ms) @ rs) fs"
    "acts e2 = acts e1 @ [sw2d_att fd h [0x10, 0x01, 0x00, 0xff, 0xff, 0x00, 0x28]]" by auto
  from request_supplied [OF 2(2) assms(2) ok(7-9,10), of 7 "[0x08, 0x08, 0x00, 0x2a, 0x00, 0x03, 0x28]" fd
      "overwrite (overwrite rsp a1) a2" SW2_ATT_TYPE_RSP 2000]
  obtain e3 where 3: "att_request_response fd h [0x08, 0x08, 0x00, 0x2a, 0x00, 0x03, 0x28] 7
      (overwrite (overwrite rsp a1) a2) 768 SW2_ATT_TYPE_RSP 2000 e2 =
      (int (length a3), overwrite (overwrite (overwrite rsp a1) a2) a3, e3)"
    "supplied e3 ps (att_stream h ms @ rs) fs"
    "acts e3 = acts e2 @ [sw2d_att fd h [0x08, 0x08, 0x00, 0x2a, 0x00, 0x03, 0x28]]" by auto
  have "\<exists>r. gatt_probe fd h rsp e = (r, e3)"
    unfolding gatt_probe_def using 1(1) 2(1) 3(1) by (simp add: Let_def)
  then show ?thesis using 1(3) 2(3) 3(2,3) by (auto simp: probe_requests_def)
qed

lemma enable_notifications_supplied:
  assumes "supplied e (poll_ok dt # ps) (att_stream h (w # ms) @ rs) fs"
    and "h AND 0x0fff = h" "answer_ok 64 w" "hd w = SW2_ATT_WRITE_RSP"
  shows "\<exists>e'. enable_notifications fd h rsp e = (0, e') \<and> supplied e' ps (att_stream h ms @ rs) fs \<and>
    acts e' = acts e @ [sw2d_att fd h subscribe_request]"
proof -
  have ok: "w \<noteq> []" "hd w \<noteq> SW2_ATT_NOTIFY" "length w \<le> 64" using assms(3) by (simp_all add: answer_ok_def)
  from request_supplied [OF assms(1,2) ok, of 5 subscribe_request fd rsp SW2_ATT_WRITE_RSP 2000]
  obtain e1 where 1: "att_request_response fd h subscribe_request 5 rsp 64 SW2_ATT_WRITE_RSP 2000 e =
      (int (length w), overwrite rsp w, e1)" "supplied e1 ps (att_stream h ms @ rs) fs"
    "acts e1 = acts e @ [sw2d_att fd h subscribe_request]" by (auto simp: subscribe_request_def)
  moreover have "1 \<le> int (length w)" "overwrite rsp w ! 0 = SW2_ATT_WRITE_RSP"
    using ok(1) assms(4) by (cases w; simp)+
  ultimately show ?thesis by (simp add: enable_notifications_def subscribe_request_def)
qed

lemma uhid_create_supplied:
  assumes "supplied e ps rs (fd # fs)" "0 \<le> fd" "ub gamepad_device \<noteq> []"
  shows "\<exists>e'. uhid_create_device ub e = (fd, e') \<and> supplied e' ps rs fs \<and>
    acts e' = acts e @ [A_write fd (ub gamepad_device)]"
proof -
  let ?e1 = "e\<lparr>fds := fs\<rparr>"
  have "write_full fd (ub gamepad_device) 0 ?e1 = (int (length (ub gamepad_device)), act (A_write fd (ub gamepad_device)) ?e1)"
    using assms by (intro write_full_at_once) (simp_all add: supplied_def ready_def)
  with assms show ?thesis by (simp add: uhid_create_device_def sys_fd_def supplied_def ready_def)
qed

section \<open>The whole session\<close>

definition update_params :: "u16 \<Rightarrow> bytes" where
  "update_params h = put_le16 h @ put_le16 0x0006 @ put_le16 0x0006 @ put_le16 0x0000 @
     put_le16 0x002a @ put_le16 0x0000 @ put_le16 0x0000"

text \<open>Everything a session does: on the HCI socket \<open>hci\<close>, then also on the gamepad \<open>uhid\<close>.\<close>

definition set_up_acts :: "(uhid_event \<Rightarrow> bytes) \<Rightarrow> int \<Rightarrow> int \<Rightarrow> bytes \<Rightarrow> u16 \<Rightarrow> action list" where
  "set_up_acts ub hci uhid peer h =
     [A_bind hci 0 HCI_CHANNEL_RAW] @ connect_acts hci peer @
     [A_setsockopt hci acl_runtime_filter,
      A_write hci (cmd_packet OGF_LE_CTL 0x0013 (Some (update_params h)) 14)] @
     map (sw2d_att hci h) probe_requests @ [A_write uhid (ub gamepad_device), sw2d_att hci h subscribe_request]"

definition sw2d_acts :: "(uhid_event \<Rightarrow> bytes) \<Rightarrow> int \<Rightarrow> int \<Rightarrow> bytes \<Rightarrow> u16 \<Rightarrow> bytes list \<Rightarrow> action list" where
  "sw2d_acts ub hci uhid peer h ms =
     set_up_acts ub hci uhid peer h @
     map (\<lambda>q. A_write uhid (ub (UHID_INPUT2 q))) (List.map_filter report_of ms) @
     [A_write uhid (ub UHID_DESTROY), A_close uhid, A_close hci]"

lemma session_set_up:
  assumes "supplied e (map poll_ok [d1, d2, d3, d4, d5] @ ps) (stream_packet (conn_complete_event h rest) @
      att_stream h ([a1, a2, a3, w] @ ms) @ rs) (hci # uhid # fs)"
    and "0 \<le> hci" "0 \<le> uhid" "ub gamepad_device \<noteq> []"
    and "h AND 0x0fff = h" "length rest = 15" "length peer = 6"
    and "answer_ok 768 a1" "answer_ok 768 a2" "answer_ok 768 a3" "answer_ok 64 w" "hd w = SW2_ATT_WRITE_RSP"
  shows "\<exists>e'. supplied e' ps (att_stream h ms @ rs) fs \<and>
    acts e' = acts e @ set_up_acts ub hci uhid peer h \<and>
    run_session fuel ub junk peer False e =
      map_option (\<lambda>e7. (0, sys_close hci (uhid_destroy_device ub uhid e7)))
        (notify_loop fuel ub h uhid (take 1024 junk) e')"
proof -
  let ?rs = "att_stream h ([a1, a2, a3, w] @ ms) @ rs"
  from hci_open_supplied [OF assms(1,2)] obtain e1 where 1: "hci_open e = (hci, e1)"
    "supplied e1 (poll_ok d1 # map poll_ok [d2, d3, d4, d5] @ ps) (stream_packet (conn_complete_event h rest) @ ?rs)
      (uhid # fs)" "acts e1 = acts e @ [A_bind hci 0 HCI_CHANNEL_RAW]" by auto
  from hci_connect_le_supplied [OF 1(2) assms(5-7)] obtain e2 where 2: "hci_connect_le hci peer e1 = (0, Some h, e2)"
    "supplied e2 (map poll_ok [d2, d3, d4, d5] @ ps) ?rs (uhid # fs)" "acts e2 = acts e1 @ connect_acts hci peer" by blast
  define e3 where "e3 = act (A_setsockopt hci acl_runtime_filter) e2"
  have 3: "set_acl_runtime_filter hci e2 = (0, e3)" unfolding e3_def by (rule set_filter_supplied [OF 2(2)])
  have s3: "supplied e3 (map poll_ok [d2, d3, d4, d5] @ ps) ?rs (uhid # fs)"
    unfolding e3_def by (rule supplied_act [OF 2(2)])
  define e4 where "e4 = act (A_write hci (cmd_packet OGF_LE_CTL 0x0013 (Some (update_params h)) 14)) e3"
  have s4: "supplied e4 (poll_ok d2 # poll_ok d3 # poll_ok d4 # poll_ok d5 # ps)
      (att_stream h (a1 # a2 # a3 # w # ms) @ rs) (uhid # fs)"
    unfolding e4_def using supplied_act [OF s3] by simp
  have 4: "hci_request_conn_update hci h e3 = e4"
    using hci_send_cmd_supplied [OF s3, of "update_params h" 14 hci OGF_LE_CTL "0x0013"]
    by (simp add: hci_request_conn_update_def e4_def update_params_def)
  from gatt_probe_supplied [OF s4 assms(5,8-10)] obtain r e5 where
    5: "gatt_probe hci h (take 768 junk) e4 = (r, e5)" "supplied e5 (poll_ok d5 # ps) (att_stream h (w # ms) @ rs) (uhid # fs)"
    "acts e5 = acts e4 @ map (sw2d_att hci h) probe_requests" by blast
  from uhid_create_supplied [OF 5(2) assms(3), of ub] assms(4) obtain e6 where
    6: "uhid_create_device ub e5 = (uhid, e6)" "supplied e6 (poll_ok d5 # ps) (att_stream h (w # ms) @ rs) fs"
    "acts e6 = acts e5 @ [A_write uhid (ub gamepad_device)]" by auto
  from enable_notifications_supplied [OF 6(2) assms(5,11,12)] obtain e7 where
    7: "enable_notifications hci h (take 64 junk) e6 = (0, e7)" "supplied e7 ps (att_stream h ms @ rs) fs"
    "acts e7 = acts e6 @ [sw2d_att hci h subscribe_request]" by blast
  have "run_session fuel ub junk peer False e =
      map_option (\<lambda>e7. (0, sys_close hci (uhid_destroy_device ub uhid e7)))
        (notify_loop fuel ub h uhid (take 1024 junk) e7)"
    using 1(1) 2(1) 3 4 5(1) 6(1) 7(1) assms(2,3) by (simp add: run_session_def Let_def)
  moreover have "acts e7 = acts e @ set_up_acts ub hci uhid peer h"
    using 1(3) 2(3) 5(3) 6(3) 7(3) by (simp add: set_up_acts_def e4_def e3_def)
  ultimately show ?thesis using 7(2) by blast
qed

text \<open>
  A visit of the controller: the descriptors the session gets, the connection, the answers to
  the requests of the probe and of the subscription, the messages, the disconnection, and how
  long each packet takes.
\<close>

record visit =
  v_hci :: int
  v_uhid :: int
  v_handle :: u16
  v_rest :: bytes
  v_probe :: "bytes \<times> bytes \<times> bytes"
  v_write :: bytes
  v_msgs :: "bytes list"
  v_gone :: "u16 \<times> byte"
  v_times :: "nat list"

definition visit_ok :: "visit \<Rightarrow> bool" where
  "visit_ok v \<longleftrightarrow> 0 \<le> v_hci v \<and> 0 \<le> v_uhid v \<and> v_handle v AND 0x0fff = v_handle v \<and> length (v_rest v) = 15 \<and>
     (case v_probe v of (a1, a2, a3) \<Rightarrow> answer_ok 768 a1 \<and> answer_ok 768 a2 \<and> answer_ok 768 a3) \<and>
     answer_ok 64 (v_write v) \<and> hd (v_write v) = SW2_ATT_WRITE_RSP \<and>
     (\<forall>d \<in> set (v_msgs v). d \<noteq> [] \<and> length d \<le> 1024) \<and> length (v_times v) = 6 + length (v_msgs v)"

definition visit_reads :: "visit \<Rightarrow> read_ans list" where
  "visit_reads v = stream_packet (conn_complete_event (v_handle v) (v_rest v)) @
     (case v_probe v of (a1, a2, a3) \<Rightarrow> att_stream (v_handle v) ([a1, a2, a3, v_write v] @ v_msgs v)) @
     stream_packet (disconnect_event (fst (v_gone v)) (snd (v_gone v)))"

definition visit_acts :: "(uhid_event \<Rightarrow> bytes) \<Rightarrow> bytes \<Rightarrow> visit \<Rightarrow> action list" where
  "visit_acts ub peer v = sw2d_acts ub (v_hci v) (v_uhid v) peer (v_handle v) (v_msgs v)"

lemma visit_forwarded:
  assumes "supplied e (map poll_ok (v_times v) @ ps) (visit_reads v @ rs) (v_hci v # v_uhid v # fs)"
    and "visit_ok v" "length (v_msgs v) < fuel" "\<forall>ev. ub ev \<noteq> []" "length peer = 6"
  shows "\<exists>e'. run_session fuel ub junk peer False e = Some (0, e') \<and> supplied e' ps rs fs \<and>
     acts e' = acts e @ visit_acts ub peer v"
proof -
  obtain a1 a2 a3 where p: "v_probe v = (a1, a2, a3)" by (metis prod_cases3)
  let ?h = "v_handle v" and ?hci = "v_hci v" and ?uhid = "v_uhid v" and ?ms = "v_msgs v"
  let ?dis = "stream_packet (disconnect_event (fst (v_gone v)) (snd (v_gone v)))"
  have "length (v_times v) = 6 + length ?ms" using assms(2) by (simp add: visit_ok_def)
  then obtain d1 d2 d3 d4 d5 es where ds: "v_times v = d1 # d2 # d3 # d4 # d5 # es" "length es = Suc (length ?ms)"
    by (auto simp: numeral_eq_Suc length_Suc_conv)
  then obtain es' dl where es: "es = es' @ [dl]" "length es' = length ?ms" by (cases es rule: rev_cases) auto
  have ok: "0 \<le> ?hci" "0 \<le> ?uhid" "?h AND 0x0fff = ?h" "length (v_rest v) = 15" "answer_ok 768 a1" "answer_ok 768 a2"
    "answer_ok 768 a3" "answer_ok 64 (v_write v)" "hd (v_write v) = SW2_ATT_WRITE_RSP"
    "\<forall>d \<in> set ?ms. d \<noteq> [] \<and> length d \<le> 1024"
    using assms(2) by (simp_all add: visit_ok_def p)
  have s: "supplied e (map poll_ok [d1, d2, d3, d4, d5] @ map poll_ok es @ ps)
      (stream_packet (conn_complete_event ?h (v_rest v)) @ att_stream ?h ([a1, a2, a3, v_write v] @ ?ms) @ ?dis @ rs)
      (?hci # ?uhid # fs)"
    using assms(1) by (simp add: visit_reads_def ds(1) p)
  from session_set_up [OF s ok(1,2) _ ok(3,4) assms(5) ok(5-9), of ub fuel junk] assms(4) obtain e7 where
    7: "supplied e7 (map poll_ok es @ ps) (att_stream ?h ?ms @ ?dis @ rs) fs"
      "acts e7 = acts e @ set_up_acts ub ?hci ?uhid peer ?h"
      "run_session fuel ub junk peer False e = map_option (\<lambda>e7. (0, sys_close ?hci (uhid_destroy_device ub ?uhid e7)))
         (notify_loop fuel ub ?h ?uhid (take 1024 junk) e7)" by blast
  have "ready e7 (map poll_ok es' @ poll_ok dl # ps) (att_stream ?h ?ms @ ?dis @ rs)"
    using supplied_ready [OF 7(1)] by (simp add: es(1))
  from notify_loop_forwards [OF this es(2) ok(10) assms(3) ok(3,2) assms(4), of "take 1024 junk"] obtain e8 where
    8: "notify_loop fuel ub ?h ?uhid (take 1024 junk) e7 = Some e8" "ready e8 ps rs" "fds e8 = fds e7"
      "statuses e8 = statuses e7"
      "acts e8 = acts e7 @ map (\<lambda>q. A_write ?uhid (ub (UHID_INPUT2 q))) (List.map_filter report_of ?ms)" by blast
  have d: "uhid_destroy_device ub ?uhid e8 = sys_close ?uhid (act (A_write ?uhid (ub UHID_DESTROY)) e8)"
    using write_full_at_once [of "ub UHID_DESTROY" e8 ?uhid] 8(2) assms(4) ok(2)
    by (simp add: uhid_destroy_device_def ready_def)
  let ?e9 = "sys_close ?hci (uhid_destroy_device ub ?uhid e8)"
  have "acts ?e9 = acts e @ visit_acts ub peer v"
    using 7(2) 8(5) by (simp add: d sys_close_def visit_acts_def sw2d_acts_def)
  moreover have "supplied ?e9 ps rs fs"
    using 7(1) 8(2-4) by (simp add: d sys_close_def supplied_def ready_def)
  ultimately show ?thesis using 7(3) 8(1) by simp
qed

text \<open>
  A session of \<^verbatim>\<open>sw2d.c\<close> with a controller that connects and answers every request,
  sends messages and disconnects, on a transport that delivers the bytes of each packet as
  they are asked for: the session returns 0, and all it has done is to bind the socket,
  connect, ask for the connection parameters, send the three requests of the probe, create
  the gamepad, subscribe, write the HID report of every input report among the messages in
  their order, destroy the gamepad and close both descriptors.
\<close>

theorem sw2d_session_forwards:
  assumes "supplied e (map poll_ok ds) (stream_packet (conn_complete_event h rest) @
      att_stream h ([a1, a2, a3, w] @ ms) @ stream_packet (disconnect_event g reason)) [hci, uhid]"
    and "length ds = 6 + length ms" "length ms < fuel" "0 \<le> hci" "0 \<le> uhid" "\<forall>ev. ub ev \<noteq> []"
    and "h AND 0x0fff = h" "length rest = 15" "length peer = 6"
    and "answer_ok 768 a1" "answer_ok 768 a2" "answer_ok 768 a3" "answer_ok 64 w" "hd w = SW2_ATT_WRITE_RSP"
    and "\<forall>d \<in> set ms. d \<noteq> [] \<and> length d \<le> 1024"
  shows "\<exists>e'. run_session fuel ub junk peer False e = Some (0, e') \<and>
     acts e' = acts e @ sw2d_acts ub hci uhid peer h ms"
proof -
  define v where "v = \<lparr>v_hci = hci, v_uhid = uhid, v_handle = h, v_rest = rest, v_probe = (a1, a2, a3), v_write = w,
    v_msgs = ms, v_gone = (g, reason), v_times = ds\<rparr>"
  have "visit_ok v" using assms(2,4,5,7,8,10-15) by (simp add: v_def visit_ok_def)
  moreover have "supplied e (map poll_ok (v_times v) @ []) (visit_reads v @ []) (v_hci v # v_uhid v # [])"
    using assms(1) by (simp add: v_def visit_reads_def)
  ultimately show ?thesis
    using visit_forwarded [of e v "[]" "[]" "[]" fuel ub peer junk] assms(3,6,9) by (auto simp: v_def visit_acts_def)
qed

text \<open>One input report between two messages that are none.\<close>

definition sw2d_env :: env where
  "sw2d_env = quiet_env\<lparr>polls := replicate 9 (poll_ok 1), fds := [3, 5],
     reads := stream_packet (conn_complete_event 0x40 (replicate 15 0)) @
       att_stream 0x40 ([[0x03, 0x05, 0x02], [0x01, 0x10, 0x01, 0x00, 0x0A], [0x01, 0x08, 0x08, 0x00, 0x0A],
         [SW2_ATT_WRITE_RSP]] @ demo_notes) @
       stream_packet (disconnect_event 0x40 0x13)\<rparr>"

theorem sw2d_session_forwards_witness:
  "\<exists>e'. run_session 4 plain_ub (replicate 1024 0) [1, 2, 3, 4, 5, 6] False sw2d_env = Some (0, e') \<and>
     drop 10 (acts e') = [A_write 5 [12, 1, 1, 0, 0, 0, 8, 0x80, 0, 8, 0x80, 8, 0, 0],
       A_write 5 [12, 1, 0, 0x40, 0, 0, 8, 0x80, 0, 8, 0x80, 8, 0, 0], A_write 5 [1], A_close 5, A_close 3]"
proof -
  have n: "length demo_notes = 3" "\<forall>d \<in> set demo_notes. d \<noteq> [] \<and> length d \<le> 1024"
    by (simp_all add: demo_notes_def)
  have s: "supplied sw2d_env (map poll_ok (replicate 9 1)) (stream_packet (conn_complete_event 0x40 (replicate 15 0)) @
      att_stream 0x40 ([[0x03, 0x05, 0x02], [0x01, 0x10, 0x01, 0x00, 0x0A], [0x01, 0x08, 0x08, 0x00, 0x0A],
        [SW2_ATT_WRITE_RSP]] @ demo_notes) @ stream_packet (disconnect_event 0x40 0x13)) [3, 5]"
    by (simp add: supplied_def ready_def sw2d_env_def quiet_env_def)
  have b: "\<forall>ev. plain_ub ev \<noteq> []" by (simp add: plain_ub_def split: uhid_event.splits)
  have h: "(0x40 :: u16) AND 0x0fff = 0x40" by simp
  have q: "List.map_filter report_of demo_notes =
      [[1, 1, 0, 0, 0, 8, 0x80, 0, 8, 0x80, 8, 0, 0], [1, 0, 0x40, 0, 0, 8, 0x80, 0, 8, 0x80, 8, 0, 0]]"
    by code_simp
  from sw2d_session_forwards [OF s _ _ _ _ b h _ _ _ _ _ _ _ n(2), of 4 "[1, 2, 3, 4, 5, 6]" "replicate 1024 0"] n(1)
  obtain e' where "run_session 4 plain_ub (replicate 1024 0) [1, 2, 3, 4, 5, 6] False sw2d_env = Some (0, e')"
    "acts e' = acts sw2d_env @ sw2d_acts plain_ub 3 5 [1, 2, 3, 4, 5, 6] 0x40 demo_notes"
    by (auto simp: answer_ok_def)
  then show ?thesis
    by (simp add: sw2d_acts_def set_up_acts_def q plain_ub_def connect_acts_def probe_requests_def sw2d_env_def quiet_env_def)
qed

section \<open>The whole program\<close>

text \<open>What the reconnect loop does for the visits, with its pauses.\<close>

fun sw2d_loop_acts :: "(uhid_event \<Rightarrow> bytes) \<Rightarrow> bytes \<Rightarrow> nat \<Rightarrow> visit list \<Rightarrow> action list" where
  "sw2d_loop_acts ub peer b [] = []"
| "sw2d_loop_acts ub peer b (v # vs) = visit_acts ub peer v @ [A_sleep (1000000 * b)] @
     sw2d_loop_acts ub peer (if b < 16 then b * 2 else b) vs"

text \<open>The session in which the signal comes, while it waits for the connection.\<close>

definition stopped_acts :: "int \<Rightarrow> bytes \<Rightarrow> action list" where
  "stopped_acts hci peer = [A_bind hci 0 HCI_CHANNEL_RAW] @ connect_acts hci peer @ [A_close hci]"

lemma session_stopped:
  assumes "supplied e [Poll_ans dt True P_timeout] rs [hci]" and "0 \<le> hci" "length peer = 6"
  shows "\<exists>e'. run_session fuel ub junk peer nu e = Some (-1, e') \<and> \<not> running e' \<and> acts e' = acts e @ stopped_acts hci peer"
proof -
  from hci_open_supplied [OF assms(1,2)] obtain e1 where 1: "hci_open e = (hci, e1)"
    "supplied e1 [Poll_ans dt True P_timeout] rs []" "acts e1 = acts e @ [A_bind hci 0 HCI_CHANNEL_RAW]" by auto
  define e2 where "e2 = act (A_setsockopt hci exact_connect_filter) e1"
  define e3 where "e3 = act (A_write hci (cmd_packet OGF_LE_CTL OCF_LE_CREATE_CONN (Some (connect_params peer)) 25)) e2"
  have s2: "supplied e2 [Poll_ans dt True P_timeout] rs []" unfolding e2_def by (rule supplied_act [OF 1(2)])
  have s3: "supplied e3 [Poll_ans dt True P_timeout] rs []" unfolding e3_def by (rule supplied_act [OF s2])
  have f: "set_exact_connect_filter hci e1 = (0, e2)" unfolding e2_def by (rule set_filter_supplied [OF 1(2)])
  have l: "length (connect_params peer) = unat (25 :: byte)" using assms(3) by (simp add: connect_params_def)
  have w: "hci_send_cmd hci OGF_LE_CTL OCF_LE_CREATE_CONN (connect_params peer) 25 e2 = (0, e3)"
    unfolding e3_def by (rule hci_send_cmd_supplied [OF s2 l]) simp
  define e4 where "e4 = e3\<lparr>polls := [], clock := clock e3 + int dt + 1000 * 100, running := False\<rparr>"
  have "hci_read_packet 260 100 e3 = (0, [], e4)"
    using s3 by (simp add: hci_read_packet_def sys_poll_def supplied_def ready_def e4_def Let_def)
  moreover have "connect_wait 119 e4 = (-1, None, e4)"
    using connect_wait.simps(2) [of 118 e4] by (simp add: e4_def)
  ultimately have "connect_wait (Suc 119) e3 = (-1, None, e4)"
    using s3 by (subst connect_wait.simps(2)) (simp add: supplied_def ready_def)
  then have "hci_connect_le hci peer e1 = (-1, None, e4)" using f w by (simp add: hci_connect_le_def)
  then have "run_session fuel ub junk peer nu e = Some (-1, sys_close hci e4)"
    using 1(1) assms(2) by (simp add: run_session_def)
  moreover have "acts e4 = acts e @ [A_bind hci 0 HCI_CHANNEL_RAW] @ connect_acts hci peer"
    using 1(3) by (simp add: e4_def e3_def e2_def connect_acts_def)
  ultimately show ?thesis by (simp add: sys_close_def stopped_acts_def e4_def)
qed

lemma supplied_sleep: "supplied e ps rs fs \<Longrightarrow> supplied (sleep b e) ps rs fs"
  by (simp add: supplied_def ready_def sleep_def usleep_def)

definition visits_polls :: "visit list \<Rightarrow> poll_ans list" where
  "visits_polls vs = concat (map (\<lambda>v. map poll_ok (v_times v)) vs)"

definition visits_fds :: "visit list \<Rightarrow> int list" where
  "visits_fds vs = concat (map (\<lambda>v. [v_hci v, v_uhid v]) vs)"

lemma sw2d_loop_forwards:
  assumes "supplied e (visits_polls vs @ [Poll_ans dt True P_timeout]) (concat (map visit_reads vs)) (visits_fds vs @ [hci])"
    and "\<forall>v \<in> set vs. visit_ok v \<and> length (v_msgs v) < k" "k + length vs \<le> fuel" "0 < fuel"
    and "0 \<le> hci" "\<forall>ev. ub ev \<noteq> []" "length peer = 6"
  shows "\<exists>e'. sw2d_loop fuel ub junk peer False b e = Some e' \<and>
     acts e' = acts e @ sw2d_loop_acts ub peer b vs @ stopped_acts hci peer"
  using assms(1-4)
proof (induction vs arbitrary: e b fuel)
  case Nil
  then obtain fuel' where fuel: "fuel = Suc fuel'" by (cases fuel) auto
  have s: "supplied e [Poll_ans dt True P_timeout] [] [hci]"
    using Nil.prems(1) by (simp add: visits_polls_def visits_fds_def)
  from session_stopped [OF s assms(5,7), of fuel ub junk False] obtain e' where
    "run_session fuel ub junk peer False e = Some (-1, e')" "\<not> running e'" "acts e' = acts e @ stopped_acts hci peer"
    by blast
  with s show ?case by (simp add: fuel supplied_def ready_def)
next
  case (Cons v vs)
  then obtain fuel' where fuel: "fuel = Suc fuel'" by (cases fuel) auto
  let ?ps = "visits_polls vs @ [Poll_ans dt True P_timeout]" and ?fs = "visits_fds vs @ [hci]"
  have s: "supplied e (map poll_ok (v_times v) @ ?ps) (visit_reads v @ concat (map visit_reads vs)) (v_hci v # v_uhid v # ?fs)"
    using Cons.prems(1) by (simp add: visits_polls_def visits_fds_def)
  have v: "visit_ok v" "length (v_msgs v) < fuel" using Cons.prems(2,3) by auto
  from visit_forwarded [OF s v assms(6,7), of junk] obtain e1 where
    1: "run_session fuel ub junk peer False e = Some (0, e1)" "supplied e1 ?ps (concat (map visit_reads vs)) ?fs"
      "acts e1 = acts e @ visit_acts ub peer v" by blast
  have ok: "\<forall>v \<in> set vs. visit_ok v \<and> length (v_msgs v) < k" "k + length vs \<le> fuel'" "0 < fuel'"
    using Cons.prems(2,3) by (auto simp: fuel)
  from Cons.IH [OF supplied_sleep [OF 1(2), of b] ok, of "if b < 16 then b * 2 else b"] obtain e' where
    2: "sw2d_loop fuel' ub junk peer False (if b < 16 then b * 2 else b) (sleep b e1) = Some e'"
      "acts e' = acts (sleep b e1) @ sw2d_loop_acts ub peer (if b < 16 then b * 2 else b) vs @ stopped_acts hci peer"
    by blast
  have "running e" "running e1" using s 1(2) by (simp_all add: supplied_def ready_def)
  with 1(1) 2(1) have "sw2d_loop fuel ub junk peer False b e = Some e'" unfolding fuel by simp
  moreover have "acts e' = acts e @ sw2d_loop_acts ub peer b (v # vs) @ stopped_acts hci peer"
    using 1(3) 2(2) by (simp add: sleep_def usleep_acts)
  ultimately show ?case by blast
qed


text \<open>Two visits of the default controller, the second with another handle and no message.\<close>

definition demo_visit :: visit where
  "demo_visit = \<lparr>v_hci = 3, v_uhid = 5, v_handle = 0x40, v_rest = replicate 15 0,
     v_probe = ([0x03, 0x05, 0x02], [0x01, 0x10, 0x01, 0x00, 0x0A], [0x01, 0x08, 0x08, 0x00, 0x0A]),
     v_write = [SW2_ATT_WRITE_RSP], v_msgs = demo_notes, v_gone = (0x40, 0x13), v_times = replicate 9 1\<rparr>"

definition demo_visits :: "visit list" where
  "demo_visits = [demo_visit, demo_visit\<lparr>v_handle := 0x41, v_msgs := [], v_gone := (0x41, 0x08), v_times := replicate 6 1\<rparr>]"


end
