(* ===== verification/Bt_Protocol.thy ===== *)
theory Bt_Protocol
  imports Posix_Env
begin

text \<open>
  The data side of \<^verbatim>\<open>switch2-bt.c\<close>: the command header, the translation of input
  report 0x09 to the HID report of \<^verbatim>\<open>hid_report_descriptor.h\<close>, and the search of the
  D-Bus object tree for the adapter and the GATT characteristics.
\<close>

section \<open>Commands\<close>

abbreviation (input) NWCP_DIR_OUT :: byte where "NWCP_DIR_OUT \<equiv> 0x91"
abbreviation (input) NWCP_TRANS_BT :: byte where "NWCP_TRANS_BT \<equiv> 0x01"

definition build_nwcp :: "byte \<Rightarrow> byte \<Rightarrow> nat \<Rightarrow> bytes" where
  "build_nwcp cmd sub dlen =
     [cmd, NWCP_DIR_OUT, NWCP_TRANS_BT, sub, 0, of_nat (dlen mod 256), of_nat (dlen div 256 mod 256), 0]"

text \<open>The value written to the command characteristic: 33 zero bytes, header, data.\<close>

definition nwcp_frame :: "byte \<Rightarrow> byte \<Rightarrow> bytes \<Rightarrow> bytes" where
  "nwcp_frame cmd sub data = replicate 33 0 @ build_nwcp cmd sub (length data) @ data"

section \<open>Input reports\<close>

record pad =
  buttons :: u32
  lx :: u16
  ly :: u16
  rx :: u16
  ry :: u16
  dpad :: byte

abbreviation (input) HID_INPUT_REPORT_SIZE :: nat where "HID_INPUT_REPORT_SIZE \<equiv> 13"
abbreviation (input) HID_OUTPUT_REPORT_SIZE :: nat where "HID_OUTPUT_REPORT_SIZE \<equiv> 3"

text \<open>The hat value for the four direction bits (Down 1, Right 2, Left 4, Up 8).\<close>

definition hat_of_nibble :: "byte \<Rightarrow> byte" where
  "hat_of_nibble dp =
     (if dp = 0x00 then 8 else if dp = 0x01 then 4 else if dp = 0x02 then 2
      else if dp = 0x04 then 6 else if dp = 0x08 then 0 else if dp = 0x0A then 1
      else if dp = 0x0C then 7 else if dp = 0x03 then 3 else if dp = 0x05 then 5 else 8)"

definition stick_hi :: "byte \<Rightarrow> byte \<Rightarrow> u16" where
  "stick_hi a m = (push_bit 4 (ucast a) OR ucast (drop_bit 4 m)) AND 0xFFF"

definition stick_lo :: "byte \<Rightarrow> byte \<Rightarrow> u16" where
  "stick_lo a m = (push_bit 4 (ucast a) OR ucast (m AND 0x0F)) AND 0xFFF"

definition parse_input :: "bytes \<Rightarrow> pad \<Rightarrow> pad" where
  "parse_input d c =
     (if length d < 11 then c
      else c\<lparr>buttons := ucast (d ! 2) OR push_bit 8 (ucast (d ! 3)) OR push_bit 16 (ucast (d ! 4)),
             lx := stick_hi (d ! 5) (d ! 6), ly := stick_lo (d ! 7) (d ! 6),
             rx := stick_hi (d ! 8) (d ! 9), ry := stick_lo (d ! 10) (d ! 9),
             dpad := hat_of_nibble (d ! 3 AND 0x0F)\<rparr>)"

text \<open>The masks the report is built with, one \<^verbatim>\<open>if\<close> each, bit 0 to bit 20.\<close>

definition button_masks :: "u32 list" where
  "button_masks =
     [0x00000001, 0x00000002, 0x00000004, 0x00000008, 0x00000010, 0x00000020, 0x00000040, 0x00000080,
      0x00000100, 0x00000200, 0x00000400, 0x00000800, 0x00001000, 0x00002000, 0x00004000, 0x00008000,
      0x00010000, 0x00020000, 0x00040000, 0x00080000, 0x00100000]"

definition map_buttons :: "u32 \<Rightarrow> u32" where
  "map_buttons bs = fold (\<lambda>m b. if bs AND m \<noteq> 0 then b OR m else b) button_masks 0"

definition build_hid_report :: "pad \<Rightarrow> bytes" where
  "build_hid_report c =
     (let b = map_buttons (buttons c)
      in [0x01, ucast (b AND 0xFF), ucast (drop_bit 8 b AND 0xFF), ucast (drop_bit 16 b AND 0xFF),
          ucast (lx c AND 0xFF), ucast (drop_bit 8 (lx c) AND 0xFF),
          ucast (ly c AND 0xFF), ucast (drop_bit 8 (ly c) AND 0xFF),
          ucast (rx c AND 0xFF), ucast (drop_bit 8 (rx c) AND 0xFF),
          ucast (ry c AND 0xFF), ucast (drop_bit 8 (ry c) AND 0xFF),
          dpad c AND 0x0F])"

section \<open>The D-Bus object tree\<close>

text \<open>
  The reply of \<^verbatim>\<open>GetManagedObjects\<close>: objects in the order of the message, each with its
  interfaces, each with its properties. Entering the next element of an array gives 1 while
  there is one and 0 at its end; that number is the \<open>r\<close> the C loops share.
\<close>

datatype pvalue = PV_string string | PV_bytes bytes | PV_bool bool | PV_other

type_synonym props = "(string \<times> pvalue) list"
type_synonym object = "string \<times> (string \<times> props) list"

definition IFACE_ADAPTER :: string where "IFACE_ADAPTER = ''org.bluez.Adapter1''"
definition IFACE_DEVICE :: string where "IFACE_DEVICE = ''org.bluez.Device1''"
definition IFACE_GATTCHAR :: string where "IFACE_GATTCHAR = ''org.bluez.GattCharacteristic1''"
definition IFACE_GATTDESC :: string where "IFACE_GATTDESC = ''org.bluez.GattDescriptor1''"

definition UUID_CH_INPUT :: string where "UUID_CH_INPUT = ''7492866c-ec3e-4619-8258-32755ffcc0f8''"
definition UUID_CH_OUTPUT :: string where "UUID_CH_OUTPUT = ''cc483f51-9258-427d-a939-630c31f72b05''"
definition UUID_CH_CMD_OUT :: string where "UUID_CH_CMD_OUT = ''649d4ac9-8eb7-4e6c-af44-1ea54fe5f005''"
definition UUID_CH_CMD_DATA :: string where "UUID_CH_CMD_DATA = ''3dacbc7e-6955-40b5-8eaf-6f9809e8b379''"
definition UUID_CH_RESP1 :: string where "UUID_CH_RESP1 = ''c765a961-d9d8-4d36-a20a-5315b111836a''"
definition UUID_CH_RESP2 :: string where "UUID_CH_RESP2 = ''506d9f7d-4278-4e95-a549-326ba77657e0''"
definition UUID_CH_WRITE5 :: string where "UUID_CH_WRITE5 = ''00c5af5d-1964-4e30-8f51-1956f96bd282''"
definition UUID_CH_RATEGO :: string where "UUID_CH_RATEGO = ''679d5510-5a24-4dee-9557-95df80486ecb''"
definition UUID_CH_CCC :: string where "UUID_CH_CCC = ''00002902-0000-1000-8000-00805f9b34fb''"

record gatt =
  path_input :: string
  path_ccc_input :: string
  path_output :: string
  path_cmd_out :: string
  path_cmd_data :: string
  path_resp1 :: string
  path_ccc_resp1 :: string
  path_resp2 :: string
  path_ccc_resp2 :: string
  path_write5 :: string
  path_ratedesc :: string

definition zero_gatt :: gatt where
  "zero_gatt = \<lparr>path_input = [], path_ccc_input = [], path_output = [], path_cmd_out = [],
     path_cmd_data = [], path_resp1 = [], path_ccc_resp1 = [], path_resp2 = [],
     path_ccc_resp2 = [], path_write5 = [], path_ratedesc = []\<rparr>"

definition tolower :: "char \<Rightarrow> char" where
  "tolower c = (if 65 \<le> (of_char c :: nat) \<and> (of_char c :: nat) \<le> 90 then char_of ((of_char c :: nat) + 32) else c)"

definition same_nocase :: "string \<Rightarrow> string \<Rightarrow> bool" where
  "same_nocase a b \<longleftrightarrow> map tolower a = map tolower b"

fun occurs_in :: "string \<Rightarrow> string \<Rightarrow> bool" where
  "occurs_in needle [] = (needle = [])"
| "occurs_in needle (c # s) = (take (length needle) (c # s) = needle \<or> occurs_in needle s)"

text \<open>\<^verbatim>\<open>snprintf(dst, n, "%s", src)\<close>.\<close>

definition fit :: "nat \<Rightarrow> string \<Rightarrow> string" where
  "fit n s = take (n - 1) s"

text \<open>The property loop: the last UUID, and the \<open>r\<close> it ends with.\<close>

fun uuid_loop :: "props \<Rightarrow> string \<Rightarrow> string \<times> int" where
  "uuid_loop [] uuid = (uuid, 0)"
| "uuid_loop ((prop, v) # rest) uuid =
     (if prop = ''UUID''
      then uuid_loop rest (case v of PV_string u \<Rightarrow> fit 64 u | _ \<Rightarrow> uuid)
      else uuid_loop rest uuid)"

definition match_char :: "string \<Rightarrow> string \<Rightarrow> gatt \<Rightarrow> gatt" where
  "match_char uuid obj g =
     (if same_nocase uuid UUID_CH_INPUT then g\<lparr>path_input := fit 128 obj\<rparr>
      else if same_nocase uuid UUID_CH_OUTPUT then g\<lparr>path_output := fit 128 obj\<rparr>
      else if same_nocase uuid UUID_CH_CMD_OUT then g\<lparr>path_cmd_out := fit 128 obj\<rparr>
      else if same_nocase uuid UUID_CH_CMD_DATA then g\<lparr>path_cmd_data := fit 128 obj\<rparr>
      else if same_nocase uuid UUID_CH_RESP1 then g\<lparr>path_resp1 := fit 128 obj\<rparr>
      else if same_nocase uuid UUID_CH_RESP2 then g\<lparr>path_resp2 := fit 128 obj\<rparr>
      else if same_nocase uuid UUID_CH_WRITE5 then g\<lparr>path_write5 := fit 128 obj\<rparr>
      else if same_nocase uuid UUID_CH_RATEGO then g\<lparr>path_ratedesc := fit 128 obj\<rparr>
      else g)"

definition match_ccc :: "string \<Rightarrow> string \<Rightarrow> gatt \<Rightarrow> gatt" where
  "match_ccc uuid obj g =
     (if same_nocase uuid UUID_CH_CCC then
        (if path_input g \<noteq> [] \<and> occurs_in (drop (length (path_input g) - 5) (path_input g)) obj
         then g\<lparr>path_ccc_input := fit 128 obj\<rparr>
         else if path_resp1 g \<noteq> [] then g\<lparr>path_ccc_resp1 := fit 128 obj\<rparr>
         else if path_resp2 g \<noteq> [] then g\<lparr>path_ccc_resp2 := fit 128 obj\<rparr> else g)
      else g)"

text \<open>
  The loop over the interfaces of one object. After a characteristic or a descriptor the
  shared \<open>r\<close> is what the property loop left in it, and the condition is tested on that.
\<close>

fun iface_loop :: "int \<Rightarrow> string \<Rightarrow> (string \<times> props) list \<Rightarrow> gatt \<Rightarrow> gatt \<times> int" where
  "iface_loop r obj [] g = (if 0 < r then (g, 0) else (g, r))"
| "iface_loop r obj ((iface, ps) # rest) g =
     (if 0 < r then
        (if iface = IFACE_GATTCHAR then
           (let (uuid, r') = uuid_loop ps [] in iface_loop r' obj rest (match_char uuid obj g))
         else if iface = IFACE_GATTDESC then
           (let (uuid, r') = uuid_loop ps [] in iface_loop r' obj rest (match_ccc uuid obj g))
         else iface_loop 1 obj rest g)
      else (g, r))"

fun object_loop :: "int \<Rightarrow> object list \<Rightarrow> gatt \<Rightarrow> gatt" where
  "object_loop r [] g = g"
| "object_loop r ((obj, ifaces) # rest) g =
     (if 0 < r then (let (g', r') = iface_loop 1 obj ifaces g in object_loop r' rest g') else g)"

text \<open>\<^verbatim>\<open>discover_gatt\<close> on the reply (a negative code or the tree): code and paths.\<close>

definition discover_gatt :: "(int + object list) \<Rightarrow> gatt \<Rightarrow> int \<times> gatt" where
  "discover_gatt reply g0 = (case reply of
      Inl r \<Rightarrow> (r, g0)
    | Inr tree \<Rightarrow>
        (let g = object_loop 1 tree zero_gatt
         in if path_input g = [] \<or> path_cmd_data g = [] then (-19, g) else (0, g)))"

text \<open>\<^verbatim>\<open>adapter_find\<close>: the same loops; finding the interface returns at once.\<close>

fun adapter_ifaces :: "(string \<times> props) list \<Rightarrow> bool \<times> int" where
  "adapter_ifaces [] = (False, 0)"
| "adapter_ifaces ((iface, ps) # rest) = (if iface = IFACE_ADAPTER then (True, 1) else adapter_ifaces rest)"

fun adapter_objects :: "int \<Rightarrow> object list \<Rightarrow> string option" where
  "adapter_objects r [] = None"
| "adapter_objects r ((obj, ifaces) # rest) =
     (if 0 < r then
        (case adapter_ifaces ifaces of
           (True, _) \<Rightarrow> Some (fit 128 obj)
         | (False, r') \<Rightarrow> adapter_objects r' rest)
      else None)"

definition adapter_find :: "(int + object list) \<Rightarrow> int + string" where
  "adapter_find reply = (case reply of
      Inl r \<Rightarrow> Inl r
    | Inr tree \<Rightarrow> (case adapter_objects 1 tree of Some p \<Rightarrow> Inr p | None \<Rightarrow> Inl (-19)))"

end
