(* ===== verification/Bt_Daemon.thy ===== *)
theory Bt_Daemon
  imports Bt_Protocol Uhid
begin

text \<open>
  The control side of \<^verbatim>\<open>switch2-bt.c\<close>: D-Bus calls, the initialisation sequence, the
  signal handler, the event loop, connecting, cleaning up and the reconnect loop. The
  answers of BlueZ are lists of the record \<open>world\<close>; what the daemon asks BlueZ for is the
  list \<open>w_log\<close>. Reading the command line is left out: the address is an argument.
\<close>

section \<open>The world and the controller\<close>

datatype bus_act =
    B_call string string string \<comment> \<open>path, interface, method\<close>
  | B_write string bytes \<comment> \<open>characteristic, value\<close>
  | B_ccc string bytes \<comment> \<open>descriptor, value\<close>

text \<open>A message of the bus: a property change (interface, path, properties) or another one.\<close>

datatype bus_msg = Props_changed string string props | Other_msg

text \<open>What the device file holds when it is readable: rumble output, or something else.\<close>

datatype uhid_in = Uhid_output nat bytes | Uhid_other

text \<open>One round of the event loop: messages, the poll, and what was ready.\<close>

record round =
  r_before :: "bus_msg list"
  r_poll_failed :: bool
  r_uhid :: "uhid_in option"
  r_after :: "bus_msg list"
  r_signal :: bool

record world =
  w_env :: env
  w_props :: "int list"
  w_calls :: "int list"
  w_trees :: "(int + object list) list"
  w_rounds :: "round list list"
  w_log :: "bus_act list"

record ctrl =
  adapter :: string
  dev_path :: string
  bdaddr :: string
  gatt_of :: gatt
  uhid_fd :: int
  connected :: bool
  c_running :: bool
  pad_of :: pad

section \<open>D-Bus calls\<close>

text \<open>One call: logged, answered by the next code (success where none is scripted).\<close>

definition bus_call :: "bus_act \<Rightarrow> world \<Rightarrow> int \<times> world" where
  "bus_call a w = (case w_calls w of
      [] \<Rightarrow> (0, w\<lparr>w_log := w_log w @ [a]\<rparr>)
    | r # rs \<Rightarrow> (r, w\<lparr>w_log := w_log w @ [a], w_calls := rs\<rparr>))"

definition prop_bool :: "world \<Rightarrow> int \<times> world" where
  "prop_bool w = (case w_props w of [] \<Rightarrow> (-1, w) | r # rs \<Rightarrow> (r, w\<lparr>w_props := rs\<rparr>))"

definition gatt_write :: "string \<Rightarrow> bytes \<Rightarrow> world \<Rightarrow> int \<times> world" where
  "gatt_write path data w = bus_call (B_write path data) w"

definition ccc_write :: "string \<Rightarrow> world \<Rightarrow> int \<times> world" where
  "ccc_write desc w = bus_call (B_ccc desc [0x01, 0x00]) w"

definition gatt_notify :: "string \<Rightarrow> world \<Rightarrow> int \<times> world" where
  "gatt_notify path w = bus_call (B_call path IFACE_GATTCHAR ''StartNotify'') w"

definition bt_connect :: "string \<Rightarrow> world \<Rightarrow> int \<times> world" where
  "bt_connect path w = bus_call (B_call path IFACE_DEVICE ''Connect'') w"

definition bt_disconnect :: "string \<Rightarrow> world \<Rightarrow> world" where
  "bt_disconnect path w = snd (bus_call (B_call path IFACE_DEVICE ''Disconnect'') w)"

definition w_usleep :: "nat \<Rightarrow> world \<Rightarrow> world" where
  "w_usleep us w = w\<lparr>w_env := usleep us (w_env w)\<rparr>"

definition w_close :: "int \<Rightarrow> world \<Rightarrow> world" where
  "w_close fd w = w\<lparr>w_env := sys_close fd (w_env w)\<rparr>"

text \<open>\<^verbatim>\<open>wait_services\<close>: \<open>n\<close> more questions, a tenth of a second apart.\<close>

fun wait_services :: "nat \<Rightarrow> world \<Rightarrow> int \<times> world" where
  "wait_services 0 w = (-110, w)"
| "wait_services (Suc n) w =
     (let (r, w1) = prop_bool w
      in if 0 < r then (0, w1) else if r < 0 then (r, w1) else wait_services n (w_usleep 100000 w1))"

section \<open>Initialisation of the controller\<close>

definition nwcp_send_cmd :: "ctrl \<Rightarrow> byte \<Rightarrow> byte \<Rightarrow> bytes \<Rightarrow> world \<Rightarrow> int \<times> world" where
  "nwcp_send_cmd c cmd sub data w = gatt_write (path_cmd_data (gatt_of c)) (nwcp_frame cmd sub data) w"

text \<open>The commands of steps 3 to 11: command, subcommand, data.\<close>

definition init_commands :: "(byte \<times> byte \<times> bytes) list" where
  "init_commands =
     [(0x07, 0x01, []),
      (0x02, 0x04, [0x40, 0x7e, 0x00, 0x00, 0x00, 0x30, 0x01, 0x00]),
      (0x16, 0x01, []),
      (0x0A, 0x02, [0x03, 0x00, 0x00, 0x00]),
      (0x09, 0x07, [0x01, 0, 0, 0, 0, 0, 0, 0]),
      (0x0C, 0x02, [0x2f, 0x00, 0x00, 0x00]),
      (0x02, 0x04, [0x40, 0x7e, 0x00, 0x00, 0x80, 0x30, 0x01, 0x00]),
      (0x02, 0x04, [0x40, 0x7e, 0x00, 0x00, 0xc0, 0x30, 0x01, 0x00]),
      (0x02, 0x04, [0x40, 0x7e, 0x00, 0x00, 0x40, 0xc0, 0x1f, 0x00]),
      (0x02, 0x04, [0x10, 0x7e, 0x00, 0x00, 0x40, 0x30, 0x01, 0x00]),
      (0x02, 0x04, [0x18, 0x7e, 0x00, 0x00, 0x00, 0x31, 0x01, 0x00]),
      (0x11, 0x03, []),
      (0x02, 0x04, [0x20, 0x7e, 0x00, 0x00, 0x60, 0x30, 0x01, 0x00]),
      (0x0A, 0x08, [0x01, 0xff, 0xff, 0xff, 0xff, 0xff, 0xff, 0xff, 0xff, 0x35, 0x00, 0x46,
                    0x00, 0x00, 0x00, 0x00, 0x00, 0x00, 0x00, 0x00]),
      (0x0C, 0x04, [0x2f, 0x00, 0x00, 0x00])]"

fun send_commands :: "ctrl \<Rightarrow> (byte \<times> byte \<times> bytes) list \<Rightarrow> world \<Rightarrow> world" where
  "send_commands c [] w = w"
| "send_commands c ((cmd, sub, data) # rest) w =
     send_commands c rest (w_usleep 100000 (snd (nwcp_send_cmd c cmd sub data w)))"

definition ccc_step :: "string \<Rightarrow> nat \<Rightarrow> world \<Rightarrow> world" where
  "ccc_step path us w = (if path \<noteq> [] then w_usleep us (snd (ccc_write path w)) else w)"

definition init_sequence :: "ctrl \<Rightarrow> world \<Rightarrow> int \<times> world" where
  "init_sequence c w =
     (let g = gatt_of c;
          w1 = w_usleep 50000 (snd (gatt_write (path_write5 g) [0x01, 0x00] w));
          w2 = ccc_step (path_ccc_resp2 g) 50000 w1;
          w3 = ccc_step (path_ccc_resp1 g) 50000 w2;
          w4 = send_commands c init_commands w3;
          w5 = (if path_ratedesc g \<noteq> []
                then w_usleep 50000 (snd (gatt_write (path_ratedesc g) [0x85, 0x00] w4)) else w4);
          w6 = (if path_ccc_input g \<noteq> [] then snd (ccc_write (path_ccc_input g) w5) else w5)
      in (0, w6))"

section \<open>The virtual device\<close>

definition w_write :: "int \<Rightarrow> bytes \<Rightarrow> world \<Rightarrow> int \<times> world" where
  "w_write fd bs w = (let (n, e) = sys_write fd bs (w_env w) in (n, w\<lparr>w_env := e\<rparr>))"

definition uhid_create :: "(uhid_event \<Rightarrow> bytes) \<Rightarrow> bytes \<Rightarrow> int \<Rightarrow> world \<Rightarrow> int \<times> world" where
  "uhid_create ub rdesc fd w =
     (let ev = ub (UHID_CREATE ''Nintendo Switch 2 Pro Controller'' BUS_BLUETOOTH 0x057E 0x2060 0 0 rdesc);
          (n, w1) = w_write fd ev w
      in if n \<noteq> int (length ev) then (-1, w1) else (0, w1))"

definition uhid_destroy :: "(uhid_event \<Rightarrow> bytes) \<Rightarrow> int \<Rightarrow> world \<Rightarrow> world" where
  "uhid_destroy ub fd w = snd (w_write fd (ub UHID_DESTROY) w)"

definition uhid_input :: "(uhid_event \<Rightarrow> bytes) \<Rightarrow> int \<Rightarrow> bytes \<Rightarrow> world \<Rightarrow> world" where
  "uhid_input ub fd r w = snd (w_write fd (ub (UHID_INPUT (length r) (take 4096 r))) w)"

section \<open>The signal handler\<close>

text \<open>A "Value" property is parsed and sent on as a HID report, every time it occurs.\<close>

fun value_loop :: "(uhid_event \<Rightarrow> bytes) \<Rightarrow> props \<Rightarrow> ctrl \<Rightarrow> world \<Rightarrow> ctrl \<times> world" where
  "value_loop ub [] c w = (c, w)"
| "value_loop ub ((prop, v) # rest) c w =
     (case (prop = ''Value'', v) of
        (True, PV_bytes d) \<Rightarrow>
          (if d \<noteq> [] then
             (let c1 = c\<lparr>pad_of := parse_input d (pad_of c)\<rparr>;
                  w1 = (if 0 \<le> uhid_fd c1
                        then uhid_input ub (uhid_fd c1) (build_hid_report (pad_of c1)) w else w)
              in value_loop ub rest c1 w1)
           else value_loop ub rest c w)
      | _ \<Rightarrow> value_loop ub rest c w)"

fun connected_loop :: "props \<Rightarrow> ctrl \<Rightarrow> ctrl" where
  "connected_loop [] c = c"
| "connected_loop ((prop, v) # rest) c =
     connected_loop rest
       (if prop = ''Connected'' \<and> v = PV_bool False then c\<lparr>connected := False\<rparr> else c)"

definition dbus_filter :: "(uhid_event \<Rightarrow> bytes) \<Rightarrow> bus_msg \<Rightarrow> ctrl \<Rightarrow> world \<Rightarrow> ctrl \<times> world" where
  "dbus_filter ub m c w = (case m of
      Other_msg \<Rightarrow> (c, w)
    | Props_changed iface path ps \<Rightarrow>
        if iface = IFACE_GATTCHAR then
          (if path = path_input (gatt_of c) then value_loop ub ps c w else (c, w))
        else if iface = IFACE_DEVICE then (connected_loop ps c, w)
        else (c, w))"

text \<open>\<^verbatim>\<open>while (sd_bus_process(...) > 0)\<close>: every waiting message goes through the filter.\<close>

fun process_bus :: "(uhid_event \<Rightarrow> bytes) \<Rightarrow> bus_msg list \<Rightarrow> ctrl \<Rightarrow> world \<Rightarrow> ctrl \<times> world" where
  "process_bus ub [] c w = (c, w)"
| "process_bus ub (m # ms) c w =
     (let (c1, w1) = dbus_filter ub m c w in process_bus ub ms c1 w1)"

section \<open>The event loop\<close>

definition handle_uhid :: "uhid_in option \<Rightarrow> ctrl \<Rightarrow> world \<Rightarrow> world" where
  "handle_uhid ev c w = (case ev of
      Some (Uhid_output n data) \<Rightarrow>
        (if 3 \<le> n \<and> path_output (gatt_of c) \<noteq> []
         then snd (gatt_write (path_output (gatt_of c)) [0x00, data ! 1, data ! 2] w) else w)
    | _ \<Rightarrow> w)"

text \<open>The loop over the rounds that happen; \<open>None\<close> while it has not ended with the last one.\<close>

fun event_rounds :: "(uhid_event \<Rightarrow> bytes) \<Rightarrow> round list \<Rightarrow> ctrl \<Rightarrow> world \<Rightarrow> (ctrl \<times> world) option" where
  "event_rounds ub rds c w =
     (if \<not> (c_running c \<and> connected c) then Some (c, w)
      else case rds of
        [] \<Rightarrow> None
      | rd # rest \<Rightarrow>
          (case process_bus ub (r_before rd) c w of (c1, w1) \<Rightarrow>
             if r_poll_failed rd then Some (c1, w1)
             else if \<not> connected c1 then Some (c1, w1)
             else (case process_bus ub (r_after rd) c1 (handle_uhid (r_uhid rd) c1 w1) of (c2, w2) \<Rightarrow>
               event_rounds ub rest (if r_signal rd then c2\<lparr>c_running := False\<rparr> else c2) w2)))"

text \<open>\<^verbatim>\<open>event_loop\<close>; the descriptor \<open>sfd\<close> of the signals is opened and closed by it.\<close>

definition event_loop :: "(uhid_event \<Rightarrow> bytes) \<Rightarrow> ctrl \<Rightarrow> world \<Rightarrow> (ctrl \<times> world) option" where
  "event_loop ub c w =
     (let (sfd, e1) = sys_fd (w_env w);
          rds = (case w_rounds w of [] \<Rightarrow> [] | r # rs \<Rightarrow> r);
          w1 = w\<lparr>w_env := e1, w_rounds := drop 1 (w_rounds w)\<rparr>
      in map_option (\<lambda>(c2, w2). (c2, w_close sfd w2)) (event_rounds ub rds (c\<lparr>c_running := True\<rparr>) w1))"

section \<open>Connecting and cleaning up\<close>

definition next_tree :: "world \<Rightarrow> (int + object list) \<times> world" where
  "next_tree w = (case w_trees w of [] \<Rightarrow> (Inl (-1), w) | t # ts \<Rightarrow> (t, w\<lparr>w_trees := ts\<rparr>))"

definition connect_init ::
  "(uhid_event \<Rightarrow> bytes) \<Rightarrow> bytes \<Rightarrow> ctrl \<Rightarrow> world \<Rightarrow> int \<times> ctrl \<times> world" where
  "connect_init ub rdesc c w =
     (let (r1, w1) = bt_connect (dev_path c) w in
      if r1 < 0 then (-1, c, w1)
      else let (r2, w2) = wait_services 150 w1 in
      if r2 < 0 then (-1, c, bt_disconnect (dev_path c) w2)
      else let (reply, w3) = next_tree w2; (r3, g) = discover_gatt reply (gatt_of c);
               c3 = c\<lparr>gatt_of := g\<rparr> in
      if r3 < 0 then (-1, c3, bt_disconnect (dev_path c) w3)
      else let (fd, e4) = sys_fd (w_env w3); w4 = w3\<lparr>w_env := e4\<rparr>; c4 = c3\<lparr>uhid_fd := fd\<rparr> in
      if fd < 0 then (-1, c4, bt_disconnect (dev_path c) w4)
      else let (r5, w5) = uhid_create ub rdesc fd w4 in
      if r5 < 0 then (-1, c4, bt_disconnect (dev_path c) (w_close fd w5))
      else let (r6, w6) = init_sequence c4 w5 in
      if r6 < 0 then (-1, c4, bt_disconnect (dev_path c) (w_close fd (uhid_destroy ub fd w6)))
      else let (r7, w7) = gatt_notify (path_input (gatt_of c4)) w6
           in (0, c4\<lparr>connected := True\<rparr>, w7))"

definition cleanup :: "(uhid_event \<Rightarrow> bytes) \<Rightarrow> ctrl \<Rightarrow> world \<Rightarrow> ctrl \<times> world" where
  "cleanup ub c w =
     (let (c1, w1) = (if 0 \<le> uhid_fd c
            then (c\<lparr>uhid_fd := -1\<rparr>, w_close (uhid_fd c) (uhid_destroy ub (uhid_fd c) w)) else (c, w));
          w2 = (if dev_path c1 \<noteq> [] then bt_disconnect (dev_path c1) w1 else w1)
      in (c1\<lparr>connected := False\<rparr>, w2))"

section \<open>The program\<close>

definition zero_pad :: pad where
  "zero_pad = \<lparr>buttons = 0, lx = 2048, ly = 2048, rx = 2048, ry = 2048, dpad = 8\<rparr>"

definition device_path :: "string \<Rightarrow> string \<Rightarrow> string" where
  "device_path adp addr = fit 128 (adp @ ''/dev_'' @ map (\<lambda>c. if c = CHR '':'' then CHR ''_'' else c) (fit 18 addr))"

definition init_ctrl :: "string \<Rightarrow> string \<Rightarrow> ctrl" where
  "init_ctrl adp addr = \<lparr>adapter = adp, dev_path = device_path adp addr, bdaddr = fit 18 addr,
     gatt_of = zero_gatt, uhid_fd = -1, connected = False, c_running = False, pad_of = zero_pad\<rparr>"

text \<open>The reconnect loop: \<open>first\<close> is the first attempt, \<open>delay\<close> the pause before another.\<close>

fun attempts :: "nat \<Rightarrow> (uhid_event \<Rightarrow> bytes) \<Rightarrow> bytes \<Rightarrow> bool \<Rightarrow> nat \<Rightarrow> ctrl \<Rightarrow> world \<Rightarrow> (ctrl \<times> world) option" where
  "attempts 0 ub rdesc first delay c w = None"
| "attempts (Suc fuel) ub rdesc first delay c w =
     (let (delay1, w1) = (if first then (delay, w)
            else (if delay < 30 then delay * 2 else delay, w_usleep (1000000 * delay) w))
      in case connect_init ub rdesc c w1 of (r, c2, w2) \<Rightarrow>
           if r < 0 then attempts fuel ub rdesc False delay1 c2 w2
           else (case event_loop ub c2 w2 of
                   None \<Rightarrow> None
                 | Some (c3, w3) \<Rightarrow>
                    (case cleanup ub c3 w3 of (c4, w4) \<Rightarrow>
                       if \<not> c_running c4 then Some (c4, w4)
                       else attempts fuel ub rdesc False 1 (c4\<lparr>uhid_fd := -1\<rparr>)
                              (w_close (uhid_fd c4) w4))))"

text \<open>\<^verbatim>\<open>main\<close> from the opened bus on: the exit code and the world.\<close>

definition bt_main :: "nat \<Rightarrow> (uhid_event \<Rightarrow> bytes) \<Rightarrow> bytes \<Rightarrow> string \<Rightarrow> world \<Rightarrow> (int \<times> world) option" where
  "bt_main fuel ub rdesc addr w =
     (let (reply, w1) = next_tree w
      in case adapter_find reply of
           Inl r \<Rightarrow> Some (1, w1)
         | Inr adp \<Rightarrow>
             map_option (\<lambda>(c, w2). (0, if 0 \<le> uhid_fd c then w_close (uhid_fd c) w2 else w2))
               (attempts fuel ub rdesc True 1 (init_ctrl adp addr) w1))"

end
