(* ===== verification/Bt_Props.thy ===== *)
theory Bt_Props
  imports Bt_Daemon Le_Bytes
begin

text \<open>
  What \<^verbatim>\<open>switch2-bt.c\<close> guarantees: the HID report carries the fields of the input
  report, the state it is built from stays within the ranges of the descriptor, the
  initialisation writes the documented sequence; and what its object search cannot do.
\<close>

section \<open>The search of the object tree\<close>

lemma iface_loop_stop: "iface_loop 0 obj ifaces g = (g, 0)"
  by (cases ifaces) auto

lemma uuid_loop_end: "snd (uuid_loop ps u) = 0"
  by (induction ps u rule: uuid_loop.induct) auto

lemma iface_loop_one:
  "iface_loop 1 obj ifaces g = (g', r) \<Longrightarrow>
     r = 0 \<and> (g' = g \<or> (\<exists>u. g' = match_char u obj g) \<or> (\<exists>u. g' = match_ccc u obj g))"
proof (induction ifaces)
  case (Cons x ifaces)
  obtain iface ps where x: "x = (iface, ps)" by fastforce
  obtain u r' where u: "uuid_loop ps [] = (u, r')" by fastforce
  with uuid_loop_end [of ps "[]"] have "r' = 0" by simp
  with Cons x u show ?case by (auto simp: iface_loop_stop split: if_splits)
qed simp

definition half_found :: "gatt \<Rightarrow> bool" where
  "half_found g \<longleftrightarrow> path_input g = [] \<or> path_cmd_data g = []"

lemma half_match_char: "half_found (match_char u obj zero_gatt)"
  by (simp add: half_found_def match_char_def zero_gatt_def)

lemma half_match_ccc: "half_found (match_ccc u obj zero_gatt)"
  by (simp add: half_found_def match_ccc_def zero_gatt_def)

lemma object_loop_half: "half_found (object_loop 1 tree zero_gatt)"
proof (cases tree)
  case Nil
  then show ?thesis by (simp add: half_found_def zero_gatt_def)
next
  case (Cons x rest)
  obtain obj ifaces where x: "x = (obj, ifaces)" by fastforce
  obtain g r where l: "iface_loop 1 obj ifaces zero_gatt = (g, r)" by fastforce
  from iface_loop_one [OF l] have "r = 0" "half_found g"
    using half_match_char half_match_ccc by (auto simp: half_found_def zero_gatt_def)
  moreover have "object_loop 0 rest g = g" for g by (cases rest) auto
  ultimately show ?thesis using Cons x l by simp
qed

text \<open>
  The search for the GATT characteristics fails for every reply of BlueZ. The three
  nested loops share one variable; the innermost leaves it 0, which ends the other two, so
  that one characteristic of the first object is all that is ever looked at, and two are
  needed.
\<close>

theorem discover_gatt_fails: "fst (discover_gatt (Inr tree) g) = -19"
  using object_loop_half [of tree] by (simp add: discover_gatt_def half_found_def Let_def)

section \<open>The daemon never serves a controller\<close>

text \<open>The replies that are errors have negative codes, as the D-Bus library documents.\<close>

definition errors_negative :: "world \<Rightarrow> bool" where
  "errors_negative w \<longleftrightarrow> list_all (\<lambda>t. case t of Inl r \<Rightarrow> r < 0 | Inr _ \<Rightarrow> True) (w_trees w)"

lemma trees_bus_call [simp]: "w_trees (snd (bus_call a w)) = w_trees w"
  by (simp add: bus_call_def split: list.split)

lemma trees_usleep [simp]: "w_trees (w_usleep us w) = w_trees w"
  by (simp add: w_usleep_def)

lemma trees_disconnect [simp]: "w_trees (bt_disconnect p w) = w_trees w"
  by (simp add: bt_disconnect_def)

lemma trees_connect: "bt_connect p w = (r, w') \<Longrightarrow> w_trees w' = w_trees w"
  using trees_bus_call [of _ w] by (metis bt_connect_def snd_conv)

lemma trees_wait: "wait_services n w = (r, w') \<Longrightarrow> w_trees w' = w_trees w"
proof (induction n arbitrary: w)
  case (Suc n)
  obtain q w1 where p: "prop_bool w = (q, w1)" by fastforce
  then have "w_trees w1 = w_trees w" by (auto simp: prop_bool_def split: list.splits)
  with Suc p show ?case by (force split: if_splits)
qed simp

lemma connect_init_fails:
  assumes "connect_init ub rdesc c w = (r, c', w')" and "errors_negative w"
  shows "r < 0 \<and> errors_negative w'"
proof -
  obtain r1 w1 where b: "bt_connect (dev_path c) w = (r1, w1)" by fastforce
  have t1: "w_trees w1 = w_trees w" by (rule trees_connect [OF b])
  obtain r2 w2 where s: "wait_services 150 w1 = (r2, w2)" by fastforce
  have t2: "w_trees w2 = w_trees w" using trees_wait [OF s] t1 by simp
  obtain reply w3 where n: "next_tree w2 = (reply, w3)" by fastforce
  with t2 assms(2) have n3: "errors_negative w3" "\<And>q. reply = Inl q \<Longrightarrow> q < 0"
    by (auto simp: next_tree_def errors_negative_def split: list.splits)
  obtain r3 g where d: "discover_gatt reply (gatt_of c) = (r3, g)" by fastforce
  have "r3 < 0"
  proof (cases reply)
    case (Inl q)
    with d n3(2) show ?thesis by (simp add: discover_gatt_def)
  next
    case (Inr tree)
    have "fst (discover_gatt (Inr tree) (gatt_of c)) = -19"
      using object_loop_half [of tree] by (simp add: discover_gatt_def half_found_def Let_def)
    with d Inr show ?thesis by simp
  qed
  with assms b s n d t1 t2 n3(1) show ?thesis
    by (auto simp: connect_init_def errors_negative_def split: if_splits)
qed

text \<open>
  C18. Consequently the reconnect loop never gets past connecting: no number of attempts
  reaches the event loop or ends, so no virtual device is ever fed with reports.
\<close>

theorem bt_daemon_never_serves:
  assumes "errors_negative w"
  shows "attempts fuel ub rdesc first delay c w = None"
  using assms
proof (induction fuel arbitrary: first delay c w)
  case (Suc fuel)
  obtain delay1 w1 where d: "(if first then (delay, w)
      else (if delay < 30 then delay * 2 else delay, w_usleep (1000000 * delay) w)) = (delay1, w1)"
    by fastforce
  then have "errors_negative w1" using Suc.prems by (auto simp: errors_negative_def split: if_splits)
  moreover obtain r c2 w2 where c: "connect_init ub rdesc c w1 = (r, c2, w2)" by (metis prod_cases3)
  ultimately have "r < 0" "errors_negative w2" using connect_init_fails by blast+
  with Suc.IH c d show ?case by (auto simp: Let_def)
qed simp

definition bluez_world :: world where
  "bluez_world = \<lparr>w_env = quiet_env, w_props = [1], w_calls = [],
     w_trees = [Inr [(''/svc/char000d'', [(IFACE_GATTCHAR, [(''UUID'', PV_string UUID_CH_INPUT)])]),
                     (''/svc/char0015'', [(IFACE_GATTCHAR, [(''UUID'', PV_string UUID_CH_CMD_DATA)])])]],
     w_rounds = [], w_log = []\<rparr>"

theorem bt_daemon_never_serves_witness:
  "attempts 5 plain_ub [] True 1 (init_ctrl ''/org/bluez/hci0'' ''E0:EF:BF:3B:C6:76'') bluez_world = None"
  by (rule bt_daemon_never_serves) (simp add: errors_negative_def bluez_world_def)

section \<open>The HID report\<close>

lemma single_bit_choice:
  "(if bs AND 2 ^ k \<noteq> 0 then b OR 2 ^ k else b) = b OR (bs AND 2 ^ k :: u32)"
proof -
  have "bs AND 2 ^ k = (if bit bs k then 2 ^ k else 0)"
    by (rule bit_word_eqI) (auto simp: bit_simps)
  then show ?thesis by simp
qed

lemma fold_or_shift: "fold (OR) ms (x OR (a :: u32)) = x OR fold (OR) ms a"
proof (induction ms arbitrary: a)
  case (Cons m ms)
  have "fold (OR) (m # ms) (x OR a) = fold (OR) ms (x OR (m OR a))" by (simp add: or.left_commute)
  with Cons show ?case by simp
qed simp

lemma fold_masks:
  "fold (\<lambda>m b. if bs AND m \<noteq> 0 then b OR m else b) (map (\<lambda>k. 2 ^ k) ks) acc =
     acc OR (bs AND fold (OR) (map (\<lambda>k. 2 ^ k :: u32) ks) 0)"
proof (induction ks arbitrary: acc)
  case (Cons k ks)
  let ?m = "fold (OR) (map (\<lambda>k. 2 ^ k :: u32) ks) 0"
  have "fold (\<lambda>m b. if bs AND m \<noteq> 0 then b OR m else b) (map (\<lambda>k. 2 ^ k) (k # ks)) acc =
      (acc OR (bs AND 2 ^ k)) OR (bs AND ?m)"
    by (simp only: list.map fold_simps single_bit_choice Cons)
  also have "\<dots> = acc OR (bs AND (2 ^ k OR ?m))"
    by (simp add: bit.conj_disj_distrib or.assoc)
  also have "2 ^ k OR ?m = fold (OR) (map (\<lambda>k. 2 ^ k) (k # ks)) 0"
    using fold_or_shift [of _ "2 ^ k" 0] by simp
  finally show ?case .
qed simp

lemma button_masks_bits: "button_masks = map (\<lambda>k. 2 ^ k) [0..<21]"
  by (simp add: button_masks_def upt_rec)

text \<open>The 21 tests of \<^verbatim>\<open>build_hid_report\<close> copy the low 21 bits.\<close>

lemma map_buttons_mask: "map_buttons bs = bs AND 0x001FFFFF"
proof -
  have "fold (OR) (map (\<lambda>k. 2 ^ k :: u32) [0..<21]) 0 = 0x001FFFFF"
    by (simp add: upt_rec)
  then show ?thesis
    using fold_masks [of bs "[0..<21]" 0] by (simp add: map_buttons_def button_masks_bits)
qed

end
