(* ===== verification/Bt_Reports.thy ===== *)
theory Bt_Reports
  imports Bt_Props
begin

text \<open>
  The HID reports of \<^verbatim>\<open>switch2-bt.c\<close>: what a report says of the input it was built
  from, the ranges its fields stay in through the whole event loop, and the frames and the
  order of the initialisation.
\<close>

section \<open>Fields of a report\<close>

lemma unat_drop4: "unat (drop_bit 4 (m::byte)) = unat m div 16"
  by (simp add: drop_bit_eq_div unat_div_distrib)

lemma unat_and15: "unat (m AND 0x0F :: byte) = unat m mod 16"
proof -
  have "take_bit 4 m = m AND 0x0F" by (simp add: take_bit_eq_mask mask_eq_exp_minus_1)
  then have "m AND 0x0F = m mod 16" by (simp add: take_bit_eq_mod)
  then show ?thesis by (simp add: unat_mod_distrib)
qed

lemma and_fff: "(w :: u16) AND 0xFFF = take_bit 12 w" by (simp add: take_bit_eq_mask mask_eq_exp_minus_1)

lemma unat_nibble_or:
  assumes "unat m < 16"
  shows "unat ((push_bit 4 (ucast (a::byte)) OR ucast (m::byte) :: u16) AND 0xFFF) = unat a * 16 + unat m"
proof -
  have le: "unat a * 16 + unat m < 4096" using assms unat_byte_less [of a] by linarith
  have "take_bit 4 m = m"
    using assms by (simp add: word_unat_eq_iff unsigned_take_bit_eq take_bit_nat_eq_self)
  then have b: "\<not> bit m n" if "4 \<le> n" for n
    using that by (metis bit_take_bit_iff not_less)
  have dis: "push_bit 4 (ucast a) OR ucast m = (push_bit 4 (ucast a) + ucast m :: u16)"
    by (rule disjunctive_add [symmetric]) (auto simp: bit_simps b)
  have p: "unat (push_bit 4 (ucast a) :: u16) = unat a * 16"
    using le by (simp add: push_bit_eq_mult unat_word_ariths)
  have "unat (push_bit 4 (ucast a) + ucast m :: u16) = unat a * 16 + unat m"
    using le p by (subst unat_plus_simple [THEN iffD1]) (auto simp: no_olen_add_nat)
  then show ?thesis using dis le and_fff by (simp add: unsigned_take_bit_eq take_bit_nat_eq_self)
qed

lemma unat_stick_hi: "unat (stick_hi a m) = unat a * 16 + unat m div 16"
  unfolding stick_hi_def unat_drop4 [symmetric]
  by (rule unat_nibble_or) (unfold unat_drop4, use unat_byte_less [of m] in linarith)

lemma unat_stick_lo: "unat (stick_lo a m) = unat a * 16 + unat m mod 16"
  unfolding stick_lo_def unat_and15 [symmetric]
  by (rule unat_nibble_or) (unfold unat_and15, simp)

lemma masks:
  "(0xFF :: 'a::len word) = mask 8" "(0x1F :: byte) = mask 5" "(0x001FFFFF :: u32) = mask 21"
  by (simp_all add: mask_eq_exp_minus_1)

lemma low_byte: "(ucast ((w :: 'a::len word) AND 0xFF) :: byte) = ucast w"
  unfolding masks by (rule bit_word_eqI) (auto simp: bit_simps dest: bit_imp_le_length)

lemma le16_bytes:
  "unat (ucast ((w :: u16) AND 0xFF) :: byte) + 256 * unat (ucast (drop_bit 8 w AND 0xFF) :: byte) = unat w"
proof -
  have "unat w div 256 < 256" using unat_u16_less [of w] by (simp add: less_mult_imp_div_less)
  then show ?thesis
    unfolding low_byte
    by (simp add: unsigned_ucast_eq drop_bit_eq_div unat_div_distrib take_bit_eq_mod)
qed

text \<open>A 16-bit field of a report.\<close>

definition field16 :: "bytes \<Rightarrow> nat \<Rightarrow> nat" where
  "field16 r off = unat (r ! off) + 256 * unat (r ! (off + 1))"

lemma button_bytes:
  "(ucast (map_buttons b AND 0xFF) :: byte) = ucast b"
  "(ucast (drop_bit 8 (map_buttons b) AND 0xFF) :: byte) = ucast (drop_bit 8 b)"
  "(ucast (drop_bit 16 (map_buttons b) AND 0xFF) :: byte) = ucast (drop_bit 16 b) AND 0x1F"
  unfolding low_byte map_buttons_mask unfolding masks
  by (rule bit_word_eqI; auto simp: bit_simps)+

lemma report_fields:
  "length (build_hid_report c) = 13" "build_hid_report c ! 0 = 1"
  "build_hid_report c ! 1 = ucast (buttons c)"
  "build_hid_report c ! 2 = ucast (drop_bit 8 (buttons c))"
  "build_hid_report c ! 3 = ucast (drop_bit 16 (buttons c)) AND 0x1F"
  "field16 (build_hid_report c) 4 = unat (lx c)" "field16 (build_hid_report c) 6 = unat (ly c)"
  "field16 (build_hid_report c) 8 = unat (rx c)" "field16 (build_hid_report c) 10 = unat (ry c)"
  "build_hid_report c ! 12 = dpad c AND 0x0F"
  by (simp_all add: build_hid_report_def field16_def Let_def button_bytes le16_bytes)

lemma hat_range: "hat_of_nibble x \<le> 8" and hat_nibble: "hat_of_nibble x AND 0x0F = hat_of_nibble x"
  by (simp_all add: hat_of_nibble_def)



section \<open>Every report is within the ranges of the descriptor\<close>

definition pad_ok :: "pad \<Rightarrow> bool" where
  "pad_ok c \<longleftrightarrow> lx c \<le> 0xFFF \<and> ly c \<le> 0xFFF \<and> rx c \<le> 0xFFF \<and> ry c \<le> 0xFFF \<and> dpad c \<le> 8"

lemma stick_range: "stick_hi a m \<le> 0xFFF" "stick_lo a m \<le> 0xFFF"
  unfolding stick_hi_def stick_lo_def by (rule word_and_le1)+

lemma pad_ok_parse: "pad_ok c \<Longrightarrow> pad_ok (parse_input d c)"
  by (simp add: pad_ok_def parse_input_def stick_range hat_range)

definition hid_ok :: "bytes \<Rightarrow> bool" where
  "hid_ok r \<longleftrightarrow> length r = 13 \<and> r ! 0 = 1 \<and> r ! 3 \<le> 0x1F \<and> field16 r 4 \<le> 4095 \<and> field16 r 6 \<le> 4095 \<and>
     field16 r 8 \<le> 4095 \<and> field16 r 10 \<le> 4095 \<and> r ! 12 \<le> 8"

lemma hid_ok_build: "pad_ok c \<Longrightarrow> hid_ok (build_hid_report c)"
proof -
  assume "pad_ok c"
  then have "unat (lx c) \<le> 4095" "unat (ly c) \<le> 4095" "unat (rx c) \<le> 4095" "unat (ry c) \<le> 4095"
    by (simp_all add: pad_ok_def word_le_nat_alt)
  moreover have "dpad c AND 0x0F \<le> 8"
    using \<open>pad_ok c\<close> unfolding pad_ok_def by (meson word_and_le2 order_trans)
  ultimately show ?thesis
    unfolding hid_ok_def report_fields by (simp add: word_and_le1)
qed

text \<open>
  The actions the event loop may take: input events with reports in range on the device, and
  closing a descriptor.
\<close>

definition report_act :: "(uhid_event \<Rightarrow> bytes) \<Rightarrow> int \<Rightarrow> action \<Rightarrow> bool" where
  "report_act ub fd a = (case a of
      A_write g bs \<Rightarrow> g = fd \<and> (\<exists>r k. hid_ok r \<and> bs = take k (ub (UHID_INPUT 13 r)))
    | A_close g \<Rightarrow> True
    | _ \<Rightarrow> False)"

abbreviation "reports ub fd w w' \<equiv> acts_in (report_act ub fd) (w_env w) (w_env w')"

lemma reports_uhid_input:
  "pad_ok c \<Longrightarrow> reports ub fd w (uhid_input ub fd (build_hid_report c) w)"
proof -
  assume c: "pad_ok c"
  obtain n e' where s: "sys_write fd (ub (UHID_INPUT 13 (build_hid_report c))) (w_env w) = (n, e')" by fastforce
  have "acts_in (report_act ub fd) (w_env w) e'"
    by (rule sys_write_acts_in [OF s]) (use hid_ok_build [OF c] in \<open>auto simp: report_act_def\<close>)
  with s show ?thesis by (simp add: uhid_input_def w_write_def report_fields)
qed

text \<open>What each step of the loop keeps: the state in range, the device, the trace of reports.\<close>

definition serves :: "(uhid_event \<Rightarrow> bytes) \<Rightarrow> ctrl \<times> world \<Rightarrow> ctrl \<times> world \<Rightarrow> bool" where
  "serves ub = (\<lambda>(c, w) (c', w').
     pad_ok (pad_of c) \<longrightarrow> pad_ok (pad_of c') \<and> uhid_fd c' = uhid_fd c \<and> reports ub (uhid_fd c) w w')"

lemma serves_refl [simp]: "serves ub s s"
  by (simp add: serves_def split: prod.split)

lemma serves_trans: "serves ub s s' \<Longrightarrow> serves ub s' s'' \<Longrightarrow> serves ub s s''"
  by (auto simp: serves_def split: prod.splits intro: acts_in_trans)

lemma serves_value_loop: "serves ub (c, w) (value_loop ub ps c w)"
proof (induction ps arbitrary: c w)
  case (Cons p rest)
  obtain pn v where p: "p = (pn, v)" by fastforce
  define c1 where "c1 d = c\<lparr>pad_of := parse_input d (pad_of c)\<rparr>" for d
  define w1 where "w1 d = (if 0 \<le> uhid_fd (c1 d)
      then uhid_input ub (uhid_fd (c1 d)) (build_hid_report (pad_of (c1 d))) w else w)" for d
  have step: "serves ub (c, w) (c1 d, w1 d)" for d
    by (simp add: serves_def c1_def w1_def pad_ok_parse reports_uhid_input)
  show ?case
  proof (cases "\<exists>d. pn = ''Value'' \<and> v = PV_bytes d \<and> d \<noteq> []")
    case True
    then obtain d where d: "pn = ''Value''" "v = PV_bytes d" "d \<noteq> []" by blast
    then have "value_loop ub ((pn, v) # rest) c w = value_loop ub rest (c1 d) (w1 d)"
      by (simp add: c1_def w1_def Let_def)
    with serves_trans [OF step Cons.IH] p show ?thesis by simp
  next
    case False
    then have "value_loop ub ((pn, v) # rest) c w = value_loop ub rest c w"
      by (cases "pn = ''Value''"; cases v) auto
    with Cons.IH p show ?thesis by simp
  qed
qed simp

lemma serves_connected_loop: "serves ub (c, w) (connected_loop ps c, w)"
proof (induction ps c rule: connected_loop.induct)
  case (2 pn v rest c)
  define c1 where "c1 = (if pn = ''Connected'' \<and> v = PV_bool False then c\<lparr>connected := False\<rparr> else c)"
  have "serves ub (c, w) (c1, w)" by (simp add: serves_def c1_def)
  moreover have "serves ub (c1, w) (connected_loop rest c1, w)" using 2 by (simp add: c1_def)
  ultimately show ?case unfolding connected_loop.simps c1_def by (rule serves_trans)
qed simp

lemma serves_dbus_filter: "serves ub (c, w) (dbus_filter ub m c w)"
  by (simp add: dbus_filter_def serves_value_loop serves_connected_loop split: bus_msg.split)

lemma serves_process_bus: "serves ub (c, w) (process_bus ub ms c w)"
proof (induction ms arbitrary: c w)
  case (Cons m ms)
  obtain c1 w1 where f: "dbus_filter ub m c w = (c1, w1)" by fastforce
  with serves_dbus_filter [of ub c w m] have "serves ub (c, w) (c1, w1)" by simp
  with Cons.IH [of c1 w1] f show ?case using serves_trans by fastforce
qed simp

lemma env_bus_call [simp]: "w_env (snd (bus_call a w)) = w_env w"
  by (simp add: bus_call_def split: list.split)

lemma serves_handle_uhid: "serves ub (c, w) (c, handle_uhid ev c w)"
proof -
  have "w_env (handle_uhid ev c w) = w_env w"
    by (simp add: handle_uhid_def gatt_write_def split: option.split uhid_in.split)
  then show ?thesis by (simp add: serves_def)
qed

lemma serves_event_rounds:
  "event_rounds ub rds c w = Some (c', w') \<Longrightarrow> serves ub (c, w) (c', w')"
proof (induction rds arbitrary: c w)
  case Nil
  then show ?case by (auto split: if_splits)
next
  case (Cons rd rest)
  obtain c1 w1 where b: "process_bus ub (r_before rd) c w = (c1, w1)" by fastforce
  obtain c2 w2 where a: "process_bus ub (r_after rd) c1 (handle_uhid (r_uhid rd) c1 w1) = (c2, w2)"
    by fastforce
  have 1: "serves ub (c, w) (c1, w1)" using serves_process_bus [of ub c w] b by metis
  have 2: "serves ub (c1, w1) (c2, w2)"
    using serves_trans [OF serves_handle_uhid serves_process_bus] a by metis
  define c3 where "c3 = (if r_signal rd then c2\<lparr>c_running := False\<rparr> else c2)"
  have 3: "serves ub (c2, w2) (c3, w2)" by (simp add: serves_def c3_def)
  show ?case
    using Cons.prems Cons.IH [of c3 w2] 1 serves_trans [OF serves_trans [OF 1 2] 3] b a
    by (auto simp: c3_def [symmetric] split: if_splits intro: serves_trans)
qed

text \<open>
  C17. All that the event loop does outside, whatever messages, output reports and signals
  arrive and whichever calls fail, is to send input events whose reports are within the
  ranges of the descriptor (13 bytes, report id 1, five bits in the third button byte, stick
  fields up to 4095, hat up to 8) to the virtual device, and to close its signal descriptor;
  the state it leaves is again one that gives such reports.
\<close>

theorem event_loop_reports_in_range:
  assumes "event_loop ub c w = Some (c', w')" and "pad_ok (pad_of c)"
  shows "pad_ok (pad_of c') \<and> acts_in (report_act ub (uhid_fd c)) (w_env w) (w_env w')"
proof -
  obtain sfd e1 where s: "sys_fd (w_env w) = (sfd, e1)" by fastforce
  then have e1: "acts_in (report_act ub (uhid_fd c)) (w_env w) e1"
    by (intro acts_in_silent sys_fd_mono) (auto simp: sys_fd_def split: list.splits)
  define rds where "rds = (case w_rounds w of [] \<Rightarrow> [] | r # rs \<Rightarrow> r)"
  define w1 where "w1 = w\<lparr>w_env := e1, w_rounds := drop 1 (w_rounds w)\<rparr>"
  have w1: "w_env w1 = e1" by (simp add: w1_def)
  from assms(1) s obtain w2 where
    l: "event_rounds ub rds (c\<lparr>c_running := True\<rparr>) w1 = Some (c', w2)" and w2: "w' = w_close sfd w2"
    unfolding event_loop_def Let_def rds_def w1_def by (auto simp del: event_rounds.simps)
  have r: "pad_ok (pad_of c')" "acts_in (report_act ub (uhid_fd c)) e1 (w_env w2)"
    using serves_event_rounds [OF l] assms(2) w1 by (auto simp: serves_def)
  have "acts_in (report_act ub (uhid_fd c)) (w_env w2) (w_env w')"
    by (rule acts_in_one [where a = "A_close sfd"])
      (simp_all add: w2 w_close_def sys_close_def report_act_def env_le_def)
  with acts_in_trans [OF acts_in_trans [OF e1 r(2)]] r(1) show ?thesis by blast
qed

definition demo_ctrl :: ctrl where
  "demo_ctrl = (init_ctrl ''/org/bluez/hci0'' ''E0:EF:BF:3B:C6:76'')
     \<lparr>uhid_fd := 5, connected := True, gatt_of := zero_gatt\<lparr>path_input := ''/in'', path_output := ''/out''\<rparr>\<rparr>"

definition demo_world :: world where
  "demo_world = \<lparr>w_env = quiet_env\<lparr>fds := [7]\<rparr>, w_props = [], w_calls = [], w_trees = [],
     w_rounds = [[\<lparr>r_before = [Props_changed IFACE_GATTCHAR ''/in''
         [(''Value'', PV_bytes [0, 0, 0x21, 0x18, 0xE3, 0x80, 0x2F, 0x7A, 1, 2, 3])]], r_poll_failed = False,
       r_uhid = Some (Uhid_output 3 [3, 9, 8]), r_after = [], r_signal = True\<rparr>]], w_log = []\<rparr>"

theorem event_loop_reports_in_range_witness:
  "\<exists>c' w'. event_loop plain_ub demo_ctrl demo_world = Some (c', w') \<and>
     acts_in (report_act plain_ub 5) (quiet_env\<lparr>fds := [7]\<rparr>) (w_env w')"
proof -
  have "event_loop plain_ub demo_ctrl demo_world \<noteq> None"
    by (simp add: event_loop_def demo_ctrl_def demo_world_def quiet_env_def sys_fd_def dbus_filter_def
        init_ctrl_def split_def)
  then obtain c' w' where "event_loop plain_ub demo_ctrl demo_world = Some (c', w')" by auto
  moreover from event_loop_reports_in_range [OF this]
  have "acts_in (report_act plain_ub 5) (quiet_env\<lparr>fds := [7]\<rparr>) (w_env w')"
    by (simp add: demo_ctrl_def demo_world_def init_ctrl_def zero_pad_def pad_ok_def)
  ultimately show ?thesis by blast
qed

section \<open>The commands\<close>

text \<open>The reader of a command frame: 33 zero bytes, the eight header bytes, the data.\<close>

definition dec_nwcp :: "bytes \<Rightarrow> (byte \<times> byte \<times> bytes) option" where
  "dec_nwcp p =
     (if length p < 41 \<or> take 33 p \<noteq> replicate 33 0 then None
      else (let h = drop 33 p; n = unat (h ! 5) + 256 * unat (h ! 6)
            in if h ! 1 = NWCP_DIR_OUT \<and> h ! 2 = NWCP_TRANS_BT \<and> length h = 8 + n
               then Some (h ! 0, h ! 3, drop 8 h) else None))"

interpretation nwcp: codec "\<lambda>(cmd, sub, data). nwcp_frame cmd sub data" dec_nwcp
  "\<lambda>(cmd, sub, data). length data < 65536"
proof unfold_locales
  fix x :: "byte \<times> byte \<times> bytes"
  obtain cmd sub data where x: "x = (cmd, sub, data)" by (metis prod_cases3)
  assume "case x of (cmd, sub, data) \<Rightarrow> length data < 65536"
  with x have l: "length data < 65536" by simp
  then have "unat (of_nat (length data mod 256) :: byte) + 256 * unat (of_nat (length data div 256 mod 256) :: byte) = length data"
    by (simp add: unat_of_nat_byte less_mult_imp_div_less)
  then have "dec_nwcp (nwcp_frame cmd sub data) = Some (cmd, sub, data)"
    by (simp add: dec_nwcp_def nwcp_frame_def build_nwcp_def Let_def)
  with x show "dec_nwcp (case x of (cmd, sub, data) \<Rightarrow> nwcp_frame cmd sub data) = Some x" by simp
qed

text \<open>
  A command frame carries its command, subcommand and data: the reader recovers them
  from the bytes, for any data whose length fits the 16-bit length field.
\<close>

theorem nwcp_frame_decodes:
  "length data < 65536 \<Longrightarrow> dec_nwcp (nwcp_frame cmd sub data) = Some (cmd, sub, data)"
  using nwcp.dec_enc [of "(cmd, sub, data)"] by simp

theorem nwcp_frame_decodes_witness:
  "dec_nwcp (nwcp_frame 0x09 0x07 [1, 0, 0, 0, 0, 0, 0, 0]) = Some (0x09, 0x07, [1, 0, 0, 0, 0, 0, 0, 0])"
  by (rule nwcp_frame_decodes) simp

section \<open>The order of the initialisation\<close>

lemma log_bus_call [simp]: "w_log (snd (bus_call a w)) = w_log w @ [a]"
  by (simp add: bus_call_def split: list.split)

lemma log_usleep [simp]: "w_log (w_usleep us w) = w_log w"
  by (simp add: w_usleep_def)

lemma log_send_commands:
  "w_log (send_commands c cs w) =
     w_log w @ map (\<lambda>(cmd, sub, d). B_write (path_cmd_data (gatt_of c)) (nwcp_frame cmd sub d)) cs"
  by (induction c cs w rule: send_commands.induct) (simp_all add: nwcp_send_cmd_def gatt_write_def)

lemma log_ccc_step:
  "w_log (ccc_step p us w) = w_log w @ (if p \<noteq> [] then [B_ccc p [0x01, 0x00]] else [])"
  by (simp add: ccc_step_def ccc_write_def)


end
