(* ===== verification/Bt_Forwarding.thy ===== *)
theory Bt_Forwarding
  imports Bt_Reports
begin

text \<open>
  What the event loop of \<^verbatim>\<open>switch2-bt.c\<close> makes of the messages of the bus: exactly one
  input event for every value of the input characteristic, in order, and exactly one rumble
  write for every output report; and which messages it still sees.
\<close>

section \<open>The values of the messages\<close>

definition value_bytes :: "string \<times> pvalue \<Rightarrow> bytes option" where
  "value_bytes = (\<lambda>(prop, v). case v of
      PV_bytes d \<Rightarrow> if prop = ''Value'' \<and> d \<noteq> [] then Some d else None
    | _ \<Rightarrow> None)"

definition msg_values :: "string \<Rightarrow> bus_msg \<Rightarrow> bytes list" where
  "msg_values input m = (case m of
      Props_changed iface path ps \<Rightarrow>
        if iface = IFACE_GATTCHAR \<and> path = input then List.map_filter value_bytes ps else []
    | Other_msg \<Rightarrow> [])"

definition msg_disconnects :: "bus_msg \<Rightarrow> bool" where
  "msg_disconnects m = (case m of
      Props_changed iface path ps \<Rightarrow> iface = IFACE_DEVICE \<and> (''Connected'', PV_bool False) \<in> set ps
    | Other_msg \<Rightarrow> False)"

text \<open>The states of the pad after each value.\<close>

fun pads :: "pad \<Rightarrow> bytes list \<Rightarrow> pad list" where
  "pads p [] = []"
| "pads p (d # ds) = parse_input d p # pads (parse_input d p) ds"

lemma pads_append: "pads p (xs @ ys) = pads p xs @ pads (fold parse_input xs p) ys"
  by (induction xs arbitrary: p) simp_all

text \<open>A rumble output that is forwarded.\<close>

definition rumble_write :: "gatt \<Rightarrow> uhid_in option \<Rightarrow> bus_act list" where
  "rumble_write g ev = (case ev of
      Some (Uhid_output n data) \<Rightarrow>
        if 3 \<le> n \<and> path_output g \<noteq> [] then [B_write (path_output g) [0x00, data ! 1, data ! 2]] else []
    | _ \<Rightarrow> [])"

text \<open>The messages and output reports the loop gets to, given the rounds.\<close>

fun seen :: "round list \<Rightarrow> bus_msg list \<times> uhid_in option list" where
  "seen [] = ([], [])"
| "seen (rd # rest) =
     (if r_poll_failed rd \<or> list_ex msg_disconnects (r_before rd) then (r_before rd, [])
      else (let (ms, us) = (if r_signal rd \<or> list_ex msg_disconnects (r_after rd) then ([], []) else seen rest)
            in (r_before rd @ r_after rd @ ms, r_uhid rd # us)))"

section \<open>Every step forwards\<close>

definition input_event :: "(uhid_event \<Rightarrow> bytes) \<Rightarrow> int \<Rightarrow> pad \<Rightarrow> action" where
  "input_event ub fd p = A_write fd (ub (UHID_INPUT 13 (build_hid_report p)))"

definition forwards ::
  "(uhid_event \<Rightarrow> bytes) \<Rightarrow> bytes list \<Rightarrow> bus_act list \<Rightarrow> ctrl \<times> world \<Rightarrow> ctrl \<times> world \<Rightarrow> bool" where
  "forwards ub vs ls = (\<lambda>(c, w) (c', w').
     uhid_fd c' = uhid_fd c \<and> gatt_of c' = gatt_of c \<and> pad_of c' = fold parse_input vs (pad_of c) \<and>
     w_log w' = w_log w @ ls \<and>
     (writes (w_env w) = [] \<and> 0 \<le> uhid_fd c \<longrightarrow> writes (w_env w') = [] \<and>
       acts (w_env w') = acts (w_env w) @ map (input_event ub (uhid_fd c)) (pads (pad_of c) vs)))"

lemma forwards_refl [simp]: "forwards ub [] [] s s"
  by (simp add: forwards_def split: prod.split)

lemma forwards_trans:
  "forwards ub vs ls s s' \<Longrightarrow> forwards ub vs' ls' s' s'' \<Longrightarrow> forwards ub (vs @ vs') (ls @ ls') s s''"
  by (auto simp: forwards_def pads_append split: prod.splits)

lemma forwards_value:
  "forwards ub [d] [] (c, w)
     (c\<lparr>pad_of := parse_input d (pad_of c)\<rparr>,
      if 0 \<le> uhid_fd c then uhid_input ub (uhid_fd c) (build_hid_report (parse_input d (pad_of c))) w else w)"
  by (simp add: forwards_def uhid_input_def w_write_def Let_def split_def)
    (simp add: sys_write_def input_event_def report_fields)

lemma forwards_value_loop:
  "forwards ub (List.map_filter value_bytes ps) [] (c, w) (value_loop ub ps c w) \<and>
   connected (fst (value_loop ub ps c w)) = connected c \<and> c_running (fst (value_loop ub ps c w)) = c_running c"
proof (induction ps arbitrary: c w)
  case (Cons p rest)
  obtain pn v where p: "p = (pn, v)" by fastforce
  show ?case
  proof (cases "value_bytes (pn, v)")
    case None
    then have "value_loop ub ((pn, v) # rest) c w = value_loop ub rest c w"
      by (cases "pn = ''Value''"; cases v) (auto simp: value_bytes_def split: if_splits)
    with Cons.IH [of c w] p None show ?thesis by (simp add: map_filter_simps)
  next
    case (Some d)
    then have d: "pn = ''Value''" "v = PV_bytes d" "d \<noteq> []"
      by (auto simp: value_bytes_def split: pvalue.splits if_splits)
    define c1 where "c1 = c\<lparr>pad_of := parse_input d (pad_of c)\<rparr>"
    define w1 where "w1 = (if 0 \<le> uhid_fd c1
        then uhid_input ub (uhid_fd c1) (build_hid_report (pad_of c1)) w else w)"
    have l: "value_loop ub (p # rest) c w = value_loop ub rest c1 w1"
      using d p by (simp add: c1_def w1_def Let_def)
    have "forwards ub [d] [] (c, w) (c1, w1)"
      using forwards_value [of ub d c w] by (simp add: c1_def w1_def split: if_splits)
    from forwards_trans [OF this conjunct1 [OF Cons.IH [of c1 w1]]] Cons.IH [of c1 w1] Some p
    show ?thesis unfolding l by (simp add: map_filter_simps c1_def)
  qed
qed (simp add: map_filter_simps)

lemma connected_loop_result:
  "connected_loop ps c = c\<lparr>connected := connected c \<and> (''Connected'', PV_bool False) \<notin> set ps\<rparr>"
  by (induction ps c rule: connected_loop.induct) auto

lemma forwards_dbus_filter:
  assumes "dbus_filter ub m c w = (c', w')"
  shows "forwards ub (msg_values (path_input (gatt_of c)) m) [] (c, w) (c', w')"
    and "connected c' \<longleftrightarrow> connected c \<and> \<not> msg_disconnects m" and "c_running c' = c_running c"
proof -
  have n: "IFACE_GATTCHAR \<noteq> IFACE_DEVICE" by (simp add: IFACE_GATTCHAR_def IFACE_DEVICE_def)
  have "forwards ub (msg_values (path_input (gatt_of c)) m) [] (c, w) (c', w') \<and>
    (connected c' \<longleftrightarrow> connected c \<and> \<not> msg_disconnects m) \<and> c_running c' = c_running c"
  proof (cases m)
    case (Props_changed iface path ps)
    then show ?thesis
      using assms n forwards_value_loop [of ub ps c w]
      by (auto simp: dbus_filter_def msg_values_def msg_disconnects_def connected_loop_result
          forwards_def split: if_splits)
  qed (use assms in \<open>simp add: dbus_filter_def msg_values_def msg_disconnects_def\<close>)
  then show "forwards ub (msg_values (path_input (gatt_of c)) m) [] (c, w) (c', w')"
    "connected c' \<longleftrightarrow> connected c \<and> \<not> msg_disconnects m" "c_running c' = c_running c" by blast+
qed

lemma forwards_process_bus:
  assumes "process_bus ub ms c w = (c', w')"
  shows "forwards ub (concat (map (msg_values (path_input (gatt_of c))) ms)) [] (c, w) (c', w') \<and>
    (connected c' \<longleftrightarrow> connected c \<and> \<not> list_ex msg_disconnects ms) \<and> c_running c' = c_running c"
  using assms
proof (induction ms arbitrary: c w)
  case (Cons m ms)
  obtain c1 w1 where f: "dbus_filter ub m c w = (c1, w1)" by fastforce
  note s = forwards_dbus_filter [OF f]
  from s(1) have g: "gatt_of c1 = gatt_of c" by (simp add: forwards_def)
  from Cons.prems f have p: "process_bus ub ms c1 w1 = (c', w')" by simp
  from forwards_trans [OF s(1) conjunct1 [OF Cons.IH [OF p]]] Cons.IH [OF p] s(2,3) g show ?case by auto
qed simp

lemma forwards_handle_uhid: "forwards ub [] (rumble_write (gatt_of c) ev) (c, w) (c, handle_uhid ev c w)"
  by (auto simp: forwards_def handle_uhid_def rumble_write_def gatt_write_def split: option.splits uhid_in.splits)

lemma forwards_event_rounds:
  "event_rounds ub rds c w = Some (c', w') \<Longrightarrow> connected c \<Longrightarrow> c_running c \<Longrightarrow>
   forwards ub (concat (map (msg_values (path_input (gatt_of c))) (fst (seen rds))))
     (concat (map (rumble_write (gatt_of c)) (snd (seen rds)))) (c, w) (c', w')"
proof (induction rds arbitrary: c w)
  case (Cons rd rest)
  obtain c1 w1 where b: "process_bus ub (r_before rd) c w = (c1, w1)" by fastforce
  let ?w = "handle_uhid (r_uhid rd) c1 w1"
  obtain c2 w2 where a: "process_bus ub (r_after rd) c1 ?w = (c2, w2)" by fastforce
  note B = forwards_process_bus [OF b] and A = forwards_process_bus [OF a]
  from B have g1: "gatt_of c1 = gatt_of c" by (simp add: forwards_def)
  from A have g2: "gatt_of c2 = gatt_of c1" by (simp add: forwards_def)
  show ?case
  proof (cases "r_poll_failed rd \<or> list_ex msg_disconnects (r_before rd)")
    case True
    then have "(c', w') = (c1, w1)" using Cons.prems b B by (auto split: if_splits)
    with True B show ?thesis by auto
  next
    case False
    with Cons.prems B have c1: "connected c1" "c_running c1" by auto
    define c3 where "c3 = (if r_signal rd then c2\<lparr>c_running := False\<rparr> else c2)"
    have st: "event_rounds ub rest c3 w2 = Some (c', w')"
      using Cons.prems False c1 a b by (simp add: c3_def)
    have g3: "gatt_of c3 = gatt_of c" by (simp add: c3_def g1 g2)
    have f3: "forwards ub vs ls s (c2, w2) \<Longrightarrow> forwards ub vs ls s (c3, w2)" for vs ls s
      by (simp add: forwards_def c3_def split: prod.splits)
    have "forwards ub (concat (map (msg_values (path_input (gatt_of c))) (r_before rd @ r_after rd)))
        (rumble_write (gatt_of c) (r_uhid rd)) (c, w) (c3, w2)"
      using f3 [OF forwards_trans [OF forwards_trans [OF conjunct1 [OF B] forwards_handle_uhid] conjunct1 [OF A]]]
      by (simp add: g1)
    note step = this
    show ?thesis
    proof (cases "r_signal rd \<or> list_ex msg_disconnects (r_after rd)")
      case True
      then have "\<not> (c_running c3 \<and> connected c3)" using A by (auto simp: c3_def)
      with st have "(c', w') = (c3, w2)" by (cases rest) auto
      with step True False show ?thesis by simp
    next
      case go: False
      then have "connected c3" "c_running c3" using A c1 by (auto simp: c3_def)
      from forwards_trans [OF step Cons.IH [OF st this, unfolded g3]] go False
      show ?thesis by (simp add: case_prod_beta Let_def)
    qed
  qed
qed (simp split: if_splits)

text \<open>
  C10. The event loop forwards exactly what arrives: up to its end, every value of the input
  characteristic in the messages it sees becomes one input event with the report of the pad
  after that value, in the order of the messages, and every output report it sees becomes
  one rumble write to the controller; it sees the messages up to the disconnection, a failed
  poll or a signal, those of the round it happens in included. Then it closes the signal
  descriptor. Nothing else is written and BlueZ is asked for nothing else.
\<close>

theorem event_loop_forwards:
  assumes "event_loop ub c w = Some (c', w')" and "connected c" and "0 \<le> uhid_fd c"
    and "writes (w_env w) = []" and "w_rounds w = rds # later"
  shows "let vs = concat (map (msg_values (path_input (gatt_of c))) (fst (seen rds)))
     in acts (w_env w') = acts (w_env w) @ map (input_event ub (uhid_fd c)) (pads (pad_of c) vs) @
          [A_close (fst (sys_fd (w_env w)))] \<and>
        w_log w' = w_log w @ concat (map (rumble_write (gatt_of c)) (snd (seen rds))) \<and>
        pad_of c' = fold parse_input vs (pad_of c)"
proof -
  obtain sfd e1 where s: "sys_fd (w_env w) = (sfd, e1)" by fastforce
  then have e1: "writes e1 = []" "acts e1 = acts (w_env w)"
    using assms(4) by (auto simp: sys_fd_def split: list.splits)
  define w1 where "w1 = w\<lparr>w_env := e1, w_rounds := later\<rparr>"
  from assms(1,5) s obtain w2 where
    l: "event_rounds ub rds (c\<lparr>c_running := True\<rparr>) w1 = Some (c', w2)" and w2: "w' = w_close sfd w2"
    unfolding event_loop_def Let_def w1_def by (auto simp del: event_rounds.simps)
  from forwards_event_rounds [OF l] assms(2,3) e1 show ?thesis
    by (simp add: forwards_def w1_def w2 w_close_def sys_close_def s Let_def)
qed

theorem event_loop_forwards_witness:
  "\<exists>c' w'. event_loop plain_ub demo_ctrl demo_world = Some (c', w') \<and>
     acts (w_env w') = [input_event plain_ub 5
       (parse_input [0, 0, 0x21, 0x18, 0xE3, 0x80, 0x2F, 0x7A, 1, 2, 3] zero_pad), A_close 7] \<and>
     w_log w' = [B_write ''/out'' [0x00, 9, 8]]"
proof -
  have "event_loop plain_ub demo_ctrl demo_world \<noteq> None"
    by (simp add: event_loop_def demo_ctrl_def demo_world_def quiet_env_def sys_fd_def dbus_filter_def
        init_ctrl_def split_def)
  then obtain c' w' where l: "event_loop plain_ub demo_ctrl demo_world = Some (c', w')" by auto
  have r: "w_rounds demo_world = hd (w_rounds demo_world) # []" by (simp add: demo_world_def)
  have s: "seen (hd (w_rounds demo_world)) = ([Props_changed IFACE_GATTCHAR ''/in''
      [(''Value'', PV_bytes [0, 0, 0x21, 0x18, 0xE3, 0x80, 0x2F, 0x7A, 1, 2, 3])]], [Some (Uhid_output 3 [3, 9, 8])])"
    by (simp add: demo_world_def msg_disconnects_def IFACE_GATTCHAR_def IFACE_DEVICE_def)
  have c: "connected demo_ctrl" "0 \<le> uhid_fd demo_ctrl" "writes (w_env demo_world) = []"
    by (simp_all add: demo_ctrl_def demo_world_def quiet_env_def)
  from event_loop_forwards [OF l c r, unfolded s] l show ?thesis
    by (simp add: msg_values_def value_bytes_def map_filter_simps rumble_write_def demo_ctrl_def
        init_ctrl_def demo_world_def quiet_env_def sys_fd_def Let_def)
qed

end
