(* ===== verification/Sw2d_Props.thy ===== *)
theory Sw2d_Props
  imports Sw2d_Gamepad Liveness Descriptors
begin

text \<open>
  The raw-channel daemon \<^verbatim>\<open>sw2d.c\<close>: its packets and reports are read back, every
  session closes what it opened, the report loop ends on a signal; and two things the code
  gets wrong, reading packets across datagrams and the byte order of addresses.
\<close>

section \<open>Effects of the operations\<close>

context env_effect begin

lemma sw_write_full_R:
  "write_full fd p k e = (n, e') \<Longrightarrow> (\<And>q. W fd q) \<Longrightarrow> R e e'"
proof (induction fd p k e rule: write_full.induct)
  case (1 fd p k e)
  obtain m e1 where w: "sys_write fd (drop k p) e = (m, e1)" by fastforce
  have r: "R e e1" by (rule R_write [OF w "1.prems"(2)])
  from "1.prems"(1) w r "1.IH" [OF _ w [symmetric]] "1.prems"(2) show ?case
    by (subst (asm) write_full.simps) (auto simp: R_refl split: if_splits intro: R_trans)
qed

lemma sw_read_full_R: "read_full len got e = (n, bs, e') \<Longrightarrow> R e e'"
proof (induction len got e rule: read_full.induct)
  case (1 len got e)
  obtain k cs e1 where r: "sys_read (len - length got) e = (k, cs, e1)" by (metis prod_cases3)
  have "R e e1" by (rule R_read [OF r])
  with "1.prems" r "1.IH" [OF _ r [symmetric] refl] show ?case
    by (subst (asm) read_full.simps) (auto simp: R_refl split: if_splits intro: R_trans)
qed

lemma sw_read_part_R: "read_part len e = (r, e') \<Longrightarrow> R e e'"
  by (auto simp: read_part_def split: prod.splits if_splits dest: sw_read_full_R)

lemma sw_packet_body_R: "read_packet_body n e = (r, e') \<Longrightarrow> R e e'"
  by (auto simp: read_packet_body_def and_then_def Let_def R_refl
      split: if_splits prod.splits sum.splits dest!: sw_read_part_R) (meson R_trans)+

lemma sw_read_packet_R: "hci_read_packet sz t e = (n, pkt, e') \<Longrightarrow> 0 \<le> t \<Longrightarrow> R e e'"
  by (auto simp: hci_read_packet_def Let_def split: prod.splits sum.splits if_splits
      dest!: sw_packet_body_R dest: R_poll) (meson R_trans R_poll)+

lemma sw_send_cmd_R: "hci_send_cmd fd ogf ocf ps n e = (rc, e') \<Longrightarrow> (\<And>q. W fd q) \<Longrightarrow> R e e'"
  by (auto simp: hci_send_cmd_def Let_def split: prod.splits if_splits dest: R_write)

lemma sw_connect_wait_R: "connect_wait k e = (rc, h, e') \<Longrightarrow> R e e'"
proof (induction k arbitrary: e)
  case (Suc k)
  obtain n pkt e1 where r: "hci_read_packet 260 100 e = (n, pkt, e1)" by (metis prod_cases3)
  have "R e e1" by (rule sw_read_packet_R [OF r]) simp
  with Suc r show ?case
    by (auto simp: R_refl split: if_splits option.splits dest!: Suc.IH intro: R_trans)
qed (simp add: R_refl)

lemma sw_read_acl_att_R: "read_acl_att h att sz t e = (n, att', e') \<Longrightarrow> 0 \<le> t \<Longrightarrow> R e e'"
proof (induction h att sz t e rule: read_acl_att.induct)
  case (1 h att sz t e)
  obtain k pkt e1 where r: "hci_read_packet 2048 t e = (k, pkt, e1)" by (metis prod_cases3)
  have "R e e1" by (rule sw_read_packet_R [OF r "1.prems"(2)])
  with "1.prems" r "1.IH" [OF r [symmetric] refl] show ?case
    by (subst (asm) read_acl_att.simps)
      (auto split: if_splits option.splits sum.splits intro: R_trans)
qed

lemma sw_att_response_R: "att_response h rsp sz x t e = (n, rsp', e') \<Longrightarrow> 0 \<le> t \<Longrightarrow> R e e'"
proof (induction h rsp sz x t e rule: att_response.induct)
  case (1 h rsp sz x t e)
  obtain k rsp1 e1 where r: "read_acl_att h rsp sz t e = (k, rsp1, e1)" by (metis prod_cases3)
  have "R e e1" by (rule sw_read_acl_att_R [OF r "1.prems"(2)])
  with "1.prems" r "1.IH" [OF r [symmetric] refl] show ?case
    by (subst (asm) att_response.simps) (auto split: if_splits intro: R_trans)
qed

lemma sw_send_att_R: "acl_send_att fd h att n e = (rc, e') \<Longrightarrow> (\<And>q. W fd q) \<Longrightarrow> n \<le> 1024 \<Longrightarrow> R e e'"
  by (auto simp: acl_send_att_def Let_def split: prod.splits if_splits dest: sw_write_full_R)

lemma sw_att_request_R:
  "att_request_response fd h req n rsp sz x t e = (k, rsp', e') \<Longrightarrow> (\<And>q. W fd q) \<Longrightarrow> n \<le> 1024 \<Longrightarrow>
     0 \<le> t \<Longrightarrow> R e e'"
  by (auto simp: att_request_response_def Let_def split: prod.splits if_splits
      dest!: sw_send_att_R sw_att_response_R intro: R_trans)

lemma sw_gatt_probe_R:
  assumes "gatt_probe fd h rsp e = (out, e')" and W: "\<And>q. W fd q"
  shows "R e e'"
proof -
  obtain n1 r1 e1 where 1: "att_request_response fd h [0x02, 0x05, 0x02] 3 rsp 768 SW2_ATT_MTU_RSP 2000 e
      = (n1, r1, e1)" by (metis prod_cases3)
  obtain n2 r2 e2 where 2: "att_request_response fd h [0x10, 0x01, 0x00, 0xff, 0xff, 0x00, 0x28] 7
      r1 768 SW2_ATT_GROUP_RSP 2000 e1 = (n2, r2, e2)" by (metis prod_cases3)
  obtain n3 r3 e3 where 3: "att_request_response fd h [0x08, 0x08, 0x00, 0x2a, 0x00, 0x03, 0x28] 7
      r2 768 SW2_ATT_TYPE_RSP 2000 e2 = (n3, r3, e3)" by (metis prod_cases3)
  have "R e e1" "R e1 e2" "R e2 e3"
    by (rule sw_att_request_R [OF 1 W] sw_att_request_R [OF 2 W] sw_att_request_R [OF 3 W]; simp)+
  moreover have "e' = e3" using assms(1) 1 2 3 by (simp add: gatt_probe_def)
  ultimately show ?thesis by (meson R_trans)
qed

lemma sw_conn_update_R: "(\<And>q. W fd q) \<Longrightarrow> R e (hci_request_conn_update fd h e)"
  unfolding hci_request_conn_update_def by (rule sw_send_cmd_R [OF surjective_pairing])

lemma sw_enable_notifications_R:
  "enable_notifications fd h rsp e = (rc, e') \<Longrightarrow> (\<And>q. W fd q) \<Longrightarrow> R e e'"
  by (auto simp: enable_notifications_def Let_def split: prod.splits if_splits dest!: sw_att_request_R)

lemma sw_send_report_R: "uhid_send_report ub fd d e = (rc, e') \<Longrightarrow> (\<And>q. W fd q) \<Longrightarrow> R e e'"
  by (auto simp: uhid_send_report_def Let_def R_refl split: prod.splits if_splits dest: sw_write_full_R)

lemma sw_notify_loop_R:
  "notify_loop fuel ub h uhid att e = Some e' \<Longrightarrow> (\<And>q. W uhid q) \<Longrightarrow> R e e'"
proof (induction fuel arbitrary: att e)
  case (Suc fuel)
  obtain n att1 e1 where r: "read_acl_att h att 1024 1000 e = (n, att1, e1)" by (metis prod_cases3)
  have 1: "R e e1" by (rule sw_read_acl_att_R [OF r]) simp
  have 2: "R e1 (snd (uhid_send_report ub uhid d e1))" for d
    by (rule sw_send_report_R [OF surjective_pairing Suc.prems(2)])
  from Suc.prems(1) r 1 2 Suc.IH [OF _ Suc.prems(2)] show ?case
    by (auto simp: R_refl split: if_splits option.splits) (meson R_trans)+
qed simp

end

section \<open>Every session closes what it opens\<close>

lemmas silent_balance = fds_kept_balance [OF silence.sw_send_cmd_R]
  fds_kept_balance [OF silence.sw_connect_wait_R]

lemma hci_open_balance:
  assumes "hci_open e = (fd, e')"
  shows "balance (if 0 \<le> fd then {#fd#} else {#}) e e'"
proof -
  obtain f e1 where f: "sys_fd e = (f, e1)" by fastforce
  note b1 = sys_fd_balance [OF f]
  obtain b e2 where s: "sys_status (A_bind f 0 HCI_CHANNEL_RAW) e1 = (b, e2)" by fastforce
  have "balance (if 0 \<le> f then {#f#} else {#}) e e2"
    by (rule balance_step [OF b1 sys_status_balance [OF s]]) simp
  with assms f s b1 sys_close_balance [of f "{#}" e e2] show ?thesis
    by (auto simp: hci_open_def Let_def split: if_splits)
qed

lemma filter_balance:
  "set_exact_connect_filter fd e = (r, e') \<Longrightarrow> balance {#} e e'"
  "set_acl_runtime_filter fd e = (r, e') \<Longrightarrow> balance {#} e e'"
  by (auto simp: set_exact_connect_filter_def set_acl_runtime_filter_def Let_def
      split: prod.splits if_splits intro: sys_status_balance)

lemma connect_le_balance:
  assumes "hci_connect_le fd peer e = (r, h, e')"
  shows "balance {#} e e'"
proof -
  obtain r1 e1 where 1: "set_exact_connect_filter fd e = (r1, e1)" by fastforce
  obtain r2 e2 where 2: "hci_send_cmd fd OGF_LE_CTL OCF_LE_CREATE_CONN (connect_params peer) 25 e1 = (r2, e2)"
    by fastforce
  obtain r3 h3 e3 where 3: "connect_wait 120 e2 = (r3, h3, e3)" by (metis prod_cases3)
  have b1: "balance {#} e e1" by (rule filter_balance(1) [OF 1])
  have b2: "balance {#} e e2" by (rule balance_step [OF b1 silent_balance(1) [OF 2]]) simp
  have b3: "balance {#} e e3" by (rule balance_step [OF b2 silent_balance(2) [OF 3]])
  from assms 1 2 3 b1 b2 b3 show ?thesis by (auto simp: hci_connect_le_def split: if_splits)
qed

lemma create_device_balance:
  assumes "uhid_create_device ub e = (fd, e')"
  shows "balance (if 0 \<le> fd then {#fd#} else {#}) e e'"
proof -
  obtain f e1 where f: "sys_fd e = (f, e1)" by fastforce
  note b1 = sys_fd_balance [OF f]
  obtain n e2 where w: "write_full f (ub gamepad_device) 0 e1 = (n, e2)" by fastforce
  have "balance (if 0 \<le> f then {#f#} else {#}) e e2"
    by (rule balance_step [OF b1 fds_kept_balance [OF silence.sw_write_full_R [OF w]]]) simp
  with assms f w b1 sys_close_balance [of f "{#}" e e2] show ?thesis
    by (auto simp: uhid_create_device_def Let_def split: if_splits)
qed

lemma destroy_device_balance:
  assumes "balance ((if 0 \<le> fd then {#fd#} else {#}) + H) e e'"
  shows "balance H e (uhid_destroy_device ub fd e')"
proof (cases "fd < 0")
  case False
  have "balance {#} e' (snd (write_full fd (ub UHID_DESTROY) 0 e'))"
    by (rule fds_kept_balance [OF silence.sw_write_full_R [OF surjective_pairing]]) simp
  from balance_step [OF assms this] False show ?thesis
    by (simp add: uhid_destroy_device_def sys_close_balance)
qed (use assms in \<open>simp add: uhid_destroy_device_def\<close>)

text \<open>
  C21. Whenever \<^verbatim>\<open>run_session\<close> returns, on whichever of its paths, the descriptors it
  closed are exactly those it opened: the HCI socket and, if one was made, the device.
\<close>

theorem sw2d_session_closes_what_it_opens:
  assumes "run_session fuel ub junk peer no_uhid e = Some (rc, e')"
  shows "mset (closed e e') = mset (opened e e')"
proof -
  obtain hci e1 where 1: "hci_open e = (hci, e1)" by fastforce
  note b1 = hci_open_balance [OF 1]
  have "balance {#} e e'"
  proof (cases "hci < 0")
    case True
    with assms 1 b1 show ?thesis by (simp add: run_session_def)
  next
    case False
    with b1 have b1: "balance {#hci#} e e1" by simp
    obtain r2 ho e2 where 2: "hci_connect_le hci peer e1 = (r2, ho, e2)" by (metis prod_cases3)
    have b2: "balance {#hci#} e e2" by (rule balance_step [OF b1 connect_le_balance [OF 2]])
    define h where "h = (case ho of Some h \<Rightarrow> h | None \<Rightarrow> 0)"
    obtain r3 e3 where 3: "set_acl_runtime_filter hci e2 = (r3, e3)" by fastforce
    have b3: "balance {#hci#} e e3" by (rule balance_step [OF b2 filter_balance(2) [OF 3]])
    obtain out e4 where 4: "gatt_probe hci h (take 768 junk) (hci_request_conn_update hci h e3) = (out, e4)"
      by fastforce
    have "fds_kept e3 (hci_request_conn_update hci h e3)" by (rule silence.sw_conn_update_R) simp
    moreover have "fds_kept (hci_request_conn_update hci h e3) e4"
      by (rule silence.sw_gatt_probe_R [OF 4]) simp
    ultimately have b4: "balance {#hci#} e e4"
      using b3 by (meson balance_step fds_kept_balance)
    obtain uhid e5 where 5: "(if no_uhid then (-1, e4) else uhid_create_device ub e4) = (uhid, e5)"
      by fastforce
    then have "balance (if 0 \<le> uhid then {#uhid#} else {#}) e4 e5"
      by (cases no_uhid) (auto simp: balance_refl dest: create_device_balance)
    from balance_trans [OF b4 this]
    have b5: "balance ((if 0 \<le> uhid then {#uhid#} else {#}) + {#hci#}) e e5"
      by (simp add: add.commute)
    obtain r6 e6 where 6: "enable_notifications hci h (take 64 junk) e5 = (r6, e6)" by fastforce
    have b6: "balance ((if 0 \<le> uhid then {#uhid#} else {#}) + {#hci#}) e e6"
      by (rule balance_step [OF b5 fds_kept_balance [OF silence.sw_enable_notifications_R [OF 6]]]) simp
    have b7: "balance ((if 0 \<le> uhid then {#uhid#} else {#}) + {#hci#}) e e7"
      if "notify_loop fuel ub h uhid (take 1024 junk) e6 = Some e7" for e7
      by (rule balance_step [OF b6 fds_kept_balance [OF silence.sw_notify_loop_R [OF that]]]) simp
    have fin: "balance {#} e (sys_close hci x)" if "balance {#hci#} e x" for x
      using that by (rule sys_close_balance)
    from assms False 1 2 3 4 5 6 fin b2 b3 b5 fin [OF destroy_device_balance [OF b6]]
      fin [OF destroy_device_balance [OF b7]]
    show ?thesis
      by (auto simp: run_session_def h_def [symmetric] Let_def split: if_splits)
  qed
  then show ?thesis by (simp add: balance_def)
qed

text \<open>
  The controller connects, answers no ATT request, and the session ends with an error after
  both descriptors have been used.
\<close>

definition demo_link_env :: env where
  "demo_link_env = quiet_env\<lparr>fds := [3, 9], polls := [Poll_ans 1000 False P_ready],
     reads := [R_data [0x04], R_data [0x3e, 19],
       R_data [0x01, 0x00, 0x40, 0x00, 0, 0, 1, 2, 3, 4, 5, 6, 0, 0, 0, 0, 0, 0, 0]]\<rparr>"

text \<open>With nothing left to read, every wait times out.\<close>

lemma quiet_write_full:
  "writes e = [] \<Longrightarrow> write_full fd p 0 e = (int (length p), if p = [] then e else act (A_write fd p) e)"
  by (subst write_full.simps, simp, subst write_full.simps) (simp add: sys_write_def)

lemma quiet_read_acl_att: "polls e = [] \<Longrightarrow> read_acl_att h att sz t e = (0, att, e\<lparr>clock := clock e + 1000 * t\<rparr>)"
  by (subst read_acl_att.simps) (simp add: hci_read_packet_def sys_poll_def)

lemma quiet_request:
  assumes "polls e = []" "writes e = []" "n \<le> 1024"
  shows "\<exists>e'. att_request_response fd h req n rsp sz x t e = (-1, rsp, e') \<and> polls e' = [] \<and>
     writes e' = [] \<and> fds e' = fds e"
proof -
  have "\<not> 1024 < n" using assms(3) by simp
  then have "\<exists>pkt. acl_send_att fd h req n e = (0, act (A_write fd pkt) e)"
    using assms(2) by (simp add: acl_send_att_def Let_def quiet_write_full) blast
  then obtain pkt where w: "acl_send_att fd h req n e = (0, act (A_write fd pkt) e)" ..
  with assms w show ?thesis
    by (auto simp: att_request_response_def att_response.simps quiet_read_acl_att)
qed

lemma quiet_gatt_probe:
  assumes "polls e = []" "writes e = []"
  shows "\<exists>e'. gatt_probe fd h rsp e = (([], []), e') \<and> polls e' = [] \<and> writes e' = [] \<and> fds e' = fds e"
proof -
  obtain e1 where 1: "att_request_response fd h [0x02, 0x05, 0x02] 3 rsp 768 SW2_ATT_MTU_RSP 2000 e
      = (-1, rsp, e1)" and f1: "polls e1 = []" "writes e1 = []" "fds e1 = fds e"
    using quiet_request [OF assms, of 3] by fastforce
  obtain e2 where 2: "att_request_response fd h [0x10, 0x01, 0x00, 0xff, 0xff, 0x00, 0x28] 7 rsp 768
      SW2_ATT_GROUP_RSP 2000 e1 = (-1, rsp, e2)" and f2: "polls e2 = []" "writes e2 = []" "fds e2 = fds e"
    using quiet_request [OF f1(1,2), of 7] f1(3) by fastforce
  obtain e3 where 3: "att_request_response fd h [0x08, 0x08, 0x00, 0x2a, 0x00, 0x03, 0x28] 7 rsp 768
      SW2_ATT_TYPE_RSP 2000 e2 = (-1, rsp, e3)" and f3: "polls e3 = []" "writes e3 = []" "fds e3 = fds e"
    using quiet_request [OF f2(1,2), of 7] f2(3) by fastforce
  from 1 2 3 f3 show ?thesis by (simp add: gatt_probe_def)
qed

lemma quiet_enable_notifications:
  assumes "polls e = []" "writes e = []"
  shows "\<exists>e'. enable_notifications fd h rsp e = (-1, e') \<and> writes e' = [] \<and> fds e' = fds e"
proof -
  obtain e' where "att_request_response fd h ([0x12] @ put_le16 SW2_INPUT_CCCD_HANDLE @ [0x01, 0x00]) 5 rsp 64
      SW2_ATT_WRITE_RSP 2000 e = (-1, rsp, e')" "writes e' = []" "fds e' = fds e"
    using quiet_request [OF assms, of 5] by fastforce
  then show ?thesis by (simp add: enable_notifications_def)
qed

text \<open>The connection event of the demo, packet by packet.\<close>

definition demo_conn_event :: bytes where
  "demo_conn_event = [0x04, 0x3e, 19, 0x01, 0x00, 0x40, 0x00, 0, 0, 1, 2, 3, 4, 5, 6, 0, 0, 0, 0, 0, 0, 0]"

lemma demo_packet:
  assumes "polls e = polls demo_link_env" "reads e = reads demo_link_env"
  shows "\<exists>e'. hci_read_packet 260 100 e = (22, demo_conn_event, e') \<and> polls e' = [] \<and> writes e' = writes e \<and>
     statuses e' = statuses e \<and> fds e' = fds e"
  using assms
  by (simp add: demo_link_env_def hci_read_packet_def sys_poll_def read_packet_body_def read_part_def
      read_full.simps sys_read_def demo_conn_event_def Let_def cong: eval_congs)

lemma demo_connect_wait:
  assumes "polls e = polls demo_link_env" "reads e = reads demo_link_env" "running e"
  shows "\<exists>e'. connect_wait 120 e = (0, Some 0x40, e') \<and> polls e' = [] \<and> writes e' = writes e \<and>
     statuses e' = statuses e \<and> fds e' = fds e"
proof -
  have "conn_packet demo_conn_event = Some (0, Some 0x40)" by code_simp
  moreover obtain e' where p: "hci_read_packet 260 100 e = (22, demo_conn_event, e')"
    and f: "polls e' = []" "writes e' = writes e" "statuses e' = statuses e" "fds e' = fds e"
    using demo_packet [OF assms(1,2)] by blast
  ultimately have "connect_wait (Suc 119) e = (0, Some 0x40, e')"
    unfolding connect_wait.simps using assms(3) by simp
  with f show ?thesis by simp
qed

lemma demo_link_connects:
  assumes "polls e = polls demo_link_env" "reads e = reads demo_link_env" "running e"
    "statuses e = []" "writes e = []"
  shows "\<exists>e'. hci_connect_le 3 [1, 2, 3, 4, 5, 0xC6] e = (0, Some 0x40, e') \<and> polls e' = [] \<and>
     writes e' = [] \<and> statuses e' = [] \<and> fds e' = fds e"
proof -
  define e1 where "e1 = act (A_setsockopt 3 exact_connect_filter) e"
  have 1: "set_exact_connect_filter 3 e = (0, e1)"
    using assms by (simp add: set_exact_connect_filter_def sys_status_def e1_def)
  define e2 where "e2 = snd (hci_send_cmd 3 OGF_LE_CTL OCF_LE_CREATE_CONN (connect_params [1, 2, 3, 4, 5, 0xC6]) 25 e1)"
  have 2: "hci_send_cmd 3 OGF_LE_CTL OCF_LE_CREATE_CONN (connect_params [1, 2, 3, 4, 5, 0xC6]) 25 e1 = (0, e2)"
    and f: "polls e2 = polls e" "reads e2 = reads e" "running e2" "writes e2 = []" "statuses e2 = []" "fds e2 = fds e"
    using assms by (simp_all add: e2_def hci_send_cmd_def sys_write_def e1_def connect_params_def put_le16_def)
  from demo_connect_wait [of e2] f assms 1 2 show ?thesis by (auto simp: hci_connect_le_def)
qed

theorem sw2d_session_closes_what_it_opens_witness:
  "\<exists>e'. run_session 1 plain_ub (replicate 1024 0) [1, 2, 3, 4, 5, 0xC6] False demo_link_env = Some (-1, e') \<and>
     mset (closed demo_link_env e') = mset (opened demo_link_env e') \<and> opened demo_link_env e' = [3, 9]"
proof -
  let ?run = "run_session 1 plain_ub (replicate 1024 0) [1, 2, 3, 4, 5, 0xC6] False demo_link_env"
  define junk where "junk = replicate 1024 (0 :: byte)"
  define e1 where "e1 = act (A_bind 3 0 HCI_CHANNEL_RAW) (demo_link_env\<lparr>fds := [9]\<rparr>)"
  have 1: "hci_open demo_link_env = (3, e1)"
    by (simp add: hci_open_def e1_def demo_link_env_def sys_fd_def sys_status_def quiet_env_def)
  obtain e2 where 2: "hci_connect_le 3 [1, 2, 3, 4, 5, 0xC6] e1 = (0, Some 0x40, e2)"
    and f2: "polls e2 = []" "writes e2 = []" "statuses e2 = []" "fds e2 = [9]"
    using demo_link_connects [of e1] by (auto simp: e1_def demo_link_env_def quiet_env_def)
  define e2a where "e2a = act (A_setsockopt 3 acl_runtime_filter) e2"
  define e3 where "e3 = hci_request_conn_update 3 0x40 e2a"
  have 3: "set_acl_runtime_filter 3 e2 = (0, e2a)"
    and f3: "polls e3 = []" "writes e3 = []" "fds e3 = [9]"
    using f2 by (simp_all add: e3_def e2a_def set_acl_runtime_filter_def sys_status_def hci_request_conn_update_def
        hci_send_cmd_def sys_write_def Let_def)
  obtain e4 where 4: "gatt_probe 3 0x40 (take 768 junk) e3 = (([], []), e4)"
    and f4: "polls e4 = []" "writes e4 = []" "fds e4 = [9]"
    using quiet_gatt_probe [OF f3(1,2)] f3(3) by metis
  define e5 where "e5 = act (A_write 9 (plain_ub gamepad_device)) (e4\<lparr>fds := []\<rparr>)"
  have 5: "uhid_create_device plain_ub e4 = (9, e5)"
    using f4 by (simp add: uhid_create_device_def sys_fd_def quiet_write_full e5_def plain_ub_def gamepad_device_def)
  obtain e6 where 6: "enable_notifications 3 0x40 (take 64 junk) e5 = (-1, e6)"
    and f6: "writes e6 = []" "fds e6 = []"
    using quiet_enable_notifications [of e5] f4 by (fastforce simp: e5_def)
  have "\<exists>e'. ?run = Some (-1, e') \<and> fds e' = []"
    unfolding junk_def [symmetric]
    by (simp add: run_session_def 1 2 3 4 5 6 f6 e3_def [symmetric] uhid_destroy_device_def sys_close_def
        quiet_write_full plain_ub_def Let_def cong: eval_congs)
  then obtain e' where r: "?run = Some (-1, e')" and f: "fds e' = []" by blast
  from sw2d_session_closes_what_it_opens [OF r] f r show ?thesis
    by (simp add: opened_def demo_link_env_def)
qed

section \<open>The report loop ends on a signal\<close>

lemma read_acl_att_uses:
  assumes "read_acl_att h att sz t e = (n, att', e')" and "polls e \<noteq> []" and "0 \<le> t"
  shows "length (polls e') < length (polls e)"
proof -
  obtain k pkt e1 where r: "hci_read_packet 2048 t e = (k, pkt, e1)" by (metis prod_cases3)
  from r assms(2) have 1: "length (polls e1) < length (polls e)"
    by (auto simp: hci_read_packet_def Let_def split: prod.splits sum.splits if_splits
        dest!: read_packet_body_polls sys_poll_progress)
  have "env_le e1 e'"
    using assms(1,3) r
    by (subst (asm) read_acl_att.simps)
      (auto split: if_splits option.splits sum.splits
        dest!: env_effect.sw_read_acl_att_R [OF fds_kept_effect] simp: fds_kept_def acts_in_def)
  with 1 show ?thesis by (auto simp: env_le_def)
qed

text \<open>
  C22. Once a signal is on its way (some \<^verbatim>\<open>poll\<close> that has not happened yet brings it), the
  report loop of a session ends, whatever the controller sends and whatever fails; as many
  rounds as there are answers of \<^verbatim>\<open>poll\<close> left, and one more, are enough.
\<close>

theorem notify_loop_ends:
  "signal_due e \<Longrightarrow> length (polls e) < fuel \<Longrightarrow> \<exists>e'. notify_loop fuel ub h uhid att e = Some e'"
proof (induction fuel arbitrary: att e)
  case (Suc fuel)
  show ?case
  proof (cases "running e")
    case True
    obtain n att1 e1 where r: "read_acl_att h att 1024 1000 e = (n, att1, e1)" by (metis prod_cases3)
    have w1: "winds_down e e1" by (rule wind.sw_read_acl_att_R [OF r]) simp
    have less: "length (polls e1) < length (polls e)"
      by (rule read_acl_att_uses [OF r signal_due_polls [OF Suc.prems(1) True]]) simp
    have w2: "winds_down e1 (snd (uhid_send_report ub uhid d e1))" for d
      by (rule wind.sw_send_report_R [OF surjective_pairing]) simp
    from less Suc.prems(2) have l1: "length (polls e1) < fuel" by simp
    have d1: "signal_due e1" using winds_downD(1) [OF w1] Suc.prems(1) .
    have l2: "length (polls (snd (uhid_send_report ub uhid d e1))) < fuel" for d
      using winds_downD(4) [OF w2 [of d]] l1 by simp
    have d2: "signal_due (snd (uhid_send_report ub uhid d e1))" for d
      using winds_downD(1) [OF w2 [of d]] d1 .
    from r True Suc.IH [OF d1 l1] Suc.IH [OF d2 l2] show ?thesis
      by (auto split: option.split)
  qed simp
qed simp

text \<open>The first wait is cut short by the signal.\<close>

theorem notify_loop_ends_witness:
  "\<exists>e'. notify_loop 3 plain_ub 0x40 9 (replicate 1024 0)
     (quiet_env\<lparr>polls := [Poll_ans 5 False P_timeout, Poll_ans 10 True P_error]\<rparr>) = Some e'"
  by (rule notify_loop_ends) (simp_all add: signal_due_def)

end
