(* ===== verification/Hid_Descriptor.thy ===== *)
theory Hid_Descriptor
  imports Bt_Reports Sw2d_Packets
begin

text \<open>
  The two HID report descriptors of the repository (\<^verbatim>\<open>hid_report_descriptor.h\<close> for
  \<^verbatim>\<open>switch2-bt.c\<close>, \<open>gamepad_rdesc\<close> of \<^verbatim>\<open>sw2d.c\<close>) and what they make of the
  reports the daemons send. The meaning of a descriptor is the one of the HID
  specification: a list of short items that sets up fields, which lie in the report one
  after the other from bit 0 on. A host that reads a report by the descriptor gets the
  values the daemon put in.
\<close>

section \<open>The descriptor of \<open>switch2-bt.c\<close>\<close>

definition hid_report_descriptor :: bytes where
  "hid_report_descriptor =
    [0x05, 0x01, 0x09, 0x05, 0xA1, 0x01, 0x85, 0x01,
     0x05, 0x09, 0x19, 0x01, 0x29, 0x18, 0x15, 0x00, 0x25, 0x01, 0x75, 0x01, 0x95, 0x18, 0x81, 0x02,
     0x05, 0x01, 0x09, 0x30, 0x09, 0x31, 0x09, 0x32, 0x09, 0x35, 0x15, 0x00, 0x26, 0xFF, 0x0F,
     0x35, 0x00, 0x46, 0xFF, 0x0F, 0x75, 0x10, 0x95, 0x04, 0x81, 0x02,
     0x05, 0x01, 0x09, 0x39, 0x15, 0x00, 0x25, 0x07, 0x35, 0x00, 0x46, 0x3B, 0x01, 0x75, 0x04,
     0x95, 0x01, 0x81, 0x42,
     0x75, 0x04, 0x95, 0x01, 0x81, 0x03,
     0x85, 0x02, 0x05, 0x0F, 0x09, 0x21, 0x15, 0x00, 0x25, 0xFF, 0x75, 0x08, 0x95, 0x02, 0x91, 0x02,
     0xC0]"

section \<open>Reading a descriptor\<close>

text \<open>
  A short item: the low two bits of its first byte give the number of data bytes (3 stands
  for 4), the rest is kept as the item's code (type and tag).
\<close>

definition item_size :: "byte \<Rightarrow> nat" where
  "item_size p = (let n = unat (p AND 3) in if n = 3 then 4 else n)"

fun le_val :: "bytes \<Rightarrow> nat" where
  "le_val [] = 0"
| "le_val (b # bs) = unat b + 256 * le_val bs"

function items :: "bytes \<Rightarrow> (byte \<times> nat) list option" where
  "items [] = Some []"
| "items (p # bs) =
     (if item_size p \<le> length bs
      then map_option ((#) (p AND 0xFC, le_val (take (item_size p) bs))) (items (drop (item_size p) bs))
      else None)"
  by pat_completeness auto
termination by (relation "measure length") auto

text \<open>The global items that matter for the layout, and one field of a report.\<close>

record globals =
  g_min :: nat
  g_max :: nat
  g_size :: nat
  g_count :: nat
  g_id :: nat

datatype main_item = Input | Output

datatype field = Field (f_main: main_item) (f_id: nat) (f_size: nat) (f_count: nat) (f_min: nat)
    (f_max: nat) (f_const: bool)

fun layout :: "(byte \<times> nat) list \<Rightarrow> globals \<Rightarrow> field list" where
  "layout [] g = []"
| "layout ((c, v) # rest) g =
     (if c = 0x14 then layout rest (g\<lparr>g_min := v\<rparr>)
      else if c = 0x24 then layout rest (g\<lparr>g_max := v\<rparr>)
      else if c = 0x74 then layout rest (g\<lparr>g_size := v\<rparr>)
      else if c = 0x94 then layout rest (g\<lparr>g_count := v\<rparr>)
      else if c = 0x84 then layout rest (g\<lparr>g_id := v\<rparr>)
      else if c = 0x80 \<or> c = 0x90 then
        Field (if c = 0x80 then Input else Output) (g_id g) (g_size g) (g_count g) (g_min g) (g_max g)
          (v mod 2 = 1) # layout rest g
      else layout rest g)"

definition no_globals :: globals where
  "no_globals = \<lparr>g_min = 0, g_max = 0, g_size = 0, g_count = 0, g_id = 0\<rparr>"

definition report_fields_of :: "bytes \<Rightarrow> main_item \<Rightarrow> nat \<Rightarrow> field list option" where
  "report_fields_of rdesc m rid = map_option
     (\<lambda>is. filter (\<lambda>f. f_main f = m \<and> f_id f = rid) (layout is no_globals)) (items rdesc)"

definition report_bits :: "field list \<Rightarrow> nat" where
  "report_bits fs = sum_list (map (\<lambda>f. f_size f * f_count f) fs)"

section \<open>Reading a report\<close>

definition get_field :: "bytes \<Rightarrow> nat \<Rightarrow> nat \<Rightarrow> nat" where
  "get_field bs off sz = le_val bs div 2 ^ off mod 2 ^ sz"

fun read_fields :: "field list \<Rightarrow> nat \<Rightarrow> bytes \<Rightarrow> nat list list" where
  "read_fields [] off bs = []"
| "read_fields (f # fs) off bs =
     map (\<lambda>i. get_field bs (off + i * f_size f) (f_size f)) [0..<f_count f] #
     read_fields fs (off + f_size f * f_count f) bs"

text \<open>
  The values a host reads from a report that starts with its number: \<open>None\<close> where the
  length is not the one the descriptor gives. Constant fields are padding.
\<close>

definition read_report :: "bytes \<Rightarrow> bytes \<Rightarrow> nat list list option" where
  "read_report rdesc r = (case r of [] \<Rightarrow> None
     | rid # bs \<Rightarrow>
        Option.bind (report_fields_of rdesc Input (unat rid)) (\<lambda>fs.
          if fs \<noteq> [] \<and> 8 * length bs = report_bits fs
          then Some (map snd (filter (\<lambda>(f, vs). \<not> f_const f) (zip fs (read_fields fs 0 bs))))
          else None))"

section \<open>The layouts of the two descriptors\<close>

lemma hid_report_layout:
  "report_fields_of hid_report_descriptor Input 1 =
     Some [Field Input 1 1 24 0 1 False, Field Input 1 16 4 0 4095 False,
           Field Input 1 4 1 0 7 False, Field Input 1 4 1 0 7 True]"
  by code_simp

lemma hid_report_output_layout:
  "report_fields_of hid_report_descriptor Output 2 = Some [Field Output 2 8 2 0 255 False]"
  by code_simp

lemma gamepad_layout:
  "report_fields_of gamepad_rdesc Input 1 =
     Some [Field Input 1 1 24 0 1 False, Field Input 1 12 4 0 4095 False,
           Field Input 1 4 1 0 8 False, Field Input 1 4 1 0 8 True, Field Input 1 8 2 0 255 False]"
  by code_simp

section \<open>Bits and bytes\<close>

lemma le_val_drop: "le_val bs div 256 ^ k = le_val (drop k bs)"
proof (induction k arbitrary: bs)
  case (Suc k)
  show ?case
  proof (cases bs)
    case (Cons b bs')
    have "le_val (b # bs') div 256 = le_val bs'" by simp
    then have "le_val bs div 256 ^ Suc k = le_val bs' div 256 ^ k"
      using Cons by (simp add: div_mult2_eq)
    with Suc Cons show ?thesis by simp
  qed simp
qed simp

lemma get_field_drop: "get_field bs (8 * k + off) sz = get_field (drop k bs) off sz"
proof -
  have "(2::nat) ^ (8 * k) = 256 ^ k" by (simp add: power_mult)
  then have "le_val bs div 2 ^ (8 * k + off) = le_val (drop k bs) div 2 ^ off"
    using le_val_drop [of bs k] by (simp add: power_add div_mult2_eq)
  then show ?thesis by (simp add: get_field_def)
qed

lemma drop_two: "k + 1 < length bs \<Longrightarrow> drop k bs = bs ! k # bs ! (k + 1) # drop (k + 2) bs"
  by (simp add: Cons_nth_drop_Suc)

lemma get_byte: "k < length bs \<Longrightarrow> get_field bs (8 * k) 8 = unat (bs ! k)"
  using get_field_drop [of bs k 0 8] by (simp add: Cons_nth_drop_Suc [symmetric] get_field_def)

text \<open>The arithmetic of neighbouring bytes, on numbers.\<close>

lemma two_bytes_16: "a < 256 \<Longrightarrow> b < 256 \<Longrightarrow> (a + 256 * (b + 256 * r)) mod 65536 = a + 256 * (b :: nat)"
proof -
  assume l: "a < 256" "b < 256"
  have e: "a + 256 * (b + 256 * r) = (a + 256 * b) + 65536 * r" by simp
  show ?thesis unfolding e mod_mult_self2 by (rule mod_less) (use l in linarith)
qed

lemma two_bytes_low: "a < 256 \<Longrightarrow> (a + 256 * (b + 256 * r)) mod 4096 = a + 256 * (b mod 16 :: nat)"
proof -
  assume l: "a < 256"
  define q m where "q = b div 16" and "m = b mod 16"
  have b: "b = 16 * q + m" and m: "m < 16" by (simp_all add: q_def m_def)
  have e: "a + 256 * (b + 256 * r) = (a + 256 * m) + 4096 * (q + 16 * r)" unfolding b by simp
  show ?thesis unfolding e mod_mult_self2 m_def [symmetric] by (rule mod_less) (use l m in linarith)
qed

lemma div_16: "(a + 256 * x) div 16 = a div 16 + 16 * (x :: nat)"
proof -
  have e: "a + 256 * x = a + 16 * (16 * x)" by simp
  show ?thesis unfolding e by (subst div_mult_self2) simp_all
qed

lemma two_bytes_high:
  "a < 256 \<Longrightarrow> b < 256 \<Longrightarrow> (a + 256 * (b + 256 * r)) div 16 mod 4096 = a div 16 + 16 * (b :: nat)"
proof -
  assume l: "a < 256" "b < 256"
  have e: "a div 16 + 16 * (b + 256 * r) = (a div 16 + 16 * b) + 4096 * r" by simp
  have "a div 16 < 16" using l by (simp add: less_mult_imp_div_less)
  then show ?thesis unfolding div_16 e mod_mult_self2 by (intro mod_less) (use l in linarith)
qed

lemma byte_nibble: "(a + 256 * r) mod 16 = a mod (16 :: nat)"
proof -
  have e: "a + 256 * r = a + 16 * (16 * r)" by simp
  show ?thesis unfolding e by (rule mod_mult_self2)
qed

lemma byte_high_nibble: "a < 256 \<Longrightarrow> (a + 256 * r) div 16 mod 16 = a div (16 :: nat)"
  unfolding div_16 by (simp add: less_mult_imp_div_less)

lemma byte_bit: "i < 8 \<Longrightarrow> (a + 256 * r) div 2 ^ i mod 2 = a div 2 ^ i mod (2 :: nat)"
proof -
  assume "i < 8"
  then have p: "(256 :: nat) = 2 ^ i * (2 * 2 ^ (7 - i))" by (simp flip: power_add power_Suc)
  have e: "a + 256 * r = a + 2 ^ i * (2 * (2 ^ (7 - i) * r))" unfolding p by (simp only: mult.assoc)
  have "(a + 256 * r) div 2 ^ i = 2 * (2 ^ (7 - i) * r) + a div 2 ^ i"
    unfolding e by (subst div_mult_self2) simp_all
  then show ?thesis by simp
qed

lemma get_one:
  assumes "k < length bs"
  shows "get_field bs (8 * k + off) sz = (unat (bs ! k) + 256 * le_val (drop (Suc k) bs)) div 2 ^ off mod 2 ^ sz"
proof -
  have d: "drop k bs = bs ! k # drop (Suc k) bs" using assms by (simp add: Cons_nth_drop_Suc)
  show ?thesis by (subst get_field_drop, subst d) (simp only: get_field_def le_val.simps)
qed

lemma get_bit:
  assumes "k < length bs" "i < 8"
  shows "get_field bs (8 * k + i) 1 = of_bool (bit (bs ! k) i)"
proof -
  have "bit (bs ! k) i \<longleftrightarrow> odd (unat (bs ! k) div 2 ^ i)"
    unfolding bit_iff_odd [of "unat (bs ! k)", symmetric] by (simp add: bit_unsigned_iff)
  then show ?thesis
    using get_one [OF assms(1), of i 1] byte_bit [OF assms(2), of "unat (bs ! k)" "le_val (drop (Suc k) bs)"]
    by (simp add: mod_2_eq_odd)
qed

lemma get_two:
  assumes "k + 1 < length bs"
  shows "get_field bs (8 * k) 16 = unat (bs ! k) + 256 * unat (bs ! (k + 1))"
    "get_field bs (8 * k) 12 = unat (bs ! k) + 256 * (unat (bs ! (k + 1)) mod 16)"
    "get_field bs (8 * k + 4) 12 = unat (bs ! k) div 16 + 16 * unat (bs ! (k + 1))"
proof -
  let ?a = "unat (bs ! k)" and ?b = "unat (bs ! (k + 1))" and ?r = "le_val (drop (k + 2) bs)"
  have l: "?a < 256" "?b < 256" by simp_all
  have g: "get_field bs (8 * k + off) sz = (?a + 256 * (?b + 256 * ?r)) div 2 ^ off mod 2 ^ sz" for off sz
    by (subst get_field_drop, subst drop_two [OF assms]) (simp only: get_field_def le_val.simps)
  show "get_field bs (8 * k) 16 = ?a + 256 * ?b" using g [of 0 16] two_bytes_16 [OF l, of ?r] by simp
  show "get_field bs (8 * k) 12 = ?a + 256 * (?b mod 16)"
    using g [of 0 12] two_bytes_low [OF l(1), of ?b ?r] by simp
  show "get_field bs (8 * k + 4) 12 = ?a div 16 + 16 * ?b"
    using g [of 4 12] two_bytes_high [OF l, of ?r] by simp
qed

lemma get_nibbles:
  assumes "k < length bs"
  shows "get_field bs (8 * k) 4 = unat (bs ! k) mod 16" "get_field bs (8 * k + 4) 4 = unat (bs ! k) div 16"
  using get_one [OF assms, of 0 4] get_one [OF assms, of 4 4] byte_nibble byte_high_nibble by simp_all

lemma get_button: "i < 8 * length bs \<Longrightarrow> get_field bs i 1 = of_bool (bit (bs ! (i div 8)) (i mod 8))"
  using get_bit [of "i div 8" bs "i mod 8"] by (simp add: less_mult_imp_div_less mult.commute)

lemma upt_24: "[0..<24] = [0, 1, 2, 3, 4, 5, 6, 7, 8, 9, 10, 11, 12, 13, 14, 15, 16, 17, 18, 19, 20, 21, 22, 23]"
  by (simp add: upt_rec)

lemma upt_4: "[0..<4] = [0, 1, 2, 3]" and upt_2: "[0..<2] = [0, 1]" and upt_1: "[0..<1] = [0]"
  by (simp_all add: upt_rec)

section \<open>What the host reads\<close>

text \<open>The state of the pad as the descriptor presents it: buttons, axes, hat.\<close>

definition pad_view :: "pad \<Rightarrow> nat list list" where
  "pad_view c = [map (\<lambda>i. of_bool (i < 21 \<and> bit (buttons c) i)) [0..<24],
     [unat (lx c), unat (ly c), unat (rx c), unat (ry c)], [unat (dpad c) mod 16]]"

lemma build_hid_report_bytes:
  "build_hid_report c = [0x01, ucast (buttons c), ucast (drop_bit 8 (buttons c)),
     ucast (drop_bit 16 (buttons c)) AND 0x1F, ucast (lx c), ucast (drop_bit 8 (lx c)), ucast (ly c),
     ucast (drop_bit 8 (ly c)), ucast (rx c), ucast (drop_bit 8 (rx c)), ucast (ry c),
     ucast (drop_bit 8 (ry c)), dpad c AND 0x0F]"
  unfolding build_hid_report_def Let_def low_byte button_bytes [unfolded low_byte] by (rule refl)

lemma u16_bytes: "unat (ucast (w :: u16) :: byte) + 256 * unat (ucast (drop_bit 8 w) :: byte) = unat w"
  using le16_bytes [of w] by (simp only: low_byte)

lemma read_hid_report:
  assumes "length bs = 12"
  shows "read_report hid_report_descriptor (1 # bs) =
    Some [map (\<lambda>i. get_field bs i 1) [0..<24], map (\<lambda>i. get_field bs (24 + i * 16) 16) [0..<4],
          [get_field bs 88 4]]"
  using assms
  by (simp add: read_report_def hid_report_layout [unfolded One_nat_def] report_bits_def)

text \<open>
  C16. A host that reads the report by \<^verbatim>\<open>hid_report_descriptor\<close> sees the state of the pad:
  the report has exactly the length of the descriptor's input report 1, its 24 button fields
  are the 21 defined buttons (and three that are never pressed), its axis fields the sticks,
  its hat field the direction.
\<close>

theorem host_reads_pad:
  "read_report hid_report_descriptor (build_hid_report c) = Some (pad_view c)"
proof -
  let ?bs = "drop 1 (build_hid_report c)"
  have l: "length ?bs = 12" by (simp add: build_hid_report_bytes)
  have buttons: "map (\<lambda>i. get_field ?bs i 1) [0..<24] = map (\<lambda>i. of_bool (i < 21 \<and> bit (buttons c) i)) [0..<24]"
  proof (rule map_cong [OF refl])
    fix i
    assume "i \<in> set [0 :: nat..<24]"
    moreover from this have "get_field ?bs i 1 = of_bool (bit (?bs ! (i div 8)) (i mod 8))"
      using l by (intro get_button) simp
    ultimately show "get_field ?bs i 1 = of_bool (i < 21 \<and> bit (buttons c) i)"
      unfolding upt_24 build_hid_report_bytes masks by (auto simp: bit_simps)
  qed
  have axis: "get_field ?bs (8 * k) 16 = unat (?bs ! k) + 256 * unat (?bs ! (k + 1))" if "k < 11" for k
    using get_two(1) [of k ?bs] l that by simp
  have axes: "map (\<lambda>i. get_field ?bs (24 + i * 16) 16) [0..<4] = [unat (lx c), unat (ly c), unat (rx c), unat (ry c)]"
    using axis [of 3] axis [of 5] axis [of 7] axis [of 9]
    by (simp add: upt_4 build_hid_report_bytes u16_bytes)
  have hat: "get_field ?bs 88 4 = unat (dpad c) mod 16"
    using get_nibbles(1) [of 11 ?bs] l by (simp add: build_hid_report_bytes unat_and15)
  have "build_hid_report c = 1 # ?bs" by (simp add: build_hid_report_bytes)
  moreover have "read_report hid_report_descriptor (1 # ?bs) = Some (pad_view c)"
    unfolding read_hid_report [OF l] pad_view_def buttons axes hat by (rule refl)
  ultimately show ?thesis by metis
qed

section \<open>The gamepad of \<open>sw2d.c\<close>\<close>

lemma read_gamepad_report:
  assumes "length bs = 12"
  shows "read_report gamepad_rdesc (1 # bs) =
    Some [map (\<lambda>i. get_field bs i 1) [0..<24], map (\<lambda>i. get_field bs (24 + i * 12) 12) [0..<4],
          [get_field bs 72 4], map (\<lambda>i. get_field bs (80 + i * 8) 8) [0..<2]]"
  using assms
  by (simp add: read_report_def gamepad_layout [unfolded One_nat_def] report_bits_def)

lemma unat_le16: "unat (ucast (a :: byte) OR push_bit 8 (ucast (b :: byte)) :: u16) = unat a + 256 * unat b"
proof -
  have le: "unat a + 256 * unat b < 65536" using unat_byte_less [of a] unat_byte_less [of b] by linarith
  have p: "unat (push_bit 8 (ucast b) :: u16) = 256 * unat b"
    using le by (simp add: push_bit_eq_mult unat_word_ariths)
  have "ucast a OR push_bit 8 (ucast b) = (ucast a + push_bit 8 (ucast b) :: u16)"
    by (rule disjunctive_add [symmetric]) (auto simp: bit_simps dest: bit_imp_le_length)
  with le p show ?thesis by (simp add: unat_word_ariths)
qed

lemma pack12_values:
  assumes "x AND 0x0fff = x" "y AND 0x0fff = y" and "pack12 x y = [a, b, c]"
  shows "unat a + 256 * (unat b mod 16) = unat x" "unat b div 16 + 16 * unat c = unat y"
proof -
  have u: "ucast a OR push_bit 8 (ucast (b AND 0x0f)) = x" "ucast (drop_bit 4 b) OR push_bit 4 (ucast c) = y"
    using unpack_pack12 [OF assms(1,2)] unfolding assms(3) by (simp_all add: unpack12_def)
  show "unat a + 256 * (unat b mod 16) = unat x"
    using unat_le16 [of a "b AND 0x0f"] unfolding u(1) by (simp add: unat_and15)
  have "unat (drop_bit 4 b) < 16" unfolding unat_drop4 using unat_byte_less [of b] by linarith
  from unat_nibble_or [OF this, of c] have "unat ((ucast (drop_bit 4 b) OR push_bit 4 (ucast c) :: u16) AND 0xFFF) =
      unat c * 16 + unat (drop_bit 4 b)" by (simp only: or.commute)
  then show "unat b div 16 + 16 * unat c = unat y"
    unfolding u(2) assms(2) unat_drop4 by simp
qed

text \<open>The button bits of a report: sixteen of the input report, and two of them once more.\<close>

definition report09_bit :: "nat \<Rightarrow> nat" where
  "report09_bit i = (if i < 16 then i else if i < 18 then i - 10 else 16)"

lemma report09_buttons:
  fixes b :: u16 and m :: byte
  assumes "m = of_bool (bit b 6) OR 2 * of_bool (bit b 7)" and "12 \<le> length (ucast b # ucast (drop_bit 8 b) # m # rest)"
  shows "map (\<lambda>i. get_field (ucast b # ucast (drop_bit 8 b) # m # rest) i 1) [0..<24] =
      map (\<lambda>i. of_bool (bit b (report09_bit i))) [0..<24]" (is "map (\<lambda>i. get_field ?bs i 1) _ = _")
proof (rule map_cong [OF refl])
  fix i
  assume i: "i \<in> set [0 :: nat..<24]"
  have m: "bit m k = (if k = 0 then bit b 6 else if k = 1 then bit b 7 else False)" if "k < 8" for k
  proof -
    from that have "k \<in> {0, 1, 2, 3, 4, 5, 6, 7}" by auto
    then show ?thesis by (cases "bit b 6"; cases "bit b 7") (auto simp: assms(1))
  qed
  have b16: "\<not> bit b 16" by (auto dest: bit_imp_le_length)
  have "get_field ?bs i 1 = of_bool (bit (?bs ! (i div 8)) (i mod 8))"
    using i assms(2) by (intro get_button) simp
  moreover have "bit (?bs ! (i div 8)) (i mod 8) = bit b (report09_bit i)"
  proof -
    from i consider "i < 8" "i div 8 = 0" "i mod 8 = i" | "8 \<le> i" "i < 16" "i div 8 = 1" "i mod 8 = i - 8"
      | "16 \<le> i" "i < 24" "i div 8 = 2" "i mod 8 = i - 16" by (auto simp: upt_24)
    then show ?thesis
    proof cases
      case 3
      moreover have "i - 16 < 8" "i = 16 \<or> i = 17 \<or> 18 \<le> i" using 3 by auto
      ultimately show ?thesis using m [of "i - 16"] b16 by (auto simp: report09_bit_def)
    qed (auto simp: report09_bit_def bit_simps)
  qed
  ultimately show "get_field ?bs i 1 = of_bool (bit b (report09_bit i))" by simp
qed



end
