(* ===== verification/Rumble.thy ===== *)
theory Rumble
  imports Hid_Descriptor
begin

text \<open>
  The kernel module \<^verbatim>\<open>switch2-bt-ff.c\<close>, which adds force feedback to the device of
  \<^verbatim>\<open>switch2-bt.c\<close>. The HID core it is built on belongs to the kernel, so its calls are
  parameters: \<open>validate\<close> (\<^verbatim>\<open>hid_validate_values\<close>), \<open>create\<close>
  (\<^verbatim>\<open>input_ff_create_memless\<close>), and the codes of parsing and starting the device. The
  values of a report field are \<^verbatim>\<open>s32\<close> numbers, so their bytes are four each, low byte
  first on the machines the module is built for.
\<close>

section \<open>The driver\<close>

abbreviation (input) ENODEV :: int where "ENODEV \<equiv> 19"
abbreviation (input) ENOMEM :: int where "ENOMEM \<equiv> 12"

text \<open>What the driver does to the kernel, in order; \<open>K_start\<close> is a start that succeeded.\<close>

datatype kact = K_start | K_stop | K_set_rumble | K_create | K_free | K_output bytes

text \<open>A report of the HID core: how many values its first field has.\<close>

record hid_report =
  report_count :: nat

record kernel =
  no_inputs :: bool
  parse_code :: int
  start_code :: int
  validate :: "main_item \<Rightarrow> nat \<Rightarrow> nat \<Rightarrow> nat \<Rightarrow> hid_report option"
  alloc_ok :: bool
  create_code :: int

text \<open>The bytes of an array of 32-bit values.\<close>

definition le32_bytes :: "u32 \<Rightarrow> bytes" where
  "le32_bytes v = [ucast v, ucast (drop_bit 8 v), ucast (drop_bit 16 v), ucast (drop_bit 24 v)]"

definition switch2bt_ff_play :: "hid_report \<Rightarrow> u16 \<Rightarrow> u16 \<Rightarrow> kact" where
  "switch2bt_ff_play rep strong weak =
     (let left = ucast (drop_bit 8 strong) :: byte; right = ucast (drop_bit 8 weak) :: byte;
          value = [0x02, ucast left, ucast right] :: u32 list
      in K_output (take (report_count rep) (concat (map le32_bytes value))))"

text \<open>The code, the report force feedback was registered with, and what was done.\<close>

definition switch2bt_ff_init :: "kernel \<Rightarrow> int \<times> hid_report option \<times> kact list" where
  "switch2bt_ff_init k =
     (if no_inputs k then (- ENODEV, None, [])
      else (case validate k Output 2 0 3 of
              None \<Rightarrow> (0, None, [])
            | Some rep \<Rightarrow>
                if \<not> alloc_ok k then (- ENOMEM, None, [])
                else if create_code k \<noteq> 0 then (create_code k, None, [K_set_rumble, K_create, K_free])
                else (0, Some rep, [K_set_rumble, K_create])))"

definition switch2bt_probe :: "kernel \<Rightarrow> int \<times> hid_report option \<times> kact list" where
  "switch2bt_probe k =
     (if parse_code k \<noteq> 0 then (parse_code k, None, [])
      else if start_code k \<noteq> 0 then (start_code k, None, [])
      else (case switch2bt_ff_init k of (ret, ff, l) \<Rightarrow>
              if ret \<noteq> 0 then (ret, None, K_start # l @ [K_stop]) else (0, ff, K_start # l)))"

definition switch2bt_remove :: "kact list" where
  "switch2bt_remove = [K_stop]"

definition switch2bt_devices :: "(nat \<times> nat) list" where
  "switch2bt_devices = [(0x057E, 0x2060)]"

section \<open>Starting and stopping\<close>

text \<open>How many more times the device was started than stopped.\<close>

definition running_count :: "kact list \<Rightarrow> int" where
  "running_count l = int (length (filter (\<lambda>a. a = K_start) l)) - int (length (filter (\<lambda>a. a = K_stop) l))"

lemma ff_init_acts:
  "switch2bt_ff_init k = (ret, ff, l) \<Longrightarrow> K_start \<notin> set l \<and> K_stop \<notin> set l \<and> (ff \<noteq> None \<longrightarrow> ret = 0)"
  by (auto simp: switch2bt_ff_init_def split: if_splits option.splits)

lemma running_count_none: "K_start \<notin> set l \<Longrightarrow> K_stop \<notin> set l \<Longrightarrow> running_count l = 0"
  by (induction l) (auto simp: running_count_def)

lemma running_count_simps [simp]:
  "running_count (K_start # l) = running_count l + 1" "running_count (l @ l') = running_count l + running_count l'"
  "running_count [K_stop] = -1" "running_count [] = 0"
  by (simp_all add: running_count_def)

text \<open>
  Probing leaves the device started exactly if it reports success, on every path, so
  that removing the driver afterwards leaves it stopped; and force feedback is registered
  only on a device that stays started.
\<close>

theorem probe_starts_iff_ok:
  assumes "switch2bt_probe k = (ret, ff, l)"
  shows "running_count l = (if ret = 0 then 1 else 0) \<and> (ff \<noteq> None \<longrightarrow> ret = 0) \<and>
     (ret = 0 \<longrightarrow> running_count (l @ switch2bt_remove) = 0)"
proof -
  obtain r f m where i: "switch2bt_ff_init k = (r, f, m)" by (metis prod_cases3)
  from ff_init_acts [OF this] have m: "running_count m = 0" "f \<noteq> None \<longrightarrow> r = 0"
    by (simp_all add: running_count_none)
  with assms i show ?thesis
    by (auto simp: switch2bt_probe_def switch2bt_remove_def split: if_splits)
qed

text \<open>A device that is not an input device is stopped again.\<close>

definition demo_kernel :: kernel where
  "demo_kernel = \<lparr>no_inputs = True, parse_code = 0, start_code = 0, validate = \<lambda>m r i n. None,
     alloc_ok = True, create_code = 0\<rparr>"

theorem probe_starts_iff_ok_witness:
  "switch2bt_probe demo_kernel = (-19, None, [K_start, K_stop]) \<and> running_count [K_start, K_stop] = 0"
proof -
  have p: "switch2bt_probe demo_kernel = (-19, None, [K_start, K_stop])"
    by (simp add: switch2bt_probe_def switch2bt_ff_init_def demo_kernel_def)
  with probe_starts_iff_ok [OF p] show ?thesis by simp
qed

section \<open>Rumble\<close>

text \<open>
  What the kernel documents of \<^verbatim>\<open>hid_validate_values\<close>: it finds the report if the
  descriptor has it and its field holds at least the wanted number of values.
\<close>

definition validates_by :: "bytes \<Rightarrow> kernel \<Rightarrow> bool" where
  "validates_by rdesc k \<longleftrightarrow> (\<forall>m rid i n. validate k m rid i n =
     (case report_fields_of rdesc m rid of
        None \<Rightarrow> None
      | Some fs \<Rightarrow> if i < length fs \<and> n \<le> f_count (fs ! i)
                   then Some \<lparr>report_count = f_count (fs ! i)\<rparr> else None))"

text \<open>
  The driver passes the array of 32-bit values as bytes: with three of them sent, they are the
  report number and two of its upper bytes.
\<close>

lemma play_bytes: "switch2bt_ff_play \<lparr>report_count = 3\<rparr> strong weak = K_output [0x02, 0, 0]"
  by (simp add: switch2bt_ff_play_def le32_bytes_def Let_def numeral_3_eq_3)

text \<open>
  C33. On the device that \<^verbatim>\<open>switch2-bt.c\<close> creates, force feedback is never registered:
  the driver wants three values in output report 2, the descriptor declares two. Probing
  succeeds all the same. On a device with three values, where it is registered, every effect
  is sent as report number, zero, zero: neither motor strength is ever sent.
\<close>

theorem rumble_never_registered:
  assumes "validates_by hid_report_descriptor k" and "switch2bt_probe k = (ret, ff, l)"
  shows "ff = None \<and> (parse_code k = 0 \<and> start_code k = 0 \<and> \<not> no_inputs k \<longrightarrow> ret = 0) \<and>
     switch2bt_ff_play \<lparr>report_count = 3\<rparr> strong weak = K_output [0x02, 0, 0]"
proof -
  have "validate k Output 2 0 3 = None"
    using assms(1) by (simp add: validates_by_def hid_report_output_layout)
  with assms(2) play_bytes show ?thesis
    by (auto simp: switch2bt_probe_def switch2bt_ff_init_def split: if_splits)
qed

definition pad_kernel :: kernel where
  "pad_kernel = \<lparr>no_inputs = False, parse_code = 0, start_code = 0,
     validate = (\<lambda>m rid i n. case report_fields_of hid_report_descriptor m rid of
        None \<Rightarrow> None
      | Some fs \<Rightarrow> if i < length fs \<and> n \<le> f_count (fs ! i)
                   then Some \<lparr>report_count = f_count (fs ! i)\<rparr> else None),
     alloc_ok = True, create_code = 0\<rparr>"

theorem rumble_never_registered_witness:
  "\<exists>l. switch2bt_probe pad_kernel = (0, None, l)"
proof -
  have "validates_by hid_report_descriptor pad_kernel" by (simp add: validates_by_def pad_kernel_def)
  moreover obtain ret ff l where "switch2bt_probe pad_kernel = (ret, ff, l)" by (metis prod_cases3)
  ultimately show ?thesis using rumble_never_registered [of pad_kernel ret ff l] by (auto simp: pad_kernel_def)
qed

end
