(* ===== verification/Bridge.thy ===== *)
theory Bridge
  imports Prelude "HOL-Library.Sublist"
begin

text \<open>
  \<^verbatim>\<open>switch2_btstack_bridge.c\<close>: the application state machine on top of BTstack. An
  event is what BTstack delivers to a callback, with the fields the code reads from it;
  what the application asks BTstack for is appended to the list \<open>outs\<close> of its state.
\<close>

section \<open>Constants\<close>

abbreviation (input) NINTENDO_MANUFACTURER :: nat where "NINTENDO_MANUFACTURER \<equiv> 0x0553"
abbreviation (input) HCI_CON_HANDLE_INVALID :: u16 where "HCI_CON_HANDLE_INVALID \<equiv> 0xffff"

definition UUID_INPUT_REPORT :: bytes where
  "UUID_INPUT_REPORT = [0xab, 0x7d, 0xe9, 0xbe, 0x89, 0xfe, 0x49, 0xad,
                        0x82, 0x8f, 0x11, 0x8f, 0x09, 0xdf, 0x7f, 0xd2]"

definition UUID_COMMAND_WRITE :: bytes where
  "UUID_COMMAND_WRITE = [0x64, 0x9d, 0x4a, 0xc9, 0x8e, 0xb7, 0x4e, 0x6c,
                         0xaf, 0x44, 0x1e, 0xa5, 0x4f, 0xe5, 0xf0, 0x05]"

definition PAIR_KEY_1 :: bytes where
  "PAIR_KEY_1 = [0x00, 0xea, 0xbd, 0x47, 0x13, 0x89, 0x35, 0x42,
                 0xc6, 0x79, 0xee, 0x07, 0xf2, 0x53, 0x2c, 0x6c, 0x31]"

definition PAIR_KEY_2 :: bytes where
  "PAIR_KEY_2 = [0x00, 0x40, 0xb0, 0x8a, 0x5f, 0xcd, 0x1f, 0x9b,
                 0x41, 0x12, 0x5c, 0xac, 0xc6, 0x3f, 0x38, 0xa0, 0x73]"

definition HOST_MAC :: bytes where
  "HOST_MAC = [0xD8, 0x3A, 0xDD, 0xE5, 0x69, 0xED]"

section \<open>State\<close>

datatype app_state =
    ST_SCANNING | ST_CONNECTING | ST_CONNECTED | ST_SERVICE_DISCOVERING | ST_CHAR_DISCOVERING
  | ST_WAIT_ENCRYPTION | ST_PAIRING | ST_NOTIFYING | ST_READY

text \<open>A characteristic as BTstack describes it: value handle, end handle, properties.\<close>

record characteristic =
  value_handle :: u16
  end_handle :: u16
  properties :: u16

definition no_char :: characteristic where
  "no_char = \<lparr>value_handle = 0, end_handle = 0, properties = 0\<rparr>"

datatype out =
    O_conn_params "nat list"
  | O_scan_params "nat list"
  | O_start_scan
  | O_stop_scan
  | O_connect bytes byte
  | O_disconnect u16
  | O_request_pairing u16
  | O_confirm_numeric u16
  | O_confirm_just_works u16
  | O_discover u16 u16 u16 bytes \<comment> \<open>connection, range, UUID\<close>
  | O_write u16 u16 bytes \<comment> \<open>connection, value handle, value\<close>
  | O_enable_notify u16 characteristic
  | O_listen u16 characteristic
  | O_sleep nat
  | O_report bytes

record bridge =
  app_state :: app_state
  remote_addr :: bytes
  remote_addr_type :: byte
  conn_handle :: u16
  service_index :: u16
  services :: "(u16 \<times> u16) list"
  cmd_write_char :: characteristic
  input_report_char :: characteristic
  pair_step :: int
  outs :: "out list"

text \<open>Static variables start at zero; the first enumerator is the scanning state.\<close>

definition initial :: bridge where
  "initial = \<lparr>app_state = ST_SCANNING, remote_addr = replicate 6 0, remote_addr_type = 0,
     conn_handle = HCI_CON_HANDLE_INVALID, service_index = 0, services = [],
     cmd_write_char = no_char, input_report_char = no_char, pair_step = 0, outs = []\<rparr>"

abbreviation emit :: "out \<Rightarrow> bridge \<Rightarrow> bridge" where
  "emit x b \<equiv> b\<lparr>outs := outs b @ [x]\<rparr>"

section \<open>Events\<close>

datatype event =
    EV_STATE bool \<comment> \<open>whether the state is HCI\_STATE\_WORKING\<close>
  | EV_ADVERTISING bytes bytes byte \<comment> \<open>data, address, address type\<close>
  | EV_LE_CONNECTION u16 byte \<comment> \<open>handle, status\<close>
  | EV_META_OTHER
  | EV_ENCRYPTION_CHANGE byte
  | EV_DISCONNECTED
  | EV_SERVICE u16 u16
  | EV_CHARACTERISTIC characteristic
  | EV_QUERY_COMPLETE byte
  | EV_VALUE u16 bytes
  | EV_SM_NUMERIC u16
  | EV_SM_JUST_WORKS u16
  | EV_SM_PAIRING_COMPLETE byte
  | EV_OTHER

section \<open>Commands and the pair sequence\<close>

definition build_cmd :: "byte \<Rightarrow> byte \<Rightarrow> bytes \<Rightarrow> byte \<Rightarrow> bytes" where
  "build_cmd cmd_id sub_id data data_len =
     [cmd_id, 0x91, 0x01, sub_id, 0x00, data_len, 0x00, 0x00] @ take (unat data_len) data"

definition pair_payload :: "int \<Rightarrow> bytes option" where
  "pair_payload step =
     (if step = 0 then Some (build_cmd 0x15 0x01 ([0x00, 0x02] @ HOST_MAC @ HOST_MAC) 14)
      else if step = 1 then Some (build_cmd 0x15 0x04 PAIR_KEY_1 17)
      else if step = 2 then Some (build_cmd 0x15 0x02 PAIR_KEY_2 17)
      else if step = 3 then Some (build_cmd 0x15 0x03 [0x00] 1)
      else None)"

definition write_pair_step :: "bridge \<Rightarrow> bridge" where
  "write_pair_step b = (case pair_payload (pair_step b) of
      None \<Rightarrow> b
    | Some payload \<Rightarrow> emit (O_write (conn_handle b) (value_handle (cmd_write_char b)) payload) b)"

section \<open>The GATT client handler\<close>

definition discover_input :: "bridge \<Rightarrow> bridge" where
  "discover_input b = emit (O_discover (conn_handle b) 0x0001 0xFFFF UUID_INPUT_REPORT) b"

definition discover_command :: "bridge \<Rightarrow> bridge" where
  "discover_command b = emit (O_discover (conn_handle b) 0x0001 0xFFFF UUID_COMMAND_WRITE) b"

definition query_complete :: "byte \<Rightarrow> bridge \<Rightarrow> bridge" where
  "query_complete att b =
     (if att \<noteq> 0 then emit (O_disconnect (conn_handle b)) b
      else if app_state b = ST_CHAR_DISCOVERING then
        (if value_handle (input_report_char b) = 0 then discover_input b
         else if value_handle (cmd_write_char b) = 0 then discover_command b
         else write_pair_step (b\<lparr>app_state := ST_PAIRING, pair_step := 0\<rparr>))
      else if app_state b = ST_PAIRING then
        (let b1 = b\<lparr>pair_step := pair_step b + 1\<rparr>
         in if pair_step b1 < 4 then write_pair_step b1
            else emit (O_enable_notify (conn_handle b1) (input_report_char b1))
                   (b1\<lparr>app_state := ST_NOTIFYING\<rparr>))
      else if app_state b = ST_NOTIFYING then
        (emit (O_listen (conn_handle b) (input_report_char b)) b)\<lparr>app_state := ST_READY\<rparr>
      else b)"

definition gatt_client_handler :: "event \<Rightarrow> bridge \<Rightarrow> bridge" where
  "gatt_client_handler ev b = (case ev of
      EV_SERVICE st en \<Rightarrow>
        (if length (services b) < 32 then b\<lparr>services := services b @ [(st, en)]\<rparr> else b)
    | EV_CHARACTERISTIC c \<Rightarrow>
        (if value_handle (input_report_char b) = 0 then b\<lparr>input_report_char := c\<rparr>
         else if value_handle (cmd_write_char b) = 0 then b\<lparr>cmd_write_char := c\<rparr>
         else b)
    | EV_QUERY_COMPLETE att \<Rightarrow> query_complete att b
    | EV_VALUE h val \<Rightarrow>
        (if h = value_handle (input_report_char b) then emit (O_report val) b else b)
    | _ \<Rightarrow> b)"

section \<open>The advertisement filter\<close>

text \<open>The loop of \<^verbatim>\<open>adv_is_nintendo\<close>; \<open>pos\<close> is an 8-bit counter.\<close>

function adv_loop :: "bytes \<Rightarrow> nat \<Rightarrow> nat \<Rightarrow> bool" where
  "adv_loop ad len pos =
     (if len \<le> 255 \<and> pos + 1 < len then
        (let elen = unat (ad ! pos); ty = ad ! (pos + 1)
         in if elen = 0 \<or> len < pos + 1 + elen then False
            else if ty = 0xFF \<and> 3 \<le> elen \<and>
                    unat (ad ! (pos + 2)) + 256 * unat (ad ! (pos + 3)) = NINTENDO_MANUFACTURER
            then True
            else adv_loop ad len ((pos + 1 + elen) mod 256))
      else False)"
  by pat_completeness auto
termination
  by (relation "measure (\<lambda>(ad, len, pos). len - pos)") auto

declare adv_loop.simps [simp del]

definition adv_is_nintendo :: "bytes \<Rightarrow> bool" where
  "adv_is_nintendo ad = adv_loop ad (unat (of_nat (length ad) :: byte)) 0"

section \<open>The security manager handler\<close>

definition start_discovery :: "bridge \<Rightarrow> bridge" where
  "start_discovery b = discover_input (b\<lparr>app_state := ST_CHAR_DISCOVERING, service_index := 0,
     services := [], cmd_write_char := no_char, input_report_char := no_char\<rparr>)"

definition sm_packet_handler :: "event \<Rightarrow> bridge \<Rightarrow> bridge" where
  "sm_packet_handler ev b = (case ev of
      EV_SM_NUMERIC h \<Rightarrow> emit (O_confirm_numeric h) b
    | EV_SM_JUST_WORKS h \<Rightarrow> (emit (O_confirm_just_works h) b)\<lparr>app_state := ST_WAIT_ENCRYPTION\<rparr>
    | EV_SM_PAIRING_COMPLETE st \<Rightarrow>
        (if app_state b = ST_WAIT_ENCRYPTION then start_discovery b else b)
    | _ \<Rightarrow> b)"

section \<open>The main packet handler\<close>

definition packet_handler :: "event \<Rightarrow> bridge \<Rightarrow> bridge" where
  "packet_handler ev b = (case ev of
      EV_STATE working \<Rightarrow>
        (if \<not> working then b
         else emit O_start_scan (emit (O_scan_params [0, 48, 48])
                (emit (O_conn_params [48, 24, 6, 8, 0, 50, 0, 0]) (b\<lparr>app_state := ST_SCANNING\<rparr>))))
    | EV_ADVERTISING ad addr ty \<Rightarrow>
        (if app_state b \<noteq> ST_SCANNING \<or> \<not> adv_is_nintendo ad then b
         else emit (O_connect addr ty)
                ((emit O_stop_scan (b\<lparr>remote_addr := addr, remote_addr_type := ty\<rparr>))
                   \<lparr>app_state := ST_CONNECTING\<rparr>))
    | EV_LE_CONNECTION h st \<Rightarrow>
        (let b1 = b\<lparr>conn_handle := h\<rparr>
         in if st \<noteq> 0 then emit O_start_scan (b1\<lparr>app_state := ST_SCANNING\<rparr>)
            else emit (O_request_pairing h) (b1\<lparr>app_state := ST_CONNECTED\<rparr>))
    | EV_META_OTHER \<Rightarrow> b
    | EV_ENCRYPTION_CHANGE st \<Rightarrow>
        (if app_state b = ST_WAIT_ENCRYPTION then start_discovery b else b)
    | EV_DISCONNECTED \<Rightarrow>
        emit O_start_scan (emit (O_scan_params [0, 48, 48])
          ((emit (O_sleep 1) (b\<lparr>conn_handle := HCI_CON_HANDLE_INVALID, cmd_write_char := no_char,
              input_report_char := no_char, services := []\<rparr>))\<lparr>app_state := ST_SCANNING\<rparr>))
    | _ \<Rightarrow> gatt_client_handler ev b)"

section \<open>The machine\<close>

text \<open>
  BTstack calls one of the three registered callbacks with an event. Which events it sends
  to which callback is its own business; the machine admits every choice.
\<close>

inductive bridge_step :: "bridge \<Rightarrow> bridge \<Rightarrow> bool" where
  hci_event: "bridge_step b (packet_handler ev b)"
| sm_event: "bridge_step b (sm_packet_handler ev b)"
| gatt_event: "bridge_step b (gatt_client_handler ev b)"

inductive reachable :: "bridge \<Rightarrow> bool" where
  start: "reachable initial"
| step: "reachable b \<Longrightarrow> bridge_step b b' \<Longrightarrow> reachable b'"

inductive_cases bridge_stepE: "bridge_step b b'"

section \<open>The order of the pair sequence\<close>

text \<open>The payloads written to the command characteristic, and the sequence they should form.\<close>

fun written_by :: "out \<Rightarrow> bytes list" where
  "written_by (O_write c h payload) = [payload]"
| "written_by _ = []"

definition written :: "bridge \<Rightarrow> bytes list" where
  "written b = concat (map written_by (outs b))"

definition pair_sequence :: "bytes list" where
  "pair_sequence = map (\<lambda>k. the (pair_payload k)) [0, 1, 2, 3]"

definition uses_gatt :: "out \<Rightarrow> bool" where
  "uses_gatt x = (case x of O_discover c a z u \<Rightarrow> True | O_write c h p \<Rightarrow> True | _ \<Rightarrow> False)"

definition is_confirm :: "out \<Rightarrow> bool" where
  "is_confirm x = (case x of O_confirm_just_works h \<Rightarrow> True | _ \<Rightarrow> False)"

definition gatt_states :: "app_state list" where
  "gatt_states = [ST_WAIT_ENCRYPTION, ST_CHAR_DISCOVERING, ST_PAIRING, ST_NOTIFYING, ST_READY]"

text \<open>
  The invariant: where the pair sequence stands is visible in what was written, and GATT is
  used only after the Just Works confirmation.
\<close>

definition bridge_inv :: "bridge \<Rightarrow> bool" where
  "bridge_inv b \<longleftrightarrow>
     (app_state b = ST_PAIRING \<longrightarrow> 0 \<le> pair_step b \<and> pair_step b < 4 \<and>
        suffix (take (nat (pair_step b) + 1) pair_sequence) (written b)) \<and>
     (app_state b \<in> {ST_NOTIFYING, ST_READY} \<longrightarrow> suffix pair_sequence (written b)) \<and>
     set (written b) \<subseteq> set pair_sequence \<and>
     ((app_state b \<in> set gatt_states \<or> list_ex uses_gatt (outs b)) \<longrightarrow> list_ex is_confirm (outs b))"

lemma length_pair_sequence [simp]: "length pair_sequence = 4"
  by (simp add: pair_sequence_def)

lemma pair_payload_nth:
  "0 \<le> k \<Longrightarrow> k < 4 \<Longrightarrow> pair_payload k = Some (pair_sequence ! nat k)"
proof -
  assume "0 \<le> k" "k < 4"
  then have "k = 0 \<or> k = 1 \<or> k = 2 \<or> k = 3" by auto
  then show ?thesis by (auto simp: pair_sequence_def pair_payload_def)
qed

lemma suffix_take_Suc:
  "suffix (take n xs) ys \<Longrightarrow> n < length xs \<Longrightarrow> suffix (take (Suc n) xs) (ys @ [xs ! n])"
  by (simp add: take_Suc_conv_app_nth)

lemma write_pair_step_eq:
  "0 \<le> pair_step b \<Longrightarrow> pair_step b < 4 \<Longrightarrow> write_pair_step b =
     emit (O_write (conn_handle b) (value_handle (cmd_write_char b)) (pair_sequence ! nat (pair_step b))) b"
  by (simp add: write_pair_step_def pair_payload_nth)

lemmas inv_eval = bridge_inv_def written_def uses_gatt_def is_confirm_def gatt_states_def

lemma inv_initial: "bridge_inv initial"
  by (simp add: inv_eval initial_def)

text \<open>Actions that write nothing and change no state keep it.\<close>

lemma inv_emit:
  "bridge_inv b \<Longrightarrow> written_by x = [] \<Longrightarrow> \<not> uses_gatt x \<Longrightarrow> bridge_inv (emit x b)"
  by (auto simp: bridge_inv_def written_def)

lemma inv_upd:
  "bridge_inv b \<Longrightarrow> app_state b' = app_state b \<Longrightarrow> pair_step b' = pair_step b \<Longrightarrow> outs b' = outs b \<Longrightarrow>
     bridge_inv b'"
  by (simp add: bridge_inv_def written_def)

lemma inv_leave:
  "bridge_inv b \<Longrightarrow> st \<in> {ST_SCANNING, ST_CONNECTING, ST_CONNECTED} \<Longrightarrow> bridge_inv (b\<lparr>app_state := st\<rparr>)"
  by (auto simp: inv_eval)

lemma inv_discover:
  assumes "bridge_inv b" "app_state b \<in> set gatt_states"
    "b' = b\<lparr>app_state := ST_CHAR_DISCOVERING, service_index := si, services := sv, cmd_write_char := cc,
       input_report_char := ic, outs := outs b @ [O_discover c lo hi u]\<rparr>"
  shows "bridge_inv b'"
  using assms by (auto simp: bridge_inv_def written_def gatt_states_def)

lemma inv_pair_write:
  assumes "bridge_inv b" "app_state b \<in> set gatt_states" "0 \<le> k" "k < 4"
    and "suffix (take (nat k) pair_sequence) (written b)"
  shows "bridge_inv (write_pair_step (b\<lparr>app_state := ST_PAIRING, pair_step := k\<rparr>))"
proof -
  have "nat k < length pair_sequence" using assms(3,4) by simp
  moreover from this have "pair_sequence ! nat k \<in> set pair_sequence" by (rule nth_mem)
  ultimately show ?thesis
    using assms suffix_take_Suc [OF assms(5)]
    by (simp add: write_pair_step_eq) (auto simp: bridge_inv_def written_def gatt_states_def)
qed

lemma inv_query_complete:
  assumes "bridge_inv b"
  shows "bridge_inv (query_complete att b)"
proof -
  have emit_d: "bridge_inv (emit (O_disconnect h) b)" for h
    by (rule inv_emit [OF assms]) (simp_all add: uses_gatt_def)
  have same: "b\<lparr>app_state := app_state b\<rparr> = b" by simp
  show ?thesis
  proof (cases "att \<noteq> 0")
    case True
    then show ?thesis by (simp add: query_complete_def emit_d)
  next
    case False
    consider (disc) "app_state b = ST_CHAR_DISCOVERING" | (pair) "app_state b = ST_PAIRING"
      | (notify) "app_state b = ST_NOTIFYING"
      | (other) "app_state b \<notin> {ST_CHAR_DISCOVERING, ST_PAIRING, ST_NOTIFYING}" by auto
    then show ?thesis
    proof cases
      case disc
      then have g: "app_state b \<in> set gatt_states" by (simp add: gatt_states_def)
      have d: "bridge_inv (emit (O_discover c lo hi u) b)" for c lo hi u
        by (rule inv_discover [OF assms g]) (use disc in \<open>auto intro: bridge.equality\<close>)
      have w: "bridge_inv (write_pair_step (b\<lparr>app_state := ST_PAIRING, pair_step := 0\<rparr>))"
        by (rule inv_pair_write [OF assms g]) simp_all
      show ?thesis using False disc d w
        by (simp add: query_complete_def discover_input_def discover_command_def)
    next
      case pair
      then have g: "app_state b \<in> set gatt_states" by (simp add: gatt_states_def)
      have s: "0 \<le> pair_step b" "pair_step b < 4"
        "suffix (take (nat (pair_step b) + 1) pair_sequence) (written b)"
        using assms pair by (auto simp: bridge_inv_def)
      have n: "nat (pair_step b + 1) = nat (pair_step b) + 1" using s(1) by simp
      have eq: "b\<lparr>pair_step := pair_step b + 1\<rparr> = b\<lparr>app_state := ST_PAIRING, pair_step := pair_step b + 1\<rparr>"
        using pair by (auto intro: bridge.equality)
      have w: "bridge_inv (write_pair_step (b\<lparr>pair_step := pair_step b + 1\<rparr>))" if "pair_step b < 3"
        unfolding eq by (rule inv_pair_write [OF assms g]) (use s n that in simp_all)
      have "bridge_inv (emit (O_enable_notify h ic) (b\<lparr>pair_step := k, app_state := ST_NOTIFYING\<rparr>))"
        if "\<not> pair_step b < 3" for h ic k
      proof -
        have "nat (pair_step b) + 1 = 4" using that s by linarith
        with s(3) have "suffix pair_sequence (written b)" by simp
        with assms g show ?thesis by (auto simp: bridge_inv_def written_def gatt_states_def uses_gatt_def)
      qed
      then show ?thesis using w False pair by (simp add: query_complete_def Let_def)
    next
      case notify
      with assms False show ?thesis
        by (auto simp: query_complete_def bridge_inv_def written_def gatt_states_def uses_gatt_def)
    next
      case other
      with assms False show ?thesis by (auto simp: query_complete_def)
    qed
  qed
qed

lemma inv_gatt: "bridge_inv b \<Longrightarrow> bridge_inv (gatt_client_handler ev b)"
  by (auto simp: gatt_client_handler_def uses_gatt_def split: event.split
      intro: inv_query_complete inv_emit inv_upd)

lemma inv_start_discovery:
  assumes "bridge_inv b" "app_state b = ST_WAIT_ENCRYPTION"
  shows "bridge_inv (start_discovery b)"
  by (rule inv_discover [OF assms(1)])
    (use assms(2) in \<open>auto simp: start_discovery_def discover_input_def gatt_states_def\<close>)

lemma inv_sm: "bridge_inv b \<Longrightarrow> bridge_inv (sm_packet_handler ev b)"
  by (auto simp: sm_packet_handler_def split: event.split intro: inv_start_discovery)
    (auto simp: inv_eval)

lemma inv_packet: "bridge_inv b \<Longrightarrow> bridge_inv (packet_handler ev b)"
  unfolding packet_handler_def
  by (auto split: event.split intro!: inv_start_discovery inv_gatt simp: Let_def)
    (auto simp: inv_eval)

lemma reachable_inv: "reachable b \<Longrightarrow> bridge_inv b"
  by (induction rule: reachable.induct)
    (auto simp: inv_initial elim!: bridge_stepE intro: inv_packet inv_sm inv_gatt)

lemma reachable_handlers:
  "reachable b \<Longrightarrow> reachable (packet_handler ev b)"
  "reachable b \<Longrightarrow> reachable (sm_packet_handler ev b)"
  "reachable b \<Longrightarrow> reachable (gatt_client_handler ev b)"
  by (auto intro: reachable.step bridge_step.intros)

text \<open>
  C5. Whatever events arrive in whatever order, notifications are asked for, and the bridge
  is ready, only after the four pair commands were written last, in the order SetMAC, Key1,
  Key2, Finish; and nothing but these commands is ever written.
\<close>

theorem ready_after_pair_sequence:
  assumes "reachable b" and "app_state b = ST_NOTIFYING \<or> app_state b = ST_READY"
  shows "suffix pair_sequence (written b) \<and> set (written b) \<subseteq> set pair_sequence"
  using reachable_inv [OF assms(1)] assms(2) by (auto simp: bridge_inv_def)

text \<open>A complete run, from the connection to the last answer.\<close>

definition demo_char :: "u16 \<Rightarrow> characteristic" where
  "demo_char h = \<lparr>value_handle = h, end_handle = h, properties = 0x10\<rparr>"

definition demo_bridge :: bridge where
  "demo_bridge = fold gatt_client_handler
     ([EV_CHARACTERISTIC (demo_char 0x0e), EV_QUERY_COMPLETE 0, EV_CHARACTERISTIC (demo_char 0x14)] @
      replicate 6 (EV_QUERY_COMPLETE 0))
     (packet_handler (EV_ENCRYPTION_CHANGE 0) (sm_packet_handler (EV_SM_JUST_WORKS 0x40)
       (packet_handler (EV_LE_CONNECTION 0x40 0) initial)))"

lemma reachable_fold: "reachable b \<Longrightarrow> reachable (fold gatt_client_handler evs b)"
  by (induction evs arbitrary: b) (auto intro: reachable_handlers)

lemma demo_bridge_reachable: "reachable demo_bridge"
  unfolding demo_bridge_def by (intro reachable_fold reachable_handlers reachable.start)

lemma demo_bridge_ready: "app_state demo_bridge = ST_READY"
  by code_simp

theorem ready_after_pair_sequence_witness:
  "suffix pair_sequence (written demo_bridge) \<and> set (written demo_bridge) \<subseteq> set pair_sequence"
  by (rule ready_after_pair_sequence [OF demo_bridge_reachable]) (simp add: demo_bridge_ready)

text \<open>
  C31. The bridge never uses GATT without the security manager: before the first discovery
  or write a Just Works pairing was confirmed, though the file announces that it does
  without SMP.
\<close>

theorem gatt_only_after_smp:
  assumes "reachable b" and "list_ex uses_gatt (outs b)"
  shows "list_ex is_confirm (outs b)"
  using reachable_inv [OF assms(1)] assms(2) by (simp add: bridge_inv_def)

theorem gatt_only_after_smp_witness: "list_ex is_confirm (outs demo_bridge)"
proof (rule gatt_only_after_smp [OF demo_bridge_reachable])
  have "suffix pair_sequence (written demo_bridge)"
    using reachable_inv [OF demo_bridge_reachable] demo_bridge_ready by (simp add: bridge_inv_def)
  then have "written demo_bridge \<noteq> []" by (auto simp: pair_sequence_def)
  then obtain x where "x \<in> set (outs demo_bridge)" "written_by x \<noteq> []" by (auto simp: written_def)
  from this(2) have "uses_gatt x" by (cases x) (auto simp: uses_gatt_def)
  with \<open>x \<in> set (outs demo_bridge)\<close> show "list_ex uses_gatt (outs demo_bridge)"
    unfolding list_ex_iff by blast
qed

end
