(* ===== verification/Protocol.thy ===== *)
theory Protocol
  imports Bridge Bt_Protocol
begin

text \<open>
  The payload builder of \<^verbatim>\<open>src/switch2_protocol.c\<close> and its constants. A NULL pointer is
  \<open>None\<close>; a call gives the return code, the bytes put into the output buffer and the
  length it reports, or leaves them alone. The bridge has its own copy of the builder and of
  the pairing constants; both are shown to agree.
\<close>

section \<open>Constants\<close>

abbreviation (input) SWITCH2_PAIR_CMD :: byte where "SWITCH2_PAIR_CMD \<equiv> 0x15"
abbreviation (input) SWITCH2_PAIR_SUB_SET_MAC :: byte where "SWITCH2_PAIR_SUB_SET_MAC \<equiv> 0x01"
abbreviation (input) SWITCH2_PAIR_SUB_KEY_1 :: byte where "SWITCH2_PAIR_SUB_KEY_1 \<equiv> 0x04"
abbreviation (input) SWITCH2_PAIR_SUB_KEY_2 :: byte where "SWITCH2_PAIR_SUB_KEY_2 \<equiv> 0x02"
abbreviation (input) SWITCH2_PAIR_SUB_FINISH :: byte where "SWITCH2_PAIR_SUB_FINISH \<equiv> 0x03"

definition SWITCH2_PAIR_KEY_1 :: bytes where
  "SWITCH2_PAIR_KEY_1 =
    [0x00, 0xea, 0xbd, 0x47, 0x13, 0x89, 0x35, 0x42,
     0xc6, 0x79, 0xee, 0x07, 0xf2, 0x53, 0x2c, 0x6c,
     0x31]"

definition SWITCH2_PAIR_KEY_2 :: bytes where
  "SWITCH2_PAIR_KEY_2 =
    [0x00, 0x40, 0xb0, 0x8a, 0x5f, 0xcd, 0x1f, 0x9b,
     0x41, 0x12, 0x5c, 0xac, 0xc6, 0x3f, 0x38, 0xa0,
     0x73]"

section \<open>The builder\<close>

text \<open>The output buffer \<open>out\<close> is given with its contents; \<open>None\<close> is NULL, as for the data.\<close>

definition switch2_build_command ::
  "byte \<Rightarrow> byte \<Rightarrow> bytes option \<Rightarrow> byte \<Rightarrow> bytes option \<Rightarrow> bool \<Rightarrow> int \<times> bytes option \<times> byte option" where
  "switch2_build_command cmd_id sub_id data data_len out len_ptr = (case out of
      None \<Rightarrow> (-1, None, None)
    | Some buf \<Rightarrow>
        if \<not> len_ptr then (-1, out, None)
        else if 0 < data_len \<and> data = None then (-1, out, None)
        else (let hdr = [cmd_id, 0x91, 0x01, sub_id, 0x00, data_len, 0x00, 0x00];
                  buf1 = overwrite buf hdr;
                  buf2 = (case data of
                     Some d \<Rightarrow> (if 0 < data_len then take 8 buf1 @ overwrite (drop 8 buf1) (take (unat data_len) d)
                                else buf1)
                   | None \<Rightarrow> buf1)
              in (0, Some buf2, Some (8 + data_len))))"

definition switch2_build_pair_setmac ::
  "bytes option \<Rightarrow> bytes option \<Rightarrow> bool \<Rightarrow> int \<times> bytes option \<times> byte option" where
  "switch2_build_pair_setmac host_mac out len_ptr = (case (host_mac, out) of
      (Some mac, Some buf) \<Rightarrow>
        if \<not> len_ptr then (-1, out, None)
        else (0, Some (overwrite buf ([0x00, 0x02] @ take 6 mac @ take 6 mac)), Some 14)
    | _ \<Rightarrow> (-1, out, None))"

definition switch2_validate_pair_keys :: int where
  "switch2_validate_pair_keys =
     (let expected_key1 = [0x00, 0xea, 0xbd, 0x47, 0x13, 0x89, 0x35, 0x42,
                           0xc6, 0x79, 0xee, 0x07, 0xf2, 0x53, 0x2c, 0x6c, 0x31];
          expected_key2 = [0x00, 0x40, 0xb0, 0x8a, 0x5f, 0xcd, 0x1f, 0x9b,
                           0x41, 0x12, 0x5c, 0xac, 0xc6, 0x3f, 0x38, 0xa0, 0x73]
      in if take 17 SWITCH2_PAIR_KEY_1 \<noteq> expected_key1 then -1
         else if take 17 SWITCH2_PAIR_KEY_2 \<noteq> expected_key2 then -1 else 0)"

section \<open>What it builds\<close>

lemma build_command_ok:
  assumes "unat n \<le> length d" and "8 + unat n \<le> length buf"
  shows "switch2_build_command c s (Some d) n (Some buf) True =
    (0, Some (build_cmd c s d n @ drop (8 + unat n) buf), Some (8 + n))"
proof -
  define hdr where "hdr = [c, 0x91, 0x01, s, 0x00, n, 0x00, 0x00]"
  have h: "length hdr = 8" by (simp add: hdr_def)
  have o: "overwrite buf hdr = hdr @ drop 8 buf" by (simp add: overwrite_def h)
  have "length (take (unat n) d) = unat n" using assms(1) by simp
  then have o': "overwrite (drop 8 buf) (take (unat n) d) = take (unat n) d @ drop (8 + unat n) buf"
    by (simp add: overwrite_def add.commute)
  show ?thesis
    unfolding switch2_build_command_def Let_def build_cmd_def hdr_def [symmetric]
    using h o' by (cases "n = 0") (simp_all add: o word_gt_0)
qed

text \<open>
  C29. The builder of the library and the one of the bridge agree: for data of the given
  length and a buffer that holds it, the buffer starts with the command the bridge sends,
  the rest of it is untouched, and the reported length is that of the command as long as it
  fits in its eight bits; from 248 data bytes on the reported length has wrapped round.
\<close>

theorem build_command_agrees:
  assumes "unat n \<le> length d" and "8 + unat n \<le> length buf"
  shows "\<exists>buf' len. switch2_build_command c s (Some d) n (Some buf) True = (0, Some buf', Some len) \<and>
     length buf' = length buf \<and> take (8 + unat n) buf' = build_cmd c s d n \<and>
     drop (8 + unat n) buf' = drop (8 + unat n) buf \<and>
     unat len = (if unat n < 248 then length (build_cmd c s d n) else length (build_cmd c s d n) - 256)"
proof -
  have l: "length (build_cmd c s d n) = 8 + unat n" using assms(1) by (simp add: build_cmd_def)
  have "unat (8 + n) = (8 + unat n) mod 256" by (simp add: unat_word_ariths)
  also have "\<dots> = (if unat n < 248 then 8 + unat n else 8 + unat n - 256)"
    using unat_byte_less [of n] by (auto simp: le_mod_geq intro!: mod_less less_imp_diff_less)
  finally have n: "unat (8 + n) = (if unat n < 248 then length (build_cmd c s d n) else length (build_cmd c s d n) - 256)"
    unfolding l .
  define buf' where "buf' = build_cmd c s d n @ drop (8 + unat n) buf"
  have "length buf' = length buf" "take (8 + unat n) buf' = build_cmd c s d n"
    "drop (8 + unat n) buf' = drop (8 + unat n) buf"
    using l assms(2) by (simp_all add: buf'_def)
  with build_command_ok [OF assms, of c s] n show ?thesis unfolding buf'_def [symmetric] by blast
qed

theorem build_command_agrees_witness:
  "\<exists>buf' len. switch2_build_command 0x15 0x03 (Some (replicate 250 7)) 250 (Some (replicate 300 0)) True
     = (0, Some buf', Some len) \<and> take 258 buf' = build_cmd 0x15 0x03 (replicate 250 7) 250 \<and> unat len = 2"
proof -
  have "unat (250 :: byte) \<le> length (replicate 250 (7 :: byte))" "8 + unat (250 :: byte) \<le> length (replicate 300 (0 :: byte))"
    by simp_all
  from build_command_agrees [OF this, of "0x15" "0x03"] show ?thesis by (force simp: build_cmd_def)
qed

text \<open>
  The four commands the bridge writes are the ones the library builds from its own
  constants: the address command from \<^verbatim>\<open>switch2_build_pair_setmac\<close>, the two key commands
  from the keys \<^verbatim>\<open>switch2_validate_pair_keys\<close> accepts, and the finishing one.
\<close>

definition library_command :: "byte \<Rightarrow> bytes \<Rightarrow> bytes option" where
  "library_command sub d =
     (case switch2_build_command SWITCH2_PAIR_CMD sub (Some d) (of_nat (length d)) (Some (replicate 64 0)) True of
        (_, Some buf, Some n) \<Rightarrow> Some (take (unat n) buf) | _ \<Rightarrow> None)"

theorem pair_sequence_is_library_sequence:
  "switch2_validate_pair_keys = 0 \<and>
   (\<exists>setmac. switch2_build_pair_setmac (Some HOST_MAC) (Some (replicate 14 0)) True = (0, Some setmac, Some 14) \<and>
     map pair_payload [0, 1, 2, 3] =
       [library_command SWITCH2_PAIR_SUB_SET_MAC setmac, library_command SWITCH2_PAIR_SUB_KEY_1 SWITCH2_PAIR_KEY_1,
        library_command SWITCH2_PAIR_SUB_KEY_2 SWITCH2_PAIR_KEY_2, library_command SWITCH2_PAIR_SUB_FINISH [0x00]])"
proof -
  have v: "switch2_validate_pair_keys = 0" by code_simp
  define setmac where "setmac = [0x00, 0x02] @ HOST_MAC @ HOST_MAC"
  have m: "switch2_build_pair_setmac (Some HOST_MAC) (Some (replicate 14 0)) True = (0, Some setmac, Some 14)"
    unfolding setmac_def by code_simp
  have lib: "library_command sub d = Some (build_cmd SWITCH2_PAIR_CMD sub d (of_nat (length d)))"
    if "length d \<le> 56" for sub d
  proof -
    have n: "unat (of_nat (length d) :: byte) = length d" using that by (simp add: unat_of_nat_byte)
    moreover have "unat (8 + of_nat (length d) :: byte) = 8 + length d"
      using that n by (simp add: unat_word_ariths)
    moreover have "length (build_cmd SWITCH2_PAIR_CMD sub d (of_nat (length d))) = 8 + length d"
      using n by (simp add: build_cmd_def)
    ultimately show ?thesis
      using build_command_ok [of "of_nat (length d)" d "replicate 64 0"] that
      by (simp add: library_command_def)
  qed
  have "map pair_payload [0, 1, 2, 3] =
       [library_command SWITCH2_PAIR_SUB_SET_MAC setmac, library_command SWITCH2_PAIR_SUB_KEY_1 SWITCH2_PAIR_KEY_1,
        library_command SWITCH2_PAIR_SUB_KEY_2 SWITCH2_PAIR_KEY_2, library_command SWITCH2_PAIR_SUB_FINISH [0x00]]"
  proof -
    have k: "SWITCH2_PAIR_KEY_1 = PAIR_KEY_1" "SWITCH2_PAIR_KEY_2 = PAIR_KEY_2"
      by (simp_all add: SWITCH2_PAIR_KEY_1_def SWITCH2_PAIR_KEY_2_def PAIR_KEY_1_def PAIR_KEY_2_def)
    have l: "length setmac = 14" "length PAIR_KEY_1 = 17" "length PAIR_KEY_2 = 17" "length [0 :: byte] = 1"
      by (simp_all add: setmac_def HOST_MAC_def PAIR_KEY_1_def PAIR_KEY_2_def)
    have p: "pair_payload 0 = Some (build_cmd 0x15 0x01 setmac 14)" "pair_payload 1 = Some (build_cmd 0x15 0x04 PAIR_KEY_1 17)"
      "pair_payload 2 = Some (build_cmd 0x15 0x02 PAIR_KEY_2 17)" "pair_payload 3 = Some (build_cmd 0x15 0x03 [0x00] 1)"
      by (simp_all only: pair_payload_def setmac_def) simp_all
    have fits: "(14 :: nat) \<le> 56" "(17 :: nat) \<le> 56" "(1 :: nat) \<le> 56" by simp_all
    have q: "library_command 0x01 setmac = Some (build_cmd 0x15 0x01 setmac 14)"
      "library_command 0x04 PAIR_KEY_1 = Some (build_cmd 0x15 0x04 PAIR_KEY_1 17)"
      "library_command 0x02 PAIR_KEY_2 = Some (build_cmd 0x15 0x02 PAIR_KEY_2 17)"
      "library_command 0x03 [0x00] = Some (build_cmd 0x15 0x03 [0x00] 1)"
      unfolding lib [of setmac, unfolded l, OF fits(1)] lib [of PAIR_KEY_1, unfolded l, OF fits(2)]
        lib [of PAIR_KEY_2, unfolded l, OF fits(2)] lib [of "[0x00]", unfolded l, OF fits(3)]
      by (simp_all only: of_nat_numeral of_nat_1)
    show ?thesis by (simp only: k list.map p q)
  qed
  then show ?thesis by (intro conjI exI [of _ setmac] v m)
qed

end
