(* ===== verification/Lifecycle.thy ===== *)
theory Lifecycle
  imports "HOL-Library.Sublist"
begin

text \<open>
  The abstract specification of a controller host: the phases between looking for the
  controller and receiving its reports, and which phase may follow which. Both BTstack
  programs refine it; what the specification promises of a run is proved once, in the
  locale.
\<close>

datatype phase = Idle | Scanning | Connecting | Linked | Discovering | Subscribing | Ready

text \<open>
  A phase may be kept. A scan or a new link may begin at any time; otherwise each phase
  follows only its predecessor.
\<close>

fun allowed :: "phase \<Rightarrow> phase \<Rightarrow> bool" where
  "allowed p Idle = (p = Idle)"
| "allowed p Scanning = True"
| "allowed p Connecting = (p = Connecting \<or> p = Scanning)"
| "allowed p Linked = True"
| "allowed p Discovering = (p = Discovering \<or> p = Linked)"
| "allowed p Subscribing = (p = Subscribing \<or> p = Discovering)"
| "allowed p Ready = (p = Ready \<or> p = Subscribing)"

lemma allowed_refl [simp]: "allowed p p"
  by (cases p) simp_all

text \<open>The phases that have to lie directly before a phase, latest first.\<close>

fun history :: "phase \<Rightarrow> phase list" where
  "history Discovering = [Discovering, Linked]"
| "history Subscribing = [Subscribing, Discovering, Linked]"
| "history Ready = [Ready, Subscribing, Discovering, Linked]"
| "history p = [p]"

lemma history_step: "allowed p q \<Longrightarrow> p \<noteq> q \<Longrightarrow> prefix (history p) ps \<Longrightarrow> prefix (history q) (q # ps)"
  by (cases q; cases p) auto

text \<open>The states of a run of a step relation, latest first.\<close>

inductive run :: "('s \<Rightarrow> 's \<Rightarrow> bool) \<Rightarrow> 's \<Rightarrow> 's list \<Rightarrow> bool" for step init where
  run_init: "run step init [init]"
| run_step: "run step init (s # ss) \<Longrightarrow> step s s' \<Longrightarrow> run step init (s' # s # ss)"

inductive_cases run_nilE: "run step init []"

text \<open>The run of a list of handlers.\<close>

definition run_of :: "('s \<Rightarrow> 's) list \<Rightarrow> 's \<Rightarrow> 's list" where
  "run_of fs init = fold (\<lambda>f ss. f (hd ss) # ss) fs [init]"

lemma run_of_run:
  assumes "\<forall>f \<in> set fs. \<forall>s. step s (f s)"
  shows "run step init (run_of fs init)"
proof -
  have "run step init ss \<Longrightarrow> \<forall>f \<in> set fs. \<forall>s. step s (f s) \<Longrightarrow>
      run step init (fold (\<lambda>f ss. f (hd ss) # ss) fs ss)" for ss
  proof (induction fs arbitrary: ss)
    case (Cons f fs)
    from Cons.prems(1) obtain s ss' where ss: "ss = s # ss'" by (cases ss) (auto elim: run_nilE)
    with Cons.prems have "run step init (f s # s # ss')" by (auto intro: run_step)
    with Cons ss show ?case by simp
  qed simp
  from this [OF run_init assms] show ?thesis by (simp add: run_of_def)
qed

locale lifecycle =
  fixes step :: "'s \<Rightarrow> 's \<Rightarrow> bool" and init :: 's and phase_of :: "'s \<Rightarrow> phase"
  assumes phase_init: "phase_of init \<in> {Idle, Scanning}"
    and phase_step: "step s s' \<Longrightarrow> allowed (phase_of s) (phase_of s')"
begin

text \<open>The phases of a run, repetitions left out, end with the history of its last phase.\<close>

lemma run_history:
  "run step init ss \<Longrightarrow> ss \<noteq> [] \<and> prefix (history (phase_of (hd ss))) (remdups_adj (map phase_of ss))"
proof (induction rule: run.induct)
  case run_init
  show ?case using phase_init by auto
next
  case (run_step s ss s')
  let ?p = "phase_of s" and ?q = "phase_of s'"
  have a: "allowed ?p ?q" by (rule phase_step [OF run_step.hyps(2)])
  have IH: "prefix (history ?p) (remdups_adj (?p # map phase_of ss))" using run_step.IH by simp
  show ?case
  proof (cases "?p = ?q")
    case True
    with IH show ?thesis by simp
  next
    case False
    with history_step [OF a False IH] show ?thesis by simp
  qed
qed

lemma ready_history:
  "run step init (s # ss) \<Longrightarrow> phase_of s = Ready \<Longrightarrow>
     \<exists>before. rev (remdups_adj (map phase_of (s # ss))) = before @ [Linked, Discovering, Subscribing, Ready]"
  using run_history [of "s # ss"] by (auto simp: prefix_def)

end

end
