(* ===== verification/Bridge_Life.thy ===== *)
theory Bridge_Life
  imports Bridge Lifecycle
begin

text \<open>
  The bridge against the abstract life cycle, its way to ready with a controller that
  answers, and the copy of the bridge under \<^verbatim>\<open>btstack-upstream\<close>, which differs in what
  it does on a connection: it starts the discovery at once and never pairs.
\<close>

section \<open>Refinement of the life cycle\<close>

fun bridge_phase :: "app_state \<Rightarrow> phase" where
  "bridge_phase ST_SCANNING = Scanning"
| "bridge_phase ST_CONNECTING = Connecting"
| "bridge_phase ST_CONNECTED = Linked"
| "bridge_phase ST_WAIT_ENCRYPTION = Linked"
| "bridge_phase ST_SERVICE_DISCOVERING = Discovering"
| "bridge_phase ST_CHAR_DISCOVERING = Discovering"
| "bridge_phase ST_PAIRING = Discovering"
| "bridge_phase ST_NOTIFYING = Subscribing"
| "bridge_phase ST_READY = Ready"

lemma state_write_pair_step [simp]: "app_state (write_pair_step b) = app_state b"
  by (simp add: write_pair_step_def split: option.split)

lemma phase_query_complete:
  "allowed (bridge_phase (app_state b)) (bridge_phase (app_state (query_complete att b)))"
  by (cases "app_state b")
    (auto simp: query_complete_def discover_input_def discover_command_def Let_def)

lemma phase_gatt: "allowed (bridge_phase (app_state b)) (bridge_phase (app_state (gatt_client_handler ev b)))"
  by (cases ev) (auto simp: gatt_client_handler_def phase_query_complete)

lemma phase_sm: "allowed (bridge_phase (app_state b)) (bridge_phase (app_state (sm_packet_handler ev b)))"
  by (cases ev) (auto simp: sm_packet_handler_def start_discovery_def discover_input_def)

lemma phase_hci: "allowed (bridge_phase (app_state b)) (bridge_phase (app_state (packet_handler ev b)))"
  using phase_gatt [of b ev]
  by (cases ev) (auto simp: packet_handler_def start_discovery_def discover_input_def Let_def)

interpretation bridge_life: lifecycle bridge_step initial "\<lambda>b. bridge_phase (app_state b)"
  by unfold_locales (auto simp: initial_def phase_gatt phase_sm phase_hci elim!: bridge_stepE)

text \<open>
  C15. The bridge refines the abstract life cycle: in every run that makes it ready, the
  phases before are linked (connected or waiting for the pairing), discovering (which
  includes the pair commands) and subscribing, in this order and with nothing between.
\<close>

theorem bridge_ready_history:
  assumes "run bridge_step initial (b # bs)" and "app_state b = ST_READY"
  shows "\<exists>before. rev (remdups_adj (map (\<lambda>b. bridge_phase (app_state b)) (b # bs))) =
     before @ [Linked, Discovering, Subscribing, Ready]"
  using bridge_life.ready_history [OF assms(1)] assms(2) by simp

text \<open>A complete run, from the connection to the last answer.\<close>

definition demo_bridge_run :: "bridge list" where
  "demo_bridge_run = run_of
     ([packet_handler (EV_LE_CONNECTION 0x40 0), sm_packet_handler (EV_SM_JUST_WORKS 0x40),
       packet_handler (EV_ENCRYPTION_CHANGE 0), gatt_client_handler (EV_CHARACTERISTIC (demo_char 0x0e)),
       gatt_client_handler (EV_QUERY_COMPLETE 0), gatt_client_handler (EV_CHARACTERISTIC (demo_char 0x14))] @
      replicate 6 (gatt_client_handler (EV_QUERY_COMPLETE 0))) initial"

lemma demo_bridge_run_ok: "run bridge_step initial demo_bridge_run"
  unfolding demo_bridge_run_def by (rule run_of_run) (auto intro: bridge_step.intros)

theorem bridge_ready_history_witness:
  "\<exists>before. rev (remdups_adj (map (\<lambda>b. bridge_phase (app_state b)) demo_bridge_run)) =
     before @ [Linked, Discovering, Subscribing, Ready]"
proof -
  obtain b bs where r: "demo_bridge_run = b # bs"
    using demo_bridge_run_ok by (cases demo_bridge_run) (auto elim: run_nilE)
  have "app_state (hd demo_bridge_run) = ST_READY" by code_simp
  then have "app_state b = ST_READY" unfolding r by simp
  from bridge_ready_history [OF demo_bridge_run_ok [unfolded r] this] show ?thesis unfolding r .
qed

section \<open>The way to ready\<close>

text \<open>The events of a controller that answers every request, the characteristics found first.\<close>

definition answers :: "characteristic \<Rightarrow> characteristic \<Rightarrow> event list" where
  "answers ci cc = [EV_CHARACTERISTIC ci, EV_QUERY_COMPLETE 0, EV_CHARACTERISTIC cc] @
     replicate 6 (EV_QUERY_COMPLETE 0)"

lemma pair_payloads: "map pair_payload [0, 1, 2, 3] = map Some pair_sequence"
  by (simp add: pair_sequence_def pair_payload_def)

lemma answered_discovery:
  assumes "app_state b = ST_CHAR_DISCOVERING" "input_report_char b = no_char" "cmd_write_char b = no_char"
    and "value_handle ci \<noteq> 0" and "value_handle cc \<noteq> 0"
  shows "\<exists>b'. fold gatt_client_handler (answers ci cc) b = b' \<and> app_state b' = ST_READY \<and>
     input_report_char b' = ci \<and> cmd_write_char b' = cc \<and> conn_handle b' = conn_handle b \<and>
     outs b' = outs b @ [O_discover (conn_handle b) 0x0001 0xFFFF UUID_COMMAND_WRITE] @
       map (O_write (conn_handle b) (value_handle cc)) pair_sequence @
       [O_enable_notify (conn_handle b) ci, O_listen (conn_handle b) ci]"
proof -
  obtain w0 w1 w2 w3 where w: "pair_sequence = [w0, w1, w2, w3]" by (simp add: pair_sequence_def)
  have pw: "pair_payload 0 = Some w0" "pair_payload 1 = Some w1" "pair_payload 2 = Some w2"
    "pair_payload 3 = Some w3" using pair_payloads unfolding w by simp_all
  have z: "value_handle no_char = 0" by (simp add: no_char_def)
  define b2 where "b2 = fold gatt_client_handler [EV_CHARACTERISTIC ci, EV_QUERY_COMPLETE 0, EV_CHARACTERISTIC cc] b"
  have b2: "app_state b2 = ST_CHAR_DISCOVERING" "input_report_char b2 = ci" "cmd_write_char b2 = cc"
    "conn_handle b2 = conn_handle b" "outs b2 = outs b @ [O_discover (conn_handle b) 0x0001 0xFFFF UUID_COMMAND_WRITE]"
    using assms z by (simp_all add: b2_def gatt_client_handler_def query_complete_def discover_command_def)
  have six: "replicate 6 (EV_QUERY_COMPLETE 0) = [EV_QUERY_COMPLETE 0, EV_QUERY_COMPLETE 0, EV_QUERY_COMPLETE 0,
      EV_QUERY_COMPLETE 0, EV_QUERY_COMPLETE 0, EV_QUERY_COMPLETE 0]" by (simp add: numeral_eq_Suc)
  define b3 where "b3 = fold gatt_client_handler (replicate 6 (EV_QUERY_COMPLETE 0)) b2"
  have "app_state b3 = ST_READY" "input_report_char b3 = ci" "cmd_write_char b3 = cc" "conn_handle b3 = conn_handle b"
    "outs b3 = outs b2 @ map (O_write (conn_handle b) (value_handle cc)) pair_sequence @
       [O_enable_notify (conn_handle b) ci, O_listen (conn_handle b) ci]"
    unfolding b3_def six using b2 assms(4,5) pw
    by (simp_all add: gatt_client_handler_def query_complete_def write_pair_step_def w Let_def)
  moreover have "fold gatt_client_handler (answers ci cc) b = b3" by (simp add: answers_def b3_def b2_def)
  ultimately show ?thesis using b2(5) by simp
qed

text \<open>
  From every state in which the bridge waits for the encryption, a controller that has
  both characteristics and answers every request makes it ready: at the end the
  notifications of the input characteristic are enabled and listened to.
\<close>

theorem answered_bridge_is_ready:
  assumes "app_state b = ST_WAIT_ENCRYPTION"
    and "value_handle ci \<noteq> 0" and "value_handle cc \<noteq> 0"
  shows "\<exists>b' before. fold gatt_client_handler (answers ci cc) (packet_handler (EV_ENCRYPTION_CHANGE st) b) = b' \<and>
     app_state b' = ST_READY \<and> input_report_char b' = ci \<and> cmd_write_char b' = cc \<and>
     outs b' = before @ map (O_write (conn_handle b) (value_handle cc)) pair_sequence @
       [O_enable_notify (conn_handle b) ci, O_listen (conn_handle b) ci]"
proof -
  define b1 where "b1 = packet_handler (EV_ENCRYPTION_CHANGE st) b"
  have b1: "app_state b1 = ST_CHAR_DISCOVERING" "input_report_char b1 = no_char" "cmd_write_char b1 = no_char"
    "conn_handle b1 = conn_handle b"
    using assms(1) by (simp_all add: b1_def packet_handler_def start_discovery_def discover_input_def)
  from answered_discovery [OF b1(1-3) assms(2,3)] b1(4) show ?thesis
    unfolding b1_def by (metis append_assoc)
qed

theorem answered_bridge_is_ready_witness:
  "app_state (fold gatt_client_handler (answers (demo_char 0x0e) (demo_char 0x14))
     (packet_handler (EV_ENCRYPTION_CHANGE 0) (initial\<lparr>app_state := ST_WAIT_ENCRYPTION\<rparr>))) = ST_READY"
  using answered_bridge_is_ready [of "initial\<lparr>app_state := ST_WAIT_ENCRYPTION\<rparr>" "demo_char 0x0e" "demo_char 0x14" 0]
  by (auto simp: demo_char_def)

section \<open>A whole connection\<close>

text \<open>Security manager events go to its callback, answers and values to the GATT callback.\<close>

fun bridge_deliver :: "event \<Rightarrow> bridge \<Rightarrow> bridge" where
  "bridge_deliver (EV_SM_NUMERIC h) b = sm_packet_handler (EV_SM_NUMERIC h) b"
| "bridge_deliver (EV_SM_JUST_WORKS h) b = sm_packet_handler (EV_SM_JUST_WORKS h) b"
| "bridge_deliver (EV_SM_PAIRING_COMPLETE st) b = sm_packet_handler (EV_SM_PAIRING_COMPLETE st) b"
| "bridge_deliver (EV_CHARACTERISTIC c) b = gatt_client_handler (EV_CHARACTERISTIC c) b"
| "bridge_deliver (EV_SERVICE st en) b = gatt_client_handler (EV_SERVICE st en) b"
| "bridge_deliver (EV_QUERY_COMPLETE att) b = gatt_client_handler (EV_QUERY_COMPLETE att) b"
| "bridge_deliver (EV_VALUE h v) b = gatt_client_handler (EV_VALUE h v) b"
| "bridge_deliver ev b = packet_handler ev b"

definition bridge_run :: "event list \<Rightarrow> bridge \<Rightarrow> bridge" where
  "bridge_run = fold bridge_deliver"

lemma bridge_run_simps [simp]:
  "bridge_run [] b = b" "bridge_run (ev # evs) b = bridge_run evs (bridge_deliver ev b)"
  "bridge_run (evs @ evs') b = bridge_run evs' (bridge_run evs b)"
  by (simp_all add: bridge_run_def)

fun other_advertiser :: "event \<Rightarrow> bool" where
  "other_advertiser (EV_ADVERTISING ad addr ty) \<longleftrightarrow> \<not> adv_is_nintendo ad"
| "other_advertiser ev \<longleftrightarrow> False"

lemma run_other_advertisers: "list_all other_advertiser ads \<Longrightarrow> bridge_run ads b = b"
proof (induction ads arbitrary: b)
  case (Cons ev ads)
  then have "bridge_deliver ev b = b" by (cases ev) (auto simp: packet_handler_def)
  with Cons show ?case by simp
qed simp

lemma run_values:
  "bridge_run (map (\<lambda>(h, v). EV_VALUE h v) vs) b = b\<lparr>outs := outs b @
     map (\<lambda>(h, v). O_report v) (filter (\<lambda>(h, v). h = value_handle (input_report_char b)) vs)\<rparr>"
  by (induction vs arbitrary: b) (auto simp: gatt_client_handler_def)

lemma run_answers: "bridge_run (answers ci cc) b = fold gatt_client_handler (answers ci cc) b"
  by (simp add: answers_def bridge_run_def numeral_eq_Suc)



section \<open>The copy under \<open>btstack-upstream\<close>\<close>

definition upstream_packet_handler :: "event \<Rightarrow> bridge \<Rightarrow> bridge" where
  "upstream_packet_handler ev b = (case ev of
      EV_STATE working \<Rightarrow>
        (if \<not> working then b
         else emit O_start_scan (emit (O_scan_params [0, 48, 48])
                (emit (O_conn_params [48, 24, 6, 8, 0, 50, 0, 0]) (b\<lparr>app_state := ST_SCANNING\<rparr>))))
    | EV_ADVERTISING ad addr ty \<Rightarrow>
        (if app_state b \<noteq> ST_SCANNING \<or> \<not> adv_is_nintendo ad then b
         else emit (O_connect addr ty)
                ((emit O_stop_scan (b\<lparr>remote_addr := addr, remote_addr_type := ty\<rparr>))
                   \<lparr>app_state := ST_CONNECTING\<rparr>))
    | EV_LE_CONNECTION h st \<Rightarrow>
        (let b1 = b\<lparr>conn_handle := h\<rparr>
         in if st \<noteq> 0 then emit O_start_scan (b1\<lparr>app_state := ST_SCANNING\<rparr>)
            else emit (O_discover (conn_handle b1) 0x0001 0xFFFF UUID_INPUT_REPORT)
                   (b1\<lparr>app_state := ST_CHAR_DISCOVERING, service_index := 0, services := [],
                       cmd_write_char := no_char, input_report_char := no_char\<rparr>))
    | EV_META_OTHER \<Rightarrow> b
    | EV_ENCRYPTION_CHANGE st \<Rightarrow>
        (if app_state b = ST_WAIT_ENCRYPTION then start_discovery b else b)
    | EV_DISCONNECTED \<Rightarrow>
        emit O_start_scan (emit (O_scan_params [0, 48, 48])
          ((emit (O_sleep 1) (b\<lparr>conn_handle := HCI_CON_HANDLE_INVALID, cmd_write_char := no_char,
              input_report_char := no_char, services := []\<rparr>))\<lparr>app_state := ST_SCANNING\<rparr>))
    | _ \<Rightarrow> gatt_client_handler ev b)"

definition asks_pairing :: "out \<Rightarrow> bool" where
  "asks_pairing x = (case x of O_request_pairing h \<Rightarrow> True | _ \<Rightarrow> False)"

lemma query_complete_no_pairing:
  "list_ex asks_pairing (outs (query_complete att b)) = list_ex asks_pairing (outs b)"
  by (auto simp: query_complete_def discover_input_def discover_command_def write_pair_step_def
      asks_pairing_def Let_def split: option.split)

lemma upstream_no_pairing:
  "list_ex asks_pairing (outs (upstream_packet_handler ev b)) = list_ex asks_pairing (outs b)"
  "list_ex asks_pairing (outs (gatt_client_handler ev b)) = list_ex asks_pairing (outs b)"
  "list_ex asks_pairing (outs (sm_packet_handler ev b)) = list_ex asks_pairing (outs b)"
proof -
  show gatt: "list_ex asks_pairing (outs (gatt_client_handler ev b)) = list_ex asks_pairing (outs b)"
    by (cases ev) (auto simp: gatt_client_handler_def query_complete_no_pairing asks_pairing_def)
  show "list_ex asks_pairing (outs (upstream_packet_handler ev b)) = list_ex asks_pairing (outs b)"
    using gatt by (cases ev)
      (auto simp: upstream_packet_handler_def start_discovery_def discover_input_def asks_pairing_def Let_def)
  show "list_ex asks_pairing (outs (sm_packet_handler ev b)) = list_ex asks_pairing (outs b)"
    by (cases ev) (auto simp: sm_packet_handler_def start_discovery_def discover_input_def asks_pairing_def)
qed

text \<open>One step of the copy: an event to one of its three callbacks.\<close>

inductive upstream_step :: "bridge \<Rightarrow> bridge \<Rightarrow> bool" where
  up_hci: "upstream_step b (upstream_packet_handler ev b)"
| up_sm: "upstream_step b (sm_packet_handler ev b)"
| up_gatt: "upstream_step b (gatt_client_handler ev b)"

inductive_cases upstream_stepE: "upstream_step b b'"

text \<open>
  C32. The copy never asks for a pairing, in no run and whatever happens, and a connection
  makes it discover at once; the bridge itself asks for a pairing on every connection. On all
  other events of the main handler the two agree.
\<close>

theorem upstream_never_pairs:
  assumes "run upstream_step initial (b # bs)"
  shows "\<not> list_ex asks_pairing (outs b) \<and>
     list_ex uses_gatt (outs (upstream_packet_handler (EV_LE_CONNECTION h 0) b)) \<and>
     list_ex asks_pairing (outs (packet_handler (EV_LE_CONNECTION h 0) b)) \<and>
     (upstream_packet_handler ev b = packet_handler ev b \<or> (\<exists>h'. ev = EV_LE_CONNECTION h' 0))"
proof -
  have "run upstream_step initial bs' \<Longrightarrow> bs' \<noteq> [] \<and> \<not> list_ex asks_pairing (outs (hd bs'))" for bs'
    by (induction rule: run.induct) (auto simp: initial_def upstream_no_pairing elim!: upstream_stepE)
  from this [OF assms] have "\<not> list_ex asks_pairing (outs b)" by simp
  moreover have "upstream_packet_handler ev b = packet_handler ev b \<or> (\<exists>h'. ev = EV_LE_CONNECTION h' 0)"
    by (cases ev) (auto simp: upstream_packet_handler_def packet_handler_def Let_def)
  ultimately show ?thesis
    by (simp add: upstream_packet_handler_def packet_handler_def uses_gatt_def asks_pairing_def Let_def)
qed

theorem upstream_never_pairs_witness:
  "\<not> list_ex asks_pairing (outs (upstream_packet_handler (EV_LE_CONNECTION 0x40 0) initial)) \<and>
   list_ex uses_gatt (outs (upstream_packet_handler (EV_LE_CONNECTION 0x40 0) initial))"
proof -
  have "run upstream_step initial [upstream_packet_handler (EV_LE_CONNECTION 0x40 0) initial, initial]"
    by (intro run.intros up_hci)
  from upstream_never_pairs [OF this, of 0 EV_OTHER] upstream_never_pairs [OF run_init, of "0x40" EV_OTHER]
  show ?thesis by blast
qed

end
