(* ===== verification/Btstack_Host.thy ===== *)
theory Btstack_Host
  imports Le_Bytes Lifecycle
begin

text \<open>
  The BTstack HID host \<^verbatim>\<open>sw2d_btstack.c\<close> and its earlier version in
  \<^verbatim>\<open>btstack_build\<close>. As for the bridge, an event is what BTstack delivers to a callback
  with the fields the code reads, and what the program asks BTstack for is the list
  \<open>h_outs\<close>. The elements of the advertising data are those BTstack's iterator gives.
\<close>

section \<open>State\<close>

datatype host_state =
    W4_WORKING | W4_SCAN_RESULT | W4_CONNECT | W4_SERVICE_RESULT | W4_CHARACTERISTIC_RESULT
  | W4_ENABLE_NOTIFICATIONS_COMPLETE | READY

type_synonym service = "u16 \<times> u16"
type_synonym report_char = "u16 \<times> u16"

text \<open>The numbers printed for a report: buttons, four axes, two triggers.\<close>

record switch_report =
  r_buttons :: u32
  r_axes :: "u16 list"
  r_triggers :: "byte list"

datatype host_out =
    H_scan_params "nat list"
  | H_start_scan
  | H_stop_scan
  | H_connect bytes byte
  | H_discover_services u16 u16 \<comment> \<open>connection, UUID\<close>
  | H_discover_chars u16 service u16
  | H_listen u16 report_char
  | H_enable u16 report_char
  | H_report switch_report

record hid_host =
  h_state :: host_state
  h_addr :: bytes
  h_addr_type :: byte
  h_con :: u16
  h_service :: service
  h_char :: report_char
  h_outs :: "host_out list"

definition initial_host :: hid_host where
  "initial_host = \<lparr>h_state = W4_WORKING, h_addr = replicate 6 0, h_addr_type = 0, h_con = 0,
     h_service = (0, 0), h_char = (0, 0), h_outs = []\<rparr>"

abbreviation host_emit :: "host_out \<Rightarrow> hid_host \<Rightarrow> hid_host" where
  "host_emit x h \<equiv> h\<lparr>h_outs := h_outs h @ [x]\<rparr>"

datatype host_event =
    HE_state bool
  | HE_advertising byte bytes byte "(byte \<times> bytes) list" \<comment> \<open>event type, address, its type, elements\<close>
  | HE_connection byte u16 \<comment> \<open>status, handle\<close>
  | HE_disconnected
  | HE_service service
  | HE_char report_char
  | HE_query_complete
  | HE_notification bytes
  | HE_other

section \<open>Reports\<close>

definition le32 :: "bytes \<Rightarrow> nat \<Rightarrow> u32" where
  "le32 b p = ucast (b ! p) OR push_bit 8 (ucast (b ! (p + 1))) OR
     push_bit 16 (ucast (b ! (p + 2))) OR push_bit 24 (ucast (b ! (p + 3)))"

definition axis_low :: "byte \<Rightarrow> byte \<Rightarrow> u16" where
  "axis_low a m = ucast a OR push_bit 8 (ucast (m AND 0x0F))"

definition axis_high :: "byte \<Rightarrow> byte \<Rightarrow> u16" where
  "axis_high m b = ucast (drop_bit 4 m) OR push_bit 4 (ucast b)"

definition parse_switch_report :: "bytes \<Rightarrow> switch_report option" where
  "parse_switch_report data =
     (if length data < 63 then None
      else Some \<lparr>r_buttons = le32 data 4,
        r_axes = map (drop_bit 4) [axis_low (data ! 10) (data ! 11), axis_high (data ! 11) (data ! 12),
                                   axis_low (data ! 13) (data ! 14), axis_high (data ! 14) (data ! 15)],
        r_triggers = [data ! 60, data ! 61]\<rparr>)"

section \<open>The handlers\<close>

definition start_scan :: "hid_host \<Rightarrow> hid_host" where
  "start_scan h = host_emit H_start_scan (host_emit (H_scan_params [0, 0x30, 0x30])
     (h\<lparr>h_state := W4_SCAN_RESULT\<rparr>))"

definition gatt_query_complete :: "hid_host \<Rightarrow> hid_host" where
  "gatt_query_complete h =
     (if h_state h = W4_SERVICE_RESULT then
        host_emit (H_discover_chars (h_con h) (h_service h) 0x2A4D)
          (h\<lparr>h_state := W4_CHARACTERISTIC_RESULT\<rparr>)
      else if h_state h = W4_CHARACTERISTIC_RESULT then
        host_emit (H_enable (h_con h) (h_char h)) (host_emit (H_listen (h_con h) (h_char h))
          (h\<lparr>h_state := W4_ENABLE_NOTIFICATIONS_COMPLETE\<rparr>))
      else if h_state h = W4_ENABLE_NOTIFICATIONS_COMPLETE then h\<lparr>h_state := READY\<rparr>
      else h)"

definition handle_gatt_client_event :: "host_event \<Rightarrow> hid_host \<Rightarrow> hid_host" where
  "handle_gatt_client_event ev h = (case ev of
      HE_service s \<Rightarrow> h\<lparr>h_service := s\<rparr>
    | HE_char c \<Rightarrow> h\<lparr>h_char := c\<rparr>
    | HE_query_complete \<Rightarrow> gatt_query_complete h
    | HE_notification v \<Rightarrow> (case parse_switch_report v of Some r \<Rightarrow> host_emit (H_report r) h | None \<Rightarrow> h)
    | _ \<Rightarrow> h)"

definition is_switch_pro2 :: "byte \<times> bytes \<Rightarrow> bool" where
  "is_switch_pro2 el = (case el of (ty, d) \<Rightarrow>
     ty = 0xFF \<and> 6 \<le> length d \<and> get_le16 d 0 = 0x0553 \<and> get_le16 d 2 = 0x057E \<and> get_le16 d 4 = 0x2069)"

definition connect_to :: "bytes \<Rightarrow> byte \<Rightarrow> hid_host \<Rightarrow> hid_host" where
  "connect_to a at h = host_emit (H_connect a at) (host_emit H_stop_scan
     (h\<lparr>h_addr := a, h_addr_type := at, h_state := W4_CONNECT\<rparr>))"

fun adv_iterate :: "(byte \<times> bytes) list \<Rightarrow> bytes \<Rightarrow> byte \<Rightarrow> hid_host \<Rightarrow> hid_host" where
  "adv_iterate [] a at h = h"
| "adv_iterate (el # els) a at h = (if is_switch_pro2 el then connect_to a at h else adv_iterate els a at h)"

definition host_packet_handler :: "host_event \<Rightarrow> hid_host \<Rightarrow> hid_host" where
  "host_packet_handler ev h = (case ev of
      HE_state working \<Rightarrow> (if working then start_scan h else h)
    | HE_advertising et a at els \<Rightarrow>
        (if h_state h \<noteq> W4_SCAN_RESULT then h else if et \<noteq> 0 then h else adv_iterate els a at h)
    | HE_connection st con \<Rightarrow>
        (if st \<noteq> 0 then start_scan h
         else host_emit (H_discover_services con 0x1812) (h\<lparr>h_con := con, h_state := W4_SERVICE_RESULT\<rparr>))
    | HE_disconnected \<Rightarrow> start_scan h
    | _ \<Rightarrow> h)"

section \<open>The earlier version\<close>

text \<open>It takes reports of exactly 63 bytes and narrows the axes to eight bits itself.\<close>

definition build_parse_switch_report :: "bytes \<Rightarrow> switch_report option" where
  "build_parse_switch_report data =
     (if length data \<noteq> 63 then None
      else (let raw_lx = axis_low (data ! 10) (data ! 11); raw_ly = axis_high (data ! 11) (data ! 12);
                raw_rx = axis_low (data ! 13) (data ! 14); raw_ry = axis_high (data ! 14) (data ! 15);
                lx = ucast (drop_bit 4 raw_lx) :: byte; ly = ucast (drop_bit 4 raw_ly) :: byte;
                rx = ucast (drop_bit 4 raw_rx) :: byte; ry = ucast (drop_bit 4 raw_ry) :: byte
            in Some \<lparr>r_buttons = le32 data 4, r_axes = map ucast [lx, ly, rx, ry],
                 r_triggers = [data ! 60, data ! 61]\<rparr>))"

definition build_handle_gatt_client_event :: "host_event \<Rightarrow> hid_host \<Rightarrow> hid_host" where
  "build_handle_gatt_client_event ev h = (case ev of
      HE_service s \<Rightarrow> h\<lparr>h_service := s\<rparr>
    | HE_char c \<Rightarrow> h\<lparr>h_char := c\<rparr>
    | HE_query_complete \<Rightarrow> (case h_state h of
         W4_SERVICE_RESULT \<Rightarrow> host_emit (H_discover_chars (h_con h) (h_service h) 0x2A4D)
             (h\<lparr>h_state := W4_CHARACTERISTIC_RESULT\<rparr>)
       | W4_CHARACTERISTIC_RESULT \<Rightarrow> host_emit (H_enable (h_con h) (h_char h))
             (host_emit (H_listen (h_con h) (h_char h)) (h\<lparr>h_state := W4_ENABLE_NOTIFICATIONS_COMPLETE\<rparr>))
       | W4_ENABLE_NOTIFICATIONS_COMPLETE \<Rightarrow> h\<lparr>h_state := READY\<rparr>
       | _ \<Rightarrow> h)
    | HE_notification v \<Rightarrow>
        (case build_parse_switch_report v of Some r \<Rightarrow> host_emit (H_report r) h | None \<Rightarrow> h)
    | _ \<Rightarrow> h)"

text \<open>Its loop over the elements tests the company first, then the identifiers.\<close>

fun build_adv_iterate :: "(byte \<times> bytes) list \<Rightarrow> bytes \<Rightarrow> byte \<Rightarrow> hid_host \<Rightarrow> hid_host" where
  "build_adv_iterate [] a at h = h"
| "build_adv_iterate ((data_type, d) # els) a at h =
     (if data_type = 0xFF \<and> 4 \<le> length d then
        (let company_id = get_le16 d 0
         in if company_id = 0x0553 then
              (let vid = get_le16 d 2
               in if 6 \<le> length d then
                    (let pid = get_le16 d 4
                     in if vid = 0x057E \<and> pid = 0x2069 then connect_to a at h
                        else build_adv_iterate els a at h)
                  else build_adv_iterate els a at h)
            else build_adv_iterate els a at h)
      else build_adv_iterate els a at h)"

definition build_host_packet_handler :: "host_event \<Rightarrow> hid_host \<Rightarrow> hid_host" where
  "build_host_packet_handler ev h = (case ev of
      HE_state working \<Rightarrow> (if working then start_scan h else h)
    | HE_advertising et a at els \<Rightarrow>
        (if h_state h \<noteq> W4_SCAN_RESULT then h else if et \<noteq> 0 then h else build_adv_iterate els a at h)
    | HE_connection st con \<Rightarrow>
        (if st \<noteq> 0 then start_scan h
         else host_emit (H_discover_services con 0x1812) (h\<lparr>h_con := con, h_state := W4_SERVICE_RESULT\<rparr>))
    | HE_disconnected \<Rightarrow> start_scan h
    | _ \<Rightarrow> h)"

section \<open>The two versions agree\<close>

lemma axis_narrow: "(ucast (ucast (drop_bit 4 (axis_low a m)) :: byte) :: u16) = drop_bit 4 (axis_low a m)"
    "(ucast (ucast (drop_bit 4 (axis_high m b)) :: byte) :: u16) = drop_bit 4 (axis_high m b)"
proof -
  have m: "\<not> bit (0x0F :: byte) n" if "4 \<le> n" for n
  proof -
    have "\<not> bit (mask 4 :: byte) n" using that by (simp add: bit_mask_iff)
    then show ?thesis by (simp only: mask_eq_exp_minus_1) simp
  qed
  have eq: "(ucast (ucast x :: byte) :: u16) = x" if "\<And>n. 8 \<le> n \<Longrightarrow> \<not> bit x n" for x :: u16
    by (rule bit_word_eqI) (use that not_le in \<open>auto simp: bit_simps\<close>)
  show "(ucast (ucast (drop_bit 4 (axis_low a m)) :: byte) :: u16) = drop_bit 4 (axis_low a m)"
  proof (rule eq)
    fix n :: nat
    assume "8 \<le> n"
    then show "\<not> bit (drop_bit 4 (axis_low a m)) n"
      using m [of "n - 4"] bit_imp_le_length [of a "4 + n"] by (auto simp: axis_low_def bit_simps)
  qed
  show "(ucast (ucast (drop_bit 4 (axis_high m b)) :: byte) :: u16) = drop_bit 4 (axis_high m b)"
  proof (rule eq)
    fix n :: nat
    assume "8 \<le> n"
    then show "\<not> bit (drop_bit 4 (axis_high m b)) n"
      using bit_imp_le_length [of b n] bit_imp_le_length [of m "8 + n"]
      by (auto simp: axis_high_def bit_simps)
  qed
qed

lemma build_parse_eq: "length v \<le> 63 \<Longrightarrow> build_parse_switch_report v = parse_switch_report v"
  by (auto simp: build_parse_switch_report_def parse_switch_report_def Let_def axis_narrow)

lemma build_adv_eq: "build_adv_iterate els a at h = adv_iterate els a at h"
  by (induction els a at h rule: build_adv_iterate.induct) (auto simp: is_switch_pro2_def Let_def)

text \<open>
  C28. The two versions of the host behave alike: the same reaction to every event, except
  that the earlier one ignores notifications of more than 63 bytes.
\<close>

theorem build_version_agrees:
  "build_host_packet_handler ev h = host_packet_handler ev h \<and>
   (build_handle_gatt_client_event ev h = handle_gatt_client_event ev h \<or>
    (\<exists>v. ev = HE_notification v \<and> 63 < length v \<and> build_handle_gatt_client_event ev h = h))"
proof
  show "build_host_packet_handler ev h = host_packet_handler ev h"
    by (simp add: build_host_packet_handler_def host_packet_handler_def build_adv_eq split: host_event.split)
  show "build_handle_gatt_client_event ev h = handle_gatt_client_event ev h \<or>
    (\<exists>v. ev = HE_notification v \<and> 63 < length v \<and> build_handle_gatt_client_event ev h = h)"
  proof (cases ev)
    case (HE_notification v)
    then show ?thesis
    proof (cases "63 < length v")
      case True
      with HE_notification show ?thesis
        by (simp add: build_handle_gatt_client_event_def build_parse_switch_report_def)
    next
      case False
      with HE_notification build_parse_eq [of v] show ?thesis
        by (simp add: build_handle_gatt_client_event_def handle_gatt_client_event_def)
    qed
  qed (simp_all add: build_handle_gatt_client_event_def handle_gatt_client_event_def gatt_query_complete_def
      split: host_state.split)
qed

section \<open>The machine\<close>

inductive host_step :: "hid_host \<Rightarrow> hid_host \<Rightarrow> bool" where
  host_hci: "host_step h (host_packet_handler ev h)"
| host_gatt: "host_step h (handle_gatt_client_event ev h)"

inductive_cases host_stepE: "host_step h h'"

fun host_phase :: "host_state \<Rightarrow> phase" where
  "host_phase W4_WORKING = Idle"
| "host_phase W4_SCAN_RESULT = Scanning"
| "host_phase W4_CONNECT = Connecting"
| "host_phase W4_SERVICE_RESULT = Linked"
| "host_phase W4_CHARACTERISTIC_RESULT = Discovering"
| "host_phase W4_ENABLE_NOTIFICATIONS_COMPLETE = Subscribing"
| "host_phase READY = Ready"

lemma host_phase_adv:
  "h_state h = W4_SCAN_RESULT \<Longrightarrow> h_state (adv_iterate els a at h) \<in> {W4_SCAN_RESULT, W4_CONNECT}"
  by (induction els a at h rule: adv_iterate.induct) (auto simp: connect_to_def)

lemma host_phase_step: "host_step h h' \<Longrightarrow> allowed (host_phase (h_state h)) (host_phase (h_state h'))"
proof (erule host_stepE)
  fix ev
  assume h': "h' = host_packet_handler ev h"
  show ?thesis unfolding h'
  proof (cases ev)
    case (HE_advertising et a at els)
    then show "allowed (host_phase (h_state h)) (host_phase (h_state (host_packet_handler ev h)))"
      using host_phase_adv [of h els a at] by (auto simp: host_packet_handler_def)
  qed (simp_all add: host_packet_handler_def start_scan_def)
next
  fix ev
  assume "h' = handle_gatt_client_event ev h"
  then show ?thesis
    by (cases ev; cases "h_state h")
      (auto simp: handle_gatt_client_event_def gatt_query_complete_def split: option.split)
qed

interpretation host_life: lifecycle host_step initial_host "\<lambda>h. host_phase (h_state h)"
  by unfold_locales (simp_all add: initial_host_def host_phase_step)

text \<open>
  C19. The host refines the abstract life cycle: in every run that makes it ready, whatever
  events BTstack delivers, the phases before are, in this order and with nothing between,
  linked (services being looked for), discovering, subscribing.
\<close>

theorem host_ready_history:
  assumes "run host_step initial_host (h # hs)" and "h_state h = READY"
  shows "\<exists>before. rev (remdups_adj (map (\<lambda>h. host_phase (h_state h)) (h # hs))) =
     before @ [Linked, Discovering, Subscribing, Ready]"
  using host_life.ready_history [OF assms(1)] assms(2) by simp

text \<open>A complete run: scan, advertisement, connection, two discoveries, the subscription.\<close>

definition demo_host_events :: "(hid_host \<Rightarrow> hid_host) list" where
  "demo_host_events =
     [host_packet_handler (HE_state True),
      host_packet_handler (HE_advertising 0 [1, 2, 3, 4, 5, 6] 0
        [(0x01, [6]), (0xFF, [0x53, 0x05, 0x7E, 0x05, 0x69, 0x20])]),
      host_packet_handler (HE_connection 0 0x40), handle_gatt_client_event (HE_service (1, 9)),
      handle_gatt_client_event HE_query_complete, handle_gatt_client_event (HE_char (3, 4)),
      handle_gatt_client_event HE_query_complete, handle_gatt_client_event HE_query_complete]"

definition demo_host_run :: "hid_host list" where
  "demo_host_run = run_of demo_host_events initial_host"

lemma demo_host_run_ok: "run host_step initial_host demo_host_run"
  unfolding demo_host_run_def by (rule run_of_run) (auto simp: demo_host_events_def intro: host_step.intros)

theorem host_ready_history_witness:
  "\<exists>before. rev (remdups_adj (map (\<lambda>h. host_phase (h_state h)) demo_host_run)) =
     before @ [Linked, Discovering, Subscribing, Ready]"
proof -
  obtain h hs where r: "demo_host_run = h # hs" by (cases demo_host_run) (auto simp: demo_host_run_def run_of_def demo_host_events_def)
  have "h_state (hd demo_host_run) = READY" by code_simp
  then have "h_state h = READY" unfolding r by simp
  from host_ready_history [OF demo_host_run_ok [unfolded r] this] show ?thesis unfolding r .
qed

end
