(* ===== verification/Host_Life.thy ===== *)
theory Host_Life
  imports Btstack_Host
begin

text \<open>
  The HID host over a whole connection: which requests it makes and what it prints when the
  controller is found, connected, searched and subscribed to. The theorem is about the
  definitions of \<open>Btstack_Host\<close>.
\<close>

text \<open>
  BTstack delivers the events of the GATT client to the callback registered with the query,
  all others to the handler of HCI events.
\<close>

fun host_deliver :: "host_event \<Rightarrow> hid_host \<Rightarrow> hid_host" where
  "host_deliver (HE_service s) h = handle_gatt_client_event (HE_service s) h"
| "host_deliver (HE_char c) h = handle_gatt_client_event (HE_char c) h"
| "host_deliver HE_query_complete h = handle_gatt_client_event HE_query_complete h"
| "host_deliver (HE_notification v) h = handle_gatt_client_event (HE_notification v) h"
| "host_deliver ev h = host_packet_handler ev h"

definition host_run :: "host_event list \<Rightarrow> hid_host \<Rightarrow> hid_host" where
  "host_run = fold host_deliver"

lemma host_run_simps [simp]: "host_run [] h = h" "host_run (ev # evs) h = host_run evs (host_deliver ev h)"
  by (simp_all add: host_run_def)

lemma host_run_append [simp]: "host_run (xs @ ys) h = host_run ys (host_run xs h)"
  by (simp add: host_run_def)

text \<open>An advertisement that does not lead to a connection: not connectable, or of another device.\<close>

fun passed_over :: "host_event \<Rightarrow> bool" where
  "passed_over (HE_advertising et a at els) \<longleftrightarrow> et \<noteq> 0 \<or> \<not> list_ex is_switch_pro2 els"
| "passed_over ev \<longleftrightarrow> False"

lemma adv_iterate_none: "\<not> list_ex is_switch_pro2 els \<Longrightarrow> adv_iterate els a at h = h"
  by (induction els) auto

lemma adv_iterate_found: "list_ex is_switch_pro2 els \<Longrightarrow> adv_iterate els a at h = connect_to a at h"
  by (induction els) auto

lemma run_passed_over: "list_all passed_over ads \<Longrightarrow> host_run ads h = h"
proof (induction ads arbitrary: h)
  case (Cons ev ads)
  then have "host_deliver ev h = h"
    by (cases ev) (auto simp: host_packet_handler_def adv_iterate_none)
  with Cons show ?case by simp
qed simp

text \<open>Of several results of a query the last one is kept.\<close>

lemma run_services: "host_run (map HE_service ss) h = h\<lparr>h_service := last (h_service h # ss)\<rparr>"
  by (induction ss arbitrary: h) (simp_all add: handle_gatt_client_event_def)

lemma run_chars: "host_run (map HE_char cs) h = h\<lparr>h_char := last (h_char h # cs)\<rparr>"
  by (induction cs arbitrary: h) (simp_all add: handle_gatt_client_event_def)

definition printed_reports :: "bytes list \<Rightarrow> host_out list" where
  "printed_reports vs = map (\<lambda>v. H_report (the (parse_switch_report v))) (filter (\<lambda>v. 63 \<le> length v) vs)"

lemma run_notifications:
  "host_run (map HE_notification vs) h = h\<lparr>h_outs := h_outs h @ printed_reports vs\<rparr>"
proof (induction vs arbitrary: h)
  case (Cons v vs)
  show ?case
    by (cases "63 \<le> length v")
      (simp_all add: Cons.IH handle_gatt_client_event_def printed_reports_def parse_switch_report_def)
qed (simp add: printed_reports_def)

text \<open>
  C9. A controller that answers makes the host ready: whatever state it is in when BTstack
  reports to be working, it starts one scan, passes over every advertisement that is not
  connectable or not of a Switch 2 Pro controller, stops the scan and connects to the first
  that is, and asks for the HID service, then for its report characteristics, then for
  notifications, each once, on the new connection; ready, it prints exactly the
  notifications of at least 63 bytes, in order. But it does not look at the results: of
  several services or characteristics it takes the last, and if a query ends without any, it
  goes on with the one of the connection before, and is ready all the same.
\<close>

theorem answered_host_is_ready:
  assumes "list_all passed_over ads" and "list_ex is_switch_pro2 els"
  shows "\<exists>h'. host_run ([HE_state True] @ ads @ [HE_advertising 0 a at els, HE_connection 0 con] @
       map HE_service ss @ [HE_query_complete] @ map HE_char cs @ [HE_query_complete, HE_query_complete] @
       map HE_notification vs) h = h' \<and>
     h_state h' = READY \<and> h_con h' = con \<and> h_addr h' = a \<and> h_addr_type h' = at \<and>
     h_outs h' = h_outs h @
       [H_scan_params [0, 0x30, 0x30], H_start_scan, H_stop_scan, H_connect a at,
        H_discover_services con 0x1812, H_discover_chars con (last (h_service h # ss)) 0x2A4D,
        H_listen con (last (h_char h # cs)), H_enable con (last (h_char h # cs))] @ printed_reports vs"
  using assms
  by (simp add: run_passed_over run_services run_chars run_notifications host_packet_handler_def start_scan_def
      adv_iterate_found connect_to_def handle_gatt_client_event_def gatt_query_complete_def)

text \<open>A second connection on which neither query finds anything: the old handles are used.\<close>

theorem answered_host_is_ready_witness:
  "let h = initial_host\<lparr>h_service := (1, 9), h_char := (3, 4)\<rparr>;
       h' = host_run [HE_state True, HE_advertising 3 [9, 9, 9, 9, 9, 9] 0 [],
          HE_advertising 0 [1, 2, 3, 4, 5, 6] 1 [(0x01, [6]), (0xFF, [0x53, 0x05, 0x7E, 0x05, 0x69, 0x20])],
          HE_connection 0 0x41, HE_query_complete, HE_query_complete, HE_query_complete,
          HE_notification [7], HE_notification (replicate 63 0)] h
   in h_state h' = READY \<and> H_listen 0x41 (3, 4) \<in> set (h_outs h') \<and> length (h_outs h') = 9"
proof -
  let ?ads = "[HE_advertising 3 [9, 9, 9, 9, 9, 9] 0 []]"
  let ?els = "[(0x01, [6]), (0xFF, [0x53, 0x05, 0x7E, 0x05, 0x69, 0x20])]"
  have "list_all passed_over ?ads" "list_ex is_switch_pro2 ?els"
    by (simp_all add: is_switch_pro2_def get_le16_def)
  from answered_host_is_ready [OF this, of "[1, 2, 3, 4, 5, 6]" 1 "0x41" "[]" "[]" "[[7], replicate 63 0]"
      "initial_host\<lparr>h_service := (1, 9), h_char := (3, 4)\<rparr>"]
  show ?thesis by (auto simp: Let_def printed_reports_def initial_host_def simp del: host_run_simps)
qed

end
