(* ===== verification/Two_Socket.thy ===== *)
theory Two_Socket
  imports Descriptors
begin

text \<open>
  The test program \<^verbatim>\<open>two_socket_test.c\<close>: one socket to send HCI commands, one to
  receive events, and the creation of one LE connection. It reads a whole packet with one
  \<^verbatim>\<open>read\<close>. The buffer of a round of the loop is not initialised; round \<open>i\<close> finds
  the contents \<open>junk i\<close> in it. The reading back of the filter and the local address, which
  are only printed, are left out; \<^verbatim>\<open>hci_devid\<close> and \<^verbatim>\<open>str2ba\<close> of the
  Bluetooth library are arguments.
\<close>

section \<open>The sockets\<close>

text \<open>The \<^verbatim>\<open>struct hci_filter\<close>: packet type mask, two event masks, opcode and padding.\<close>

definition all_events_filter :: bytes where
  "all_events_filter = [0x10, 0, 0, 0] @ replicate 8 0xFF @ [0, 0, 0, 0]"

definition setup_event_filter :: "int \<Rightarrow> env \<Rightarrow> int \<times> env" where
  "setup_event_filter fd e =
     (let (r, e1) = sys_status (A_setsockopt fd all_events_filter) e
      in if r < 0 then (-1, e1) else (0, e1))"

definition open_cmd_socket :: "env \<Rightarrow> int \<times> env" where
  "open_cmd_socket e =
     (let (fd, e1) = sys_fd e
      in if fd < 0 then (-1, e1)
         else (let (b, e2) = sys_status (A_bind fd 0 HCI_CHANNEL_RAW) e1
               in if b < 0 then (-1, sys_close fd e2) else (fd, e2)))"

definition open_evt_socket :: "env \<Rightarrow> int \<times> env" where
  "open_evt_socket e =
     (let (fd, e1) = sys_fd e
      in if fd < 0 then (-1, e1)
         else (let (b, e2) = sys_status (A_bind fd 0 HCI_CHANNEL_RAW) e1
               in if b < 0 then (-1, sys_close fd e2)
                  else (let (r, e3) = setup_event_filter fd e2
                        in if r < 0 then (-1, sys_close fd e3) else (fd, e3))))"

section \<open>Commands and events\<close>

definition send_cmd :: "int \<Rightarrow> u16 \<Rightarrow> u16 \<Rightarrow> bytes \<Rightarrow> byte \<Rightarrow> env \<Rightarrow> int \<times> env" where
  "send_cmd fd ogf ocf params plen e =
     (let opc = (ocf AND 0x03ff) OR push_bit 10 ogf;
          (n, e1) = sys_write fd ([HCI_COMMAND_PKT] @ put_le16 opc @ [plen] @
                                  take (unat plen) params) e
      in if n < 0 then (-1, e1) else (0, e1))"

definition read_evt :: "bytes \<Rightarrow> nat \<Rightarrow> int \<Rightarrow> env \<Rightarrow> int \<times> bytes \<times> env" where
  "read_evt buf bufsz timeout_ms e =
     (let (pr, e1) = sys_poll timeout_ms e
      in if pr < 0 then (-1, buf, e1)
         else if pr = 0 then (0, buf, e1)
         else (let (n, bs, e2) = sys_read bufsz e1;
                   buf1 = overwrite buf bs
               in if n < 0 then (-1, buf1, e2)
                  else if n < 3 then (0, buf1, e2)
                  else (n, buf1, e2)))"

text \<open>What a round of the loop makes of the event in its buffer.\<close>

datatype verdict = V_continue | V_rejected | V_connected u16 | V_refused

definition judge_event :: "u16 \<Rightarrow> bytes \<Rightarrow> verdict" where
  "judge_event opc buf =
     (let evt = buf ! 1; plen = buf ! 2; ev = drop 3 buf
      in if buf ! 0 \<noteq> HCI_EVENT_PKT then V_continue
         else if evt = EVT_CMD_STATUS \<and> 4 \<le> plen then
           (if get_le16 ev 1 = opc \<and> ev ! 0 \<noteq> 0 then V_rejected else V_continue)
         else if evt = EVT_LE_META \<and> 1 \<le> plen \<and> ev ! 0 = EVT_LE_CONN_COMPLETE \<and> 19 \<le> plen then
           (if ev ! 1 = 0 then V_connected (get_le16 ev 2) else V_refused)
         else V_continue)"

text \<open>After a refused connection: up to \<open>k\<close> more packets are read, to see a disconnection.\<close>

fun await_disconn :: "nat \<Rightarrow> bytes \<Rightarrow> env \<Rightarrow> env" where
  "await_disconn 0 buf e = e"
| "await_disconn (Suc k) buf e =
     (let (n, buf1, e1) = read_evt buf 256 100 e
      in if 0 < n \<and> buf1 ! 1 = EVT_DISCONN_COMPLETE then e1 else await_disconn k buf1 e1)"

text \<open>The rounds of the loop, \<open>k\<close> of them left, the next one with number \<open>i\<close>.\<close>

fun conn_rounds :: "(nat \<Rightarrow> bytes) \<Rightarrow> u16 \<Rightarrow> nat \<Rightarrow> nat \<Rightarrow> env \<Rightarrow> int \<times> env" where
  "conn_rounds junk opc i 0 e = (-1, e)"
| "conn_rounds junk opc i (Suc k) e =
     (let (n, buf, e1) = read_evt (junk i) 256 100 e
      in if n \<le> 0 then conn_rounds junk opc (i + 1) k e1
         else (case judge_event opc buf of
                 V_continue \<Rightarrow> conn_rounds junk opc (i + 1) k e1
               | V_rejected \<Rightarrow> (-1, e1)
               | V_connected h \<Rightarrow> (int (unat h), e1)
               | V_refused \<Rightarrow> (-1, await_disconn 20 buf e1)))"

definition create_conn_params :: "bytes \<Rightarrow> byte \<Rightarrow> byte \<Rightarrow> bytes" where
  "create_conn_params peer peer_type own_type =
     put_le16 0x0010 @ put_le16 0x0010 @ [0x00, peer_type] @ take 6 peer @ [own_type] @
     put_le16 0x0028 @ put_le16 0x0038 @ put_le16 0x0000 @ put_le16 0x07D0 @
     put_le16 0x0001 @ put_le16 0x0001"

definition two_le_create_conn ::
  "(nat \<Rightarrow> bytes) \<Rightarrow> int \<Rightarrow> int \<Rightarrow> bytes \<Rightarrow> byte \<Rightarrow> byte \<Rightarrow> env \<Rightarrow> int \<times> env" where
  "two_le_create_conn junk cmd_fd evt_fd peer peer_type own_type e =
     (let opc = (OCF_LE_CREATE_CONN AND 0x03ff) OR push_bit 10 OGF_LE_CTL;
          (r, e1) = send_cmd cmd_fd OGF_LE_CTL OCF_LE_CREATE_CONN
                      (create_conn_params peer peer_type own_type) 25 e
      in if r < 0 then (-1, e1)
         else conn_rounds junk opc 0 60 (usleep 5000 e1))"

section \<open>The program\<close>

text \<open>\<^verbatim>\<open>main\<close> with the arguments after the program's name: its exit code.\<close>

definition two_socket_main ::
  "(string \<Rightarrow> bytes option) \<Rightarrow> int \<Rightarrow> (nat \<Rightarrow> bytes) \<Rightarrow> string list \<Rightarrow> env \<Rightarrow> int \<times> env" where
  "two_socket_main to_bdaddr dev_id junk args e =
     (let bdaddr_s = (case args of [] \<Rightarrow> ''E0:EF:BF:3B:C6:76'' | a # _ \<Rightarrow> a);
          peer_type = (if 2 \<le> length args \<and> args ! 1 = ''random'' then 0x01 else 0x00)
      in case to_bdaddr bdaddr_s of
           None \<Rightarrow> (2, e)
         | Some peer \<Rightarrow>
            (if dev_id < 0 then (1, e)
             else (let (cmd_fd, e1) = open_cmd_socket e
                   in if cmd_fd < 0 then (1, e1)
                      else (let (evt_fd, e2) = open_evt_socket e1
                            in if evt_fd < 0 then (1, sys_close cmd_fd e2)
                               else (let (h, e3) = two_le_create_conn junk cmd_fd evt_fd peer peer_type 0x00 e2
                                     in (if 0 < h then 0 else 1, sys_close evt_fd (sys_close cmd_fd e3)))))))"

section \<open>Descriptors\<close>

context env_effect
begin

lemma two_read_evt_R: "read_evt buf n t e = (r, buf', e') \<Longrightarrow> 0 \<le> t \<Longrightarrow> R e e'"
  by (auto simp: read_evt_def Let_def split: prod.splits if_splits dest: R_poll R_read intro: R_trans)

lemma two_await_R: "R e (await_disconn k buf e)"
proof (induction k arbitrary: buf e)
  case (Suc k)
  obtain n b e1 where r: "read_evt buf 256 100 e = (n, b, e1)" by (metis prod_cases3)
  have "R e e1" by (rule two_read_evt_R [OF r]) simp
  with r Suc [of e1 b] show ?case by (auto intro: R_trans)
qed (simp add: R_refl)

lemma two_rounds_R: "conn_rounds junk opc i k e = (rc, e') \<Longrightarrow> R e e'"
proof (induction k arbitrary: i e)
  case (Suc k)
  obtain n b e1 where r: "read_evt (junk i) 256 100 e = (n, b, e1)" by (metis prod_cases3)
  have "R e e1" by (rule two_read_evt_R [OF r]) simp
  with Suc.prems r Suc.IH two_await_R [of e1 20 b] show ?case
    by (auto split: if_splits verdict.splits intro: R_trans)
qed (simp add: R_refl)

lemma two_create_conn_R:
  assumes "two_le_create_conn junk c v peer pt own e = (rc, e')" and "\<And>q. W c q" and "S 5000"
  shows "R e e'"
proof -
  obtain r e1 where s: "send_cmd c OGF_LE_CTL OCF_LE_CREATE_CONN (create_conn_params peer pt own) 25 e = (r, e1)"
    by fastforce
  then have "R e e1"
    using assms(2) by (auto simp: send_cmd_def Let_def split: prod.splits if_splits dest: R_write)
  moreover have "R e1 (usleep 5000 e1)" by (rule R_usleep [OF assms(3)])
  ultimately show ?thesis
    using assms(1) s two_rounds_R [of junk _ 0 60 "usleep 5000 e1" rc e']
    by (auto simp: two_le_create_conn_def Let_def split: if_splits intro: R_trans)
qed

end

lemma open_cmd_balance:
  assumes "open_cmd_socket e = (fd, e')"
  shows "balance (if 0 \<le> fd then {#fd#} else {#}) e e'"
proof -
  obtain f e1 where f: "sys_fd e = (f, e1)" by fastforce
  obtain b e2 where s: "sys_status (A_bind f 0 HCI_CHANNEL_RAW) e1 = (b, e2)" by fastforce
  note b1 = sys_fd_balance [OF f]
  have "balance (if 0 \<le> f then {#f#} else {#}) e e2"
    by (rule balance_step [OF b1 sys_status_balance [OF s]]) simp
  with assms f s b1 sys_close_balance [of f "{#}" e e2] show ?thesis
    by (auto simp: open_cmd_socket_def Let_def split: if_splits)
qed

lemma open_evt_balance:
  assumes "open_evt_socket e = (fd, e')"
  shows "balance (if 0 \<le> fd then {#fd#} else {#}) e e'"
proof -
  obtain f e1 where f: "sys_fd e = (f, e1)" by fastforce
  obtain b e2 where s: "sys_status (A_bind f 0 HCI_CHANNEL_RAW) e1 = (b, e2)" by fastforce
  obtain r e3 where t: "sys_status (A_setsockopt f all_events_filter) e2 = (r, e3)" by fastforce
  note b1 = sys_fd_balance [OF f]
  have b2: "balance (if 0 \<le> f then {#f#} else {#}) e e2"
    by (rule balance_step [OF b1 sys_status_balance [OF s]]) simp
  have "balance (if 0 \<le> f then {#f#} else {#}) e e3"
    by (rule balance_step [OF b2 sys_status_balance [OF t]]) simp
  with assms f s t b1 b2 sys_close_balance [of f "{#}" e e2] sys_close_balance [of f "{#}" e e3] show ?thesis
    by (auto simp: open_evt_socket_def setup_event_filter_def Let_def split: if_splits)
qed

text \<open>Every path of \<^verbatim>\<open>main\<close> closes both sockets.\<close>

lemma two_socket_balance: "balance {#} e (snd (two_socket_main to_bdaddr dev_id junk args e))"
proof -
  define addr where "addr = to_bdaddr (case args of [] \<Rightarrow> ''E0:EF:BF:3B:C6:76'' | a # _ \<Rightarrow> a)"
  define pt :: byte where "pt = (if 2 \<le> length args \<and> args ! 1 = ''random'' then 0x01 else 0x00)"
  have main: "two_socket_main to_bdaddr dev_id junk args e = (case addr of
      None \<Rightarrow> (2, e)
    | Some peer \<Rightarrow>
       (if dev_id < 0 then (1, e)
        else (case open_cmd_socket e of (c, e1) \<Rightarrow>
          if c < 0 then (1, e1)
          else (case open_evt_socket e1 of (v, e2) \<Rightarrow>
            if v < 0 then (1, sys_close c e2)
            else (case two_le_create_conn junk c v peer pt 0x00 e2 of (h, e3) \<Rightarrow>
              (if 0 < h then 0 else 1, sys_close v (sys_close c e3)))))))"
    by (simp only: two_socket_main_def addr_def pt_def Let_def)
  show ?thesis
  proof (cases "addr = None \<or> dev_id < 0")
    case True
    then show ?thesis
      by (auto simp: main balance_refl split: option.split)
  next
    case False
    then obtain peer where peer: "addr = Some peer" "\<not> dev_id < 0" by auto
    obtain c e1 where c: "open_cmd_socket e = (c, e1)" by fastforce
    obtain v e2 where v: "open_evt_socket e1 = (v, e2)" by fastforce
    obtain h e3 where h: "two_le_create_conn junk c v peer pt 0x00 e2 = (h, e3)" by fastforce
    note b1 = open_cmd_balance [OF c] and b2 = balance_trans [OF open_cmd_balance [OF c] open_evt_balance [OF v]]
    have k: "balance {#} e2 e3" by (rule fds_kept_balance [OF silence.two_create_conn_R [OF h]]) simp_all
    have "balance {#} e (sys_close v (sys_close c e3))" if "0 \<le> c" "0 \<le> v"
      using balance_step [OF b2 k] that by (intro sys_close_balance) (simp add: add_mset_commute)
    moreover have "balance {#} e (sys_close c e2)" if "0 \<le> c" "v < 0"
      using b2 that by (intro sys_close_balance) simp
    ultimately show ?thesis
      using peer c v h b1
      by (auto simp: main not_less)
  qed
qed

section \<open>The rejected command\<close>

lemma read_evt_quiet: "polls e = [] \<Longrightarrow> read_evt buf n 100 e = (0, buf, e\<lparr>clock := clock e + 100000\<rparr>)"
  by (simp add: read_evt_def sys_poll_def)

lemma conn_rounds_quiet:
  "polls e = [] \<Longrightarrow> conn_rounds junk opc i k e = (-1, e\<lparr>clock := clock e + 100000 * int k\<rparr>)"
  by (induction k arbitrary: i e) (simp_all add: read_evt_quiet algebra_simps)

text \<open>A Command Status event: status, number of command packets, opcode.\<close>

definition command_status :: "byte \<Rightarrow> byte \<Rightarrow> u16 \<Rightarrow> bytes" where
  "command_status st ncmd opc = [HCI_EVENT_PKT, EVT_CMD_STATUS, 4, st, ncmd] @ put_le16 opc"

text \<open>
  C36. A rejected LE Create Connection is never noticed: the opcode of a Command Status event
  is looked for one byte too early, so the loop takes no rejection of the command for one and
  sits out its remaining 59 rounds, 5.9 seconds, while it takes the rejection of another
  command (opcode \<open>0x0120\<close>) for its own when 13 command packets are announced.
\<close>

theorem rejection_never_noticed:
  assumes "polls e = [Poll_ans 0 False P_ready]" and "reads e = [R_data (command_status st ncmd 0x200D)]"
  shows "\<exists>e'. conn_rounds junk 0x200D 0 60 e = (-1, e') \<and> clock e' = clock e + 5900000 \<and>
     judge_event 0x200D (command_status st ncmd 0x200D @ rest) = V_continue \<and>
     judge_event 0x200D (command_status 0x0C 0x0D 0x0120 @ rest) = V_rejected"
proof -
  have own: "judge_event 0x200D (command_status st ncmd 0x200D @ xs) = V_continue" for xs
  proof -
    have "\<not> bit (get_le16 (drop 3 (command_status st ncmd 0x200D @ xs)) 1) 13"
      by (auto simp: command_status_def get_le16_def put_le16_def bit_simps dest: bit_imp_le_length)
    moreover have "bit (0x200D :: u16) 13" by simp
    ultimately have "get_le16 (drop 3 (command_status st ncmd 0x200D @ xs)) 1 \<noteq> 0x200D" by metis
    then show ?thesis by (simp add: judge_event_def command_status_def Let_def)
  qed
  have other: "judge_event 0x200D (command_status 0x0C 0x0D 0x0120 @ xs) = V_rejected" for xs
    by (simp add: judge_event_def command_status_def get_le16_def put_le16_def)
  define e1 where "e1 = e\<lparr>polls := [], reads := []\<rparr>"
  have r: "read_evt (junk 0) 256 100 e =
      (7, overwrite (junk 0) (command_status st ncmd 0x200D), e1)"
    using assms by (simp add: read_evt_def sys_poll_def sys_read_def e1_def command_status_def put_le16_def)
  have "conn_rounds junk 0x200D 0 60 e = conn_rounds junk 0x200D 1 59 e1"
    using conn_rounds.simps(2) [of junk "0x200D" 0 59 e] r own by (simp add: overwrite_def)
  moreover have "polls e1 = []" "clock e1 = clock e" by (simp_all add: e1_def)
  ultimately show ?thesis using own other conn_rounds_quiet [of e1 junk "0x200D" 1 59] by simp
qed

theorem rejection_never_noticed_witness:
  "\<exists>e'. conn_rounds (\<lambda>i. replicate 256 0) 0x200D 0 60
      (quiet_env\<lparr>polls := [Poll_ans 0 False P_ready], reads := [R_data (command_status 0x0C 1 0x200D)]\<rparr>) =
     (-1, e') \<and> clock e' = 5900000"
  using rejection_never_noticed [of
      "quiet_env\<lparr>polls := [Poll_ans 0 False P_ready], reads := [R_data (command_status 0x0C 1 0x200D)]\<rparr>"
      "0x0C" 1 "\<lambda>i. replicate 256 0" "[]"]
  by (auto simp: quiet_env_def)

end
