(* ===== verification/Probes.thy ===== *)
theory Probes
  imports Two_Socket C_Strings
begin

text \<open>
  The probe programs \<^verbatim>\<open>hciletest.c\<close>, \<^verbatim>\<open>sw2d_lib.c\<close> and \<^verbatim>\<open>acltest.c\<close>: each
  makes a connection with the help of the Bluetooth library (or of \<^verbatim>\<open>hcitool\<close>), sends
  one ATT MTU request in an ACL packet built by hand and looks at the answers. The library
  is not part of the repository: \<^verbatim>\<open>str2ba\<close>, \<^verbatim>\<open>hci_le_create_conn\<close> (status and
  handle) and \<^verbatim>\<open>hci_disconnect\<close> are arguments, gathered in a record.
\<close>

record hci_lib =
  lib_str2ba :: "string \<Rightarrow> bytes option"
  lib_create_conn :: "int \<Rightarrow> byte \<Rightarrow> bytes \<Rightarrow> env \<Rightarrow> int \<times> u16 \<times> env"
  lib_disconnect :: "int \<Rightarrow> u16 \<Rightarrow> env \<Rightarrow> env"

text \<open>The library's calls work on an open descriptor: they open and close nothing.\<close>

definition lib_keeps_fds :: "hci_lib \<Rightarrow> bool" where
  "lib_keeps_fds l \<longleftrightarrow>
     (\<forall>fd t peer e. fds_kept e (snd (snd (lib_create_conn l fd t peer e)))) \<and>
     (\<forall>fd h e. fds_kept e (lib_disconnect l fd h e))"

section \<open>What the programs share\<close>

definition parse_type :: "string \<Rightarrow> byte option" where
  "parse_type s = (if s = ''public'' then Some 0x00 else if s = ''random'' then Some 0x01 else None)"

text \<open>The twelve bytes of \<^verbatim>\<open>pkt\<close>.\<close>

definition mtu_packet :: "u16 \<Rightarrow> bytes" where
  "mtu_packet h =
     (let hf = (h AND 0x0FFF) OR push_bit 12 2
      in [HCI_ACLDATA_PKT, ucast (hf AND 0xFF), ucast (drop_bit 8 hf AND 0xFF),
          7, 0, 3, 0, 4, 0, 0x02, 0xFF, 0x02])"

section \<open>hciletest\<close>

definition hciletest_main :: "hci_lib \<Rightarrow> string list \<Rightarrow> env \<Rightarrow> int \<times> env" where
  "hciletest_main l args e = (case args of
      [addr_s, ty_s] \<Rightarrow>
        (case parse_type ty_s of
           None \<Rightarrow> (1, e)
         | Some peer_type \<Rightarrow>
            (let (dd, e1) = sys_fd e
             in if dd < 0 then (1, e1)
                else (case lib_str2ba l addr_s of
                        None \<Rightarrow> (1, sys_close dd e1)
                      | Some peer \<Rightarrow>
                         (let (rc, h, e2) = lib_create_conn l dd peer_type peer e1
                          in if rc < 0 then (1, sys_close dd e2)
                             else (let (w, e3) = sys_write dd (mtu_packet h) e2;
                                       (n, buf, e4) = sys_read 260 e3
                                   in (0, sys_close dd (lib_disconnect l dd h e4)))))))
    | _ \<Rightarrow> (1, e))"

section \<open>sw2d-lib\<close>

text \<open>The rounds that print what arrives; \<open>k\<close> of them are left.\<close>

fun recv_rounds :: "nat \<Rightarrow> env \<Rightarrow> env" where
  "recv_rounds 0 e = e"
| "recv_rounds (Suc k) e =
     (if \<not> running e then e
      else (let (pr, e1) = sys_poll 100 e
            in if 0 < pr then (let (n, buf, e2) = sys_read 512 e1 in recv_rounds k e2)
               else recv_rounds k e1))"

definition sw2d_lib_main :: "hci_lib \<Rightarrow> string list \<Rightarrow> env \<Rightarrow> int \<times> env" where
  "sw2d_lib_main l args e = (case args of
      [addr_s, ty_s] \<Rightarrow>
        (case parse_type ty_s of
           None \<Rightarrow> (1, e)
         | Some peer_type \<Rightarrow>
            (let (dd, e1) = sys_fd e
             in if dd < 0 then (1, e1)
                else (case lib_str2ba l addr_s of
                        None \<Rightarrow> (1, sys_close dd e1)
                      | Some peer \<Rightarrow>
                         (let (rc, h, e2) = lib_create_conn l dd peer_type peer e1
                          in if rc < 0 then (1, sys_close dd e2)
                             else (let (w, e3) = sys_write dd (mtu_packet h) e2
                                   in (0, sys_close dd (recv_rounds 30 e3)))))))
    | _ \<Rightarrow> (1, e))"

section \<open>acltest\<close>

text \<open>
  \<^verbatim>\<open>sscanf(line, "Connection handle %u", &h)\<close>: a space of the format matches any white
  space, also none; the number may have a sign and is cut to 32 bits.
\<close>

definition after_word :: "string \<Rightarrow> string \<Rightarrow> string option" where
  "after_word w s = (if take (length w) s = w then Some (dropWhile is_space (drop (length w) s)) else None)"

definition is_digit :: "char \<Rightarrow> bool" where
  "is_digit c \<longleftrightarrow> 48 \<le> (of_char c :: nat) \<and> (of_char c :: nat) \<le> 57"

definition scan_unsigned :: "string \<Rightarrow> u32 option" where
  "scan_unsigned s =
     (let neg = (s \<noteq> [] \<and> hd s = CHR ''-'');
          r = (if s \<noteq> [] \<and> (hd s = CHR ''-'' \<or> hd s = CHR ''+'') then tl s else s);
          v = digits_value 0 r
      in if r = [] \<or> \<not> is_digit (hd r) then None
         else if 2 ^ 64 \<le> v then Some (word_of_int (2 ^ 64 - 1))
         else Some (word_of_int (if neg then - v else v)))"

definition scan_handle :: "string \<Rightarrow> u32 option" where
  "scan_handle line =
     Option.bind (after_word ''Connection'' (cstr line)) (\<lambda>s.
     Option.bind (after_word ''handle'' s) scan_unsigned)"

text \<open>The lines \<^verbatim>\<open>hcitool\<close> prints, at most 63 characters at a time; the last handle counts.\<close>

function handle_lines :: "string \<Rightarrow> u16 \<Rightarrow> u16" where
  "handle_lines s h = (case fgets 64 s of
      None \<Rightarrow> h
    | Some (line, rest) \<Rightarrow>
        handle_lines rest (case scan_handle line of Some v \<Rightarrow> ucast v | None \<Rightarrow> h))"
  by pat_completeness auto
termination
  by (relation "measure (\<lambda>(s, h). length s)") (auto dest: fgets_shorter [where n = 62, simplified])

declare handle_lines.simps [simp del]

definition acltest_filter :: bytes where
  "acltest_filter = (replicate 16 0)[0 := push_bit 2 1 OR push_bit 4 1, 10 := 0x00, 11 := 0x40]"

text \<open>The rounds that read an answer: its type and then the rest with a second \<^verbatim>\<open>read\<close>.\<close>

fun acl_rounds :: "nat \<Rightarrow> env \<Rightarrow> env" where
  "acl_rounds 0 e = e"
| "acl_rounds (Suc k) e =
     (let (pr, e1) = sys_poll 100 e
      in if pr \<le> 0 then acl_rounds k e1
         else (let (r, pt, e2) = sys_read 1 e1
               in if r \<le> 0 then acl_rounds k e2
                  else (let (r2, buf, e3) = sys_read 260 e2
                        in if r2 \<le> 0 then acl_rounds k e3
                           else if pt ! 0 = 0x02 \<and> 4 \<le> r2 \<and> buf ! 2 = 4 \<and> buf ! 3 = 0 then e3
                           else acl_rounds k e3)))"

text \<open>\<^verbatim>\<open>main\<close>, with the text \<^verbatim>\<open>hcitool\<close> prints (that it can be started is not tested).\<close>

definition acltest_main :: "string \<Rightarrow> env \<Rightarrow> int \<times> env" where
  "acltest_main lecc e =
     (let h = handle_lines lecc 0
      in if h = 0 then (1, e)
         else (let (s, e1) = sys_fd e
               in if s < 0 then (1, e1)
                  else (let (b, e2) = sys_status (A_bind s 0 0) e1;
                            (f, e3) = sys_status (A_setsockopt s acltest_filter) e2;
                            (w, e4) = sys_write s (mtu_packet h) e3
                        in (0, sys_close s (acl_rounds 30 e4)))))"

section \<open>The packet of the transport\<close>

text \<open>
  The packet the probes build by hand is the one the transport of the daemon builds for
  an ATT MTU request of 767 on the same handle, so that its reader recovers handle, channel
  and request; the upper four bits of the handle are lost in both.
\<close>

theorem mtu_packet_is_transport_packet:
  "mtu_packet h = acl_packet h 0x0004 [0x02, 0xFF, 0x02] 3 \<and>
   mtu_packet h = mtu_packet (h AND 0x0FFF) \<and>
   dec_acl (mtu_packet h) = Some (h AND 0x0FFF, 0x0004, [0x02, 0xFF, 0x02])"
proof -
  have m: "mtu_packet g = acl_packet g 0x0004 [0x02, 0xFF, 0x02] 3" for g
  proof -
    have ff: "(0xFF :: u16) = mask 8" by (simp add: mask_eq_exp_minus_1)
    have lo: "ucast (w AND 0xFF) = (ucast w :: byte)" for w :: u16
      unfolding ff by (rule bit_word_eqI) (auto simp: bit_simps)
    have hi: "ucast (drop_bit 8 w AND 0xFF) = (ucast (drop_bit 8 w) :: byte)" for w :: u16
      unfolding ff by (rule bit_word_eqI) (auto simp: bit_simps)
    show ?thesis
      by (simp add: mtu_packet_def acl_packet_def put_le16_def lo hi Let_def)
  qed
  have k: "mtu_packet h = mtu_packet (h AND 0x0FFF)"
    by (simp add: mtu_packet_def Let_def and.assoc)
  have "dec_acl (enc_acl (h AND 0x0FFF, 0x0004, [0x02, 0xFF, 0x02])) = Some (h AND 0x0FFF, 0x0004, [0x02, 0xFF, 0x02])"
    by (rule acl.dec_enc) (simp add: acl_ok_def and.assoc)
  then have "dec_acl (mtu_packet h) = Some (h AND 0x0FFF, 0x0004, [0x02, 0xFF, 0x02])"
    unfolding k m [of "h AND 0x0FFF"] by (simp add: enc_acl_def)
  with m k show ?thesis by blast
qed

section \<open>Descriptors\<close>

lemma recv_rounds_kept: "fds_kept e (recv_rounds k e)"
proof (induction k arbitrary: e)
  case (Suc k)
  obtain pr e1 where p: "sys_poll 100 e = (pr, e1)" by fastforce
  obtain n buf e2 where r: "sys_read 512 e1 = (n, buf, e2)" by (metis prod_cases3)
  have "fds_kept e e1" by (rule silence.R_poll [OF p]) simp
  with p r silence.R_read [OF r] Suc [of e1] Suc [of e2] show ?case
    by (auto simp: silence.R_refl intro: silence.R_trans)
qed (simp add: silence.R_refl)

lemma acl_rounds_kept: "fds_kept e (acl_rounds k e)"
proof (induction k arbitrary: e)
  case (Suc k)
  obtain pr e1 where p: "sys_poll 100 e = (pr, e1)" by fastforce
  obtain n pt e2 where r: "sys_read 1 e1 = (n, pt, e2)" by (metis prod_cases3)
  obtain n2 buf e3 where r2: "sys_read 260 e2 = (n2, buf, e3)" by (metis prod_cases3)
  have "fds_kept e e1" by (rule silence.R_poll [OF p]) simp
  moreover from this have "fds_kept e e2" using silence.R_read [OF r] by (rule silence.R_trans)
  moreover from this have "fds_kept e e3" using silence.R_read [OF r2] by (rule silence.R_trans)
  ultimately show ?case
    using p r [unfolded One_nat_def] r2 Suc [of e1] Suc [of e2] Suc [of e3]
    by (auto intro: silence.R_trans)
qed (simp add: silence.R_refl)

text \<open>A run that holds \<open>dd\<close> and then only closes it is balanced.\<close>

lemma open_then_close:
  "sys_fd e = (dd, e1) \<Longrightarrow> 0 \<le> dd \<Longrightarrow> fds_kept e1 e2 \<Longrightarrow> balance {#} e (sys_close dd e2)"
  using sys_fd_balance [of e dd e1] balance_step [OF _ fds_kept_balance, of "{#dd#}" e e1 e2]
  by (simp add: sys_close_balance)

lemma open_fails: "sys_fd e = (dd, e1) \<Longrightarrow> dd < 0 \<Longrightarrow> balance {#} e e1"
  using sys_fd_balance [of e dd e1] by simp

text \<open>
  C40. The test programs leave no descriptor behind: with a library whose calls open and close
  nothing, each of the three probes and the two-socket test closes what it opened, on every
  path.
\<close>

theorem probes_close_what_they_open:
  assumes "lib_keeps_fds l"
    and "(code, e') \<in> {hciletest_main l args e, sw2d_lib_main l args e, acltest_main lecc e,
       two_socket_main to_bdaddr dev_id junk args e}"
  shows "mset (closed e e') = mset (opened e e')"
proof -
  have lib: "fds_kept a (snd (snd (lib_create_conn l fd t peer a)))" "fds_kept a (lib_disconnect l fd h a)"
    for fd t peer h a using assms(1) by (auto simp: lib_keeps_fds_def)
  obtain dd e1 where o1: "sys_fd e = (dd, e1)" by fastforce
  note fails = balance_refl open_fails [OF o1] open_then_close [OF o1]
  have conn: "fds_kept e1 e2" if "lib_create_conn l dd t peer e1 = (rc, h, e2)" for t peer rc h e2
    using lib(1) [of e1 dd t peer] that by simp
  have sent: "fds_kept e1 e3" if "fds_kept e1 e2" "sys_write dd p e2 = (w, e3)" for p e2 w e3
    by (rule silence.R_trans [OF that(1) silence.R_write [OF that(2)]]) simp
  have hciletest: "balance {#} e (snd (hciletest_main l args e))"
    by (auto simp: hciletest_main_def o1 Let_def silence.R_refl not_less
        split: list.split option.split prod.split dest!: conn
        intro!: fails intro: silence.R_trans [OF _ lib(2)] silence.R_trans [OF sent silence.R_read])
  have sw2d_lib: "balance {#} e (snd (sw2d_lib_main l args e))"
    by (auto simp: sw2d_lib_main_def o1 Let_def silence.R_refl not_less
        split: list.split option.split prod.split dest!: conn
        intro!: fails intro: silence.R_trans [OF sent recv_rounds_kept])
  have acltest: "balance {#} e (snd (acltest_main lecc e))"
  proof -
    obtain b e2 where s2: "sys_status (A_bind dd 0 0) e1 = (b, e2)" by fastforce
    obtain f e3 where s3: "sys_status (A_setsockopt dd acltest_filter) e2 = (f, e3)" by fastforce
    obtain w e4 where s4: "sys_write dd (mtu_packet (handle_lines lecc 0)) e3 = (w, e4)" by fastforce
    have "balance {#dd#} e (acl_rounds 30 e4)" if "0 \<le> dd"
    proof -
      have "balance {#dd#} e e1" using sys_fd_balance [OF o1] that by simp
      then have "balance {#dd#} e e2" using sys_status_balance [OF s2] by (rule balance_step) simp
      then have "balance {#dd#} e e3" using sys_status_balance [OF s3] by (rule balance_step) simp
      then have "balance {#dd#} e e4" using sys_write_balance [OF s4] by (rule balance_step)
      then show ?thesis using fds_kept_balance [OF acl_rounds_kept] by (rule balance_step)
    qed
    then show ?thesis
      using o1 s2 s3 s4 open_fails [OF o1]
      by (simp add: acltest_main_def Let_def balance_refl sys_close_balance)
  qed
  from assms(2) hciletest sw2d_lib acltest two_socket_balance [of e to_bdaddr dev_id junk args]
  have "balance {#} e e'" by (metis insertE singletonD snd_conv)
  then show ?thesis by (simp add: balance_def)
qed

text \<open>A library whose calls answer at once: the probe connects, sends and closes.\<close>

definition demo_lib :: hci_lib where
  "demo_lib = \<lparr>lib_str2ba = (\<lambda>s. Some [1, 2, 3, 4, 5, 0xC6]),
     lib_create_conn = (\<lambda>fd t peer e. (0, 0x40, e)), lib_disconnect = (\<lambda>fd h e. e)\<rparr>"

theorem probes_close_what_they_open_witness:
  "let e = quiet_env\<lparr>fds := [3]\<rparr>; e' = snd (hciletest_main demo_lib [''AA'', ''random''] e)
   in mset (closed e e') = mset (opened e e') \<and> closed e e' = [3] \<and>
      acts e' = [A_write 3 (mtu_packet 0x40), A_close 3]"
proof -
  define e where "e = quiet_env\<lparr>fds := [3]\<rparr>"
  define e' where "e' = snd (hciletest_main demo_lib [''AA'', ''random''] e)"
  have lib: "lib_keeps_fds demo_lib" by (simp add: lib_keeps_fds_def demo_lib_def silence.R_refl)
  have "(fst (hciletest_main demo_lib [''AA'', ''random''] e), e') \<in>
      {hciletest_main demo_lib [''AA'', ''random''] e, sw2d_lib_main demo_lib [''AA'', ''random''] e, acltest_main [] e,
       two_socket_main (\<lambda>a. None) 0 (\<lambda>i. []) [''AA'', ''random''] e}"
    by (simp add: e'_def)
  from probes_close_what_they_open [OF lib this]
  have m: "mset (closed e e') = mset (opened e e')" .
  have a: "acts e' = [A_write 3 (mtu_packet 0x40), A_close 3]"
    by (simp add: e'_def e_def quiet_env_def hciletest_main_def demo_lib_def parse_type_def sys_fd_def
        sys_write_def sys_read_def sys_close_def)
  then have "closed e e' = [3]" by (simp add: closed_def new_acts_def e_def quiet_env_def)
  with m a show ?thesis by (simp add: e_def e'_def)
qed

end
