(* ===== verification/Usb_Inspect.thy ===== *)
theory Usb_Inspect
  imports Descriptors
begin

text \<open>
  The three USB inspection programs \<^verbatim>\<open>usb_inspect.c\<close>, \<^verbatim>\<open>usb_inspect2.c\<close> and
  \<^verbatim>\<open>usb_inspect3.c\<close> of \<^verbatim>\<open>legacy/raw-hci\<close>. Each drains the pending reports of a
  hidraw device, sends a few subcommands and prints what comes back; only the printing is
  left out. The wall clock of \<^verbatim>\<open>time(NULL)\<close> runs with the clock of the environment.
\<close>

section \<open>Subcommands\<close>

text \<open>The 64-byte report; \<open>None\<close> is a NULL data pointer.\<close>

definition subcmd_report :: "byte \<Rightarrow> bytes option \<Rightarrow> byte \<Rightarrow> byte \<Rightarrow> bytes" where
  "subcmd_report subcmd data dlen counter =
     (let buf = (replicate 64 0)[0 := 0x01, 1 := counter AND 0x0F, 10 := subcmd]
      in case data of
           Some d \<Rightarrow> (if 0 < dlen \<and> dlen \<le> 53
                      then take 11 buf @ take (unat dlen) d @ drop (11 + unat dlen) buf else buf)
         | None \<Rightarrow> buf)"

definition send_subcmd :: "int \<Rightarrow> byte \<Rightarrow> bytes option \<Rightarrow> byte \<Rightarrow> byte \<Rightarrow> env \<Rightarrow> int \<times> env" where
  "send_subcmd fd subcmd data dlen counter e =
     (let (n, e1) = sys_write fd (subcmd_report subcmd data dlen counter) e
      in if n < 0 then (-1, e1) else (0, e1))"

text \<open>\<^verbatim>\<open>send_cmd\<close> of the second and third program does not look at the result.\<close>

definition inspect_send_cmd :: "int \<Rightarrow> byte \<Rightarrow> bytes option \<Rightarrow> byte \<Rightarrow> byte \<Rightarrow> env \<Rightarrow> env" where
  "inspect_send_cmd fd subcmd data dlen counter e =
     snd (sys_write fd (subcmd_report subcmd data dlen counter) e)"

section \<open>The first program\<close>

definition inspect_read_report :: "int \<Rightarrow> env \<Rightarrow> int \<times> bytes \<times> env" where
  "inspect_read_report timeout_ms e =
     (let (pr, e1) = sys_poll timeout_ms e
      in if pr < 0 then (-1, [], e1)
         else if pr = 0 then (0, [], e1)
         else (let (n, bs, e2) = sys_read 64 e1 in if n < 0 then (-1, [], e2) else (n, bs, e2)))"

lemma inspect_read_report_uses: "inspect_read_report t e = (n, bs, e') \<Longrightarrow> 0 < n \<Longrightarrow> length (polls e') < length (polls e)"
  by (auto simp: inspect_read_report_def Let_def split: prod.splits if_splits
      dest!: sys_poll_progress dest: sys_read_frame)

text \<open>\<^verbatim>\<open>while ((n = read_report(fd, buf, t)) > 0)\<close>: it ends because every round takes an answer.\<close>

function drain :: "int \<Rightarrow> env \<Rightarrow> env" where
  "drain t e = (case inspect_read_report t e of (n, bs, e1) \<Rightarrow> if 0 < n then drain t e1 else e1)"
  by pat_completeness auto
termination
  by (relation "measure (\<lambda>(t, e). length (polls e))") (auto dest: inspect_read_report_uses sym)

declare drain.simps [simp del]

fun responses :: "nat \<Rightarrow> int \<Rightarrow> env \<Rightarrow> env" where
  "responses 0 t e = e"
| "responses (Suc k) t e =
     (case inspect_read_report t e of (n, bs, e1) \<Rightarrow> if n \<le> 0 then e1 else responses k t e1)"

definition spi_address :: bytes where
  "spi_address = (let addr = 0x00060000 :: u32
     in [ucast (addr AND 0xFF), ucast (drop_bit 8 addr AND 0xFF), ucast (drop_bit 16 addr AND 0xFF),
         ucast (drop_bit 24 addr AND 0xFF), 0x20])"

definition inspect_main :: "env \<Rightarrow> int \<times> env" where
  "inspect_main e =
     (let (fd, e0) = sys_fd e
      in if fd < 0
         then (1, snd (sys_status (A_system (''ls -la /dev/hidraw* 2>/dev/null || echo '  (none)'' @ [CHR 0x27])) e0))
         else (let e1 = drain 100 e0;
                   e2 = responses 5 500 (snd (send_subcmd fd 0x02 None 0 0 e1));
                   e3 = responses 5 500 (snd (send_subcmd fd 0x10 (Some spi_address) 5 1 e2));
                   e4 = responses 5 500 (snd (send_subcmd fd 0x06 (Some [0x00]) 1 2 e3));
                   e5 = responses 5 500 (snd (send_subcmd fd 0x06 (Some [0x01]) 1 3 e4))
               in (0, sys_close fd (drain 200 e5))))"

section \<open>The second program\<close>

lemma usleep_frame: "polls (usleep us e) = polls e \<and> clock (usleep us e) = clock e + int us"
  by (simp add: usleep_def split: list.split)

definition before_time :: "((int \<times> env) \<times> (int \<times> env)) set" where
  "before_time = measures [\<lambda>(d, e). length (polls e), \<lambda>(d, e). nat (1000000 * d - clock e)]"

lemma before_time_poll:
  assumes "sys_poll t e = (r, e1)" and "0 < t" and "clock e div 1000000 < d"
    and "polls e2 = polls e1" and "clock e1 \<le> clock e2"
  shows "((d, e2), (d, e)) \<in> before_time"
  using sys_poll_progress [OF assms(1)] assms(2-)
  by (auto simp: before_time_def)

text \<open>Draining until a deadline in microseconds.\<close>

function drain2 :: "int \<Rightarrow> env \<Rightarrow> env" where
  "drain2 deadline e =
     (if clock e div 1000000 < deadline then
        (case sys_poll 50 e of (pr, e1) \<Rightarrow>
           if pr \<le> 0 then drain2 deadline (usleep 10000 e1)
           else (case sys_read 64 e1 of (n, bs, e2) \<Rightarrow> if n \<le> 0 then e2 else drain2 deadline e2))
      else e)"
  by pat_completeness auto
termination
proof (relation before_time)
  show "wf before_time" by (simp add: before_time_def)
qed (auto intro!: before_time_poll simp: usleep_frame dest!: sym [of _ "sys_poll 50 _"] sym [of _ "sys_read 64 _"]
      dest: sys_read_frame)

declare drain2.simps [simp del]

fun responses2 :: "nat \<Rightarrow> int \<Rightarrow> env \<Rightarrow> env" where
  "responses2 0 t e = e"
| "responses2 (Suc k) t e =
     (case sys_poll t e of (pr, e1) \<Rightarrow>
        if pr \<le> 0 then e1
        else (case sys_read 64 e1 of (n, bs, e2) \<Rightarrow> if n \<le> 0 then e2 else responses2 k t e2))"

definition inspect2_main :: "env \<Rightarrow> int \<times> env" where
  "inspect2_main e =
     (let (fd, e0) = sys_fd e
      in if fd < 0 then (1, e0)
         else (let e1 = drain2 (clock e0 div 1000000 + 2) e0;
                   e2 = responses2 20 300 (inspect_send_cmd fd 0x02 None 0 0 e1);
                   e3 = responses2 30 500 (inspect_send_cmd fd 0x10 (Some spi_address) 5 1 e2);
                   e4 = responses2 10 500 (inspect_send_cmd fd 0x48 None 0 2 e3)
               in (0, sys_close fd e4)))"

section \<open>The third program\<close>

text \<open>It neither sleeps nor looks at what \<^verbatim>\<open>read\<close> returns.\<close>

function drain3 :: "int \<Rightarrow> env \<Rightarrow> env" where
  "drain3 dl e =
     (if clock e div 1000000 < dl then
        (case sys_poll 20 e of (pr, e1) \<Rightarrow>
           if pr \<le> 0 then drain3 dl e1 else (case sys_read 64 e1 of (n, bs, e2) \<Rightarrow> drain3 dl e2))
      else e)"
  by pat_completeness auto
termination
proof (relation before_time)
  show "wf before_time" by (simp add: before_time_def)
qed (auto intro!: before_time_poll dest!: sym [of _ "sys_poll 20 _"] sym [of _ "sys_read 64 _"] dest: sys_read_frame)

declare drain3.simps [simp del]

fun responses3 :: "nat \<Rightarrow> env \<Rightarrow> env" where
  "responses3 0 e = e"
| "responses3 (Suc k) e =
     (case sys_poll 300 e of (pr, e1) \<Rightarrow>
        if pr \<le> 0 then e1 else (case sys_read 64 e1 of (n, bs, e2) \<Rightarrow> responses3 k e2))"

definition inspect3_main :: "env \<Rightarrow> int \<times> env" where
  "inspect3_main e =
     (let (fd, e0) = sys_fd e
      in if fd < 0 then (1, e0)
         else (let e1 = drain3 (clock e0 div 1000000 + 1) e0;
                   e2 = responses3 8 (inspect_send_cmd fd 0x02 None 0 0 e1);
                   e3 = responses3 8 (inspect_send_cmd fd 0x06 (Some [0x01]) 1 1 e2);
                   e4 = responses3 8 (inspect_send_cmd fd 0x01
                          (Some [0x01, 0xD8, 0x3A, 0xDD, 0xE5, 0x69, 0xED]) 7 2 e3)
               in (0, sys_close fd e4)))"

section \<open>What they send\<close>

context env_effect
begin

lemma inspect_read_R: "inspect_read_report t e = (n, bs, e') \<Longrightarrow> 0 \<le> t \<Longrightarrow> R e e'"
  by (auto simp: inspect_read_report_def Let_def split: prod.splits if_splits dest: R_poll R_read intro: R_trans)

lemma inspect_drain_R: "0 \<le> t \<Longrightarrow> R e (drain t e)"
proof (induction t e rule: drain.induct)
  case (1 t e)
  obtain n bs e1 where r: "inspect_read_report t e = (n, bs, e1)" by (metis prod_cases3)
  have "R e e1" by (rule inspect_read_R [OF r "1.prems"])
  with r "1.IH" [OF r [symmetric] refl] "1.prems" show ?case
    by (subst drain.simps) (auto intro: R_trans)
qed

lemma inspect_responses_R: "0 \<le> t \<Longrightarrow> R e (responses k t e)"
proof (induction k arbitrary: e)
  case (Suc k)
  obtain n bs e1 where r: "inspect_read_report t e = (n, bs, e1)" by (metis prod_cases3)
  with inspect_read_R [OF r Suc.prems] Suc.IH [OF Suc.prems, of e1] show ?case by (auto intro: R_trans)
qed (simp add: R_refl)

lemma inspect_drain2_R: "S 10000 \<Longrightarrow> R e (drain2 d e)"
proof (induction d e rule: drain2.induct)
  case (1 d e)
  obtain pr e1 where p: "sys_poll 50 e = (pr, e1)" by fastforce
  obtain n bs e2 where r: "sys_read 64 e1 = (n, bs, e2)" by (metis prod_cases3)
  have "R e e1" by (rule R_poll [OF p]) simp
  moreover have "R e1 e2" by (rule R_read [OF r])
  moreover have "R e1 (usleep 10000 e1)" by (rule R_usleep [OF "1.prems"])
  ultimately show ?case
    using p r "1.IH" [OF _ p [symmetric]] "1.prems"
    by (subst drain2.simps) (auto simp: R_refl intro: R_trans)
qed

lemma inspect_drain3_R: "R e (drain3 d e)"
proof (induction d e rule: drain3.induct)
  case (1 d e)
  obtain pr e1 where p: "sys_poll 20 e = (pr, e1)" by fastforce
  obtain n bs e2 where r: "sys_read 64 e1 = (n, bs, e2)" by (metis prod_cases3)
  have "R e e1" by (rule R_poll [OF p]) simp
  moreover have "R e1 e2" by (rule R_read [OF r])
  ultimately show ?case
    using p r "1.IH" [OF _ p [symmetric]]
    by (subst drain3.simps) (auto simp: R_refl intro: R_trans)
qed

lemma inspect_responses2_R: "0 \<le> t \<Longrightarrow> R e (responses2 k t e)"
proof (induction k arbitrary: e)
  case (Suc k)
  obtain pr e1 where p: "sys_poll t e = (pr, e1)" by fastforce
  obtain n bs e2 where r: "sys_read 64 e1 = (n, bs, e2)" by (metis prod_cases3)
  from p r R_poll [OF p Suc.prems] R_read [OF r] Suc.IH [OF Suc.prems, of e2] show ?case
    by (auto intro: R_trans)
qed (simp add: R_refl)

lemma inspect_responses3_R: "R e (responses3 k e)"
proof (induction k arbitrary: e)
  case (Suc k)
  obtain pr e1 where p: "sys_poll 300 e = (pr, e1)" by fastforce
  obtain n bs e2 where r: "sys_read 64 e1 = (n, bs, e2)" by (metis prod_cases3)
  have "R e e1" by (rule R_poll [OF p]) simp
  with p r R_read [OF r] Suc.IH [of e2] show ?case by (auto intro: R_trans)
qed (simp add: R_refl)

end

text \<open>Nothing but waiting and reading: no action but pauses, no answer to a write used.\<close>

fun is_sleep :: "action \<Rightarrow> bool" where
  "is_sleep (A_sleep us) = True"
| "is_sleep _ = False"

definition listens :: "env \<Rightarrow> env \<Rightarrow> bool" where
  "listens e e' \<longleftrightarrow> writes e' = writes e \<and> acts_in is_sleep e e'"

lemma listens_effect: "env_effect listens (\<lambda>fd bs. False) (\<lambda>us. True)"
proof -
  note a = acts_in_effect [of is_sleep]
  have w: "sys_poll t e = (r, e') \<Longrightarrow> writes e' = writes e" "sys_read n e = (k, bs, e') \<Longrightarrow> writes e' = writes e"
    "sys_rand e = (q, e') \<Longrightarrow> writes e' = writes e" "writes (usleep us e) = writes e" for t n k q r bs us e e'
    by (auto simp: sys_poll_def sys_read_def sys_rand_def usleep_def Let_def
        split: list.splits poll_res.splits read_ans.splits)
  show ?thesis
    by (rule env_effect.intro)
      (auto simp: listens_def w intro: env_effect.R_trans [OF a] env_effect.R_poll [OF a] env_effect.R_read [OF a]
        env_effect.R_rand [OF a] env_effect.R_usleep [OF a])
qed

interpretation listening: env_effect listens "\<lambda>fd bs. False" "\<lambda>us. True"
  by (rule listens_effect)

text \<open>\<open>logs l e e'\<close>: with writes that succeed, the actions other than pauses are \<open>l\<close>.\<close>

definition logs :: "action list \<Rightarrow> env \<Rightarrow> env \<Rightarrow> bool" where
  "logs l e e' \<longleftrightarrow> writes e = [] \<and> writes e' = [] \<and> env_le e e' \<and>
     filter (\<lambda>a. \<not> is_sleep a) (new_acts e e') = l"

lemma logs_trans: "logs l e e' \<Longrightarrow> logs m e' e'' \<Longrightarrow> logs (l @ m) e e''"
  using new_acts_trans [of e e' e''] by (auto simp: logs_def intro: env_le_trans)

lemma logs_listens: "listens e e' \<Longrightarrow> writes e = [] \<Longrightarrow> logs [] e e'"
  by (auto simp: logs_def listens_def acts_in_def list_all_iff filter_empty_conv)

lemma logs_write: "writes e = [] \<Longrightarrow> logs [A_write fd p] e (snd (sys_write fd p e))"
  by (auto simp: logs_def sys_write_def env_le_def new_acts_def)

lemma logs_close: "writes e = [] \<Longrightarrow> logs [A_close fd] e (sys_close fd e)"
  by (simp add: logs_def sys_close_def env_le_def new_acts_def)

lemma logs_ask: "writes e = [] \<Longrightarrow> listens (snd (sys_write fd p e)) e' \<Longrightarrow> logs [A_write fd p] e e'"
  using logs_trans [OF logs_write logs_listens, of e fd p e'] logs_write [of e fd p] by (simp add: logs_def)

lemma logs_open: "sys_fd e = (fd, e0) \<Longrightarrow> writes e = [] \<Longrightarrow> logs [] e e0"
  by (auto simp: sys_fd_def logs_def env_le_def new_acts_def split: list.splits)

lemma logs_then_ask: "logs l e a \<Longrightarrow> listens (snd (sys_write fd p a)) b \<Longrightarrow> logs (l @ [A_write fd p]) e b"
  by (rule logs_trans [OF _ logs_ask]) (simp_all add: logs_def)

lemma logs_then_listen: "logs l e a \<Longrightarrow> listens a b \<Longrightarrow> logs l e b"
  using logs_trans [of l e a "[]" b] logs_listens [of a b] by (simp add: logs_def)

lemma logs_then_close: "logs l e a \<Longrightarrow> logs (l @ [A_close fd]) e (sys_close fd a)"
  by (rule logs_trans [OF _ logs_close]) (simp_all add: logs_def)

lemma snd_send_subcmd: "snd (send_subcmd fd c d n k e) = snd (sys_write fd (subcmd_report c d n k) e)"
  by (simp add: send_subcmd_def Let_def split: prod.split)

text \<open>The reports are those of the daemon's own USB preparation.\<close>

lemma subcmd_is_usb_report:
  "subcmd_report c None n k = usb_report (k AND 0x0F) c []"
  "length d = unat n \<Longrightarrow> 0 < n \<Longrightarrow> n \<le> 53 \<Longrightarrow> subcmd_report c (Some d) n k = usb_report (k AND 0x0F) c d"
  by (simp_all add: subcmd_report_def usb_report_def Let_def)

lemma inspection_reports:
  "subcmd_report 0x02 None 0 0 = usb_report 0 0x02 []"
  "subcmd_report 0x10 (Some spi_address) 5 1 = usb_report 1 0x10 [0, 0, 6, 0, 0x20]"
  "subcmd_report 0x06 (Some [0x00]) 1 2 = usb_report 2 0x06 [0]"
  "subcmd_report 0x06 (Some [0x01]) 1 3 = usb_report 3 0x06 [1]"
  "subcmd_report 0x48 None 0 2 = usb_report 2 0x48 []"
  "subcmd_report 0x06 (Some [0x01]) 1 1 = usb_report 1 0x06 [1]"
  "subcmd_report 0x01 (Some [0x01, 0xD8, 0x3A, 0xDD, 0xE5, 0x69, 0xED]) 7 2 =
     usb_report 2 0x01 [0x01, 0xD8, 0x3A, 0xDD, 0xE5, 0x69, 0xED]"
  by (simp_all add: subcmd_is_usb_report spi_address_def)

text \<open>A request and the wait for its answers, in the three ways of the programs.\<close>

lemma asks:
  "logs l e a \<Longrightarrow> logs (l @ [A_write fd p]) e (responses k 500 (snd (sys_write fd p a)))"
  "logs l e a \<Longrightarrow> 0 \<le> t \<Longrightarrow> logs (l @ [A_write fd p]) e (responses2 k t (snd (sys_write fd p a)))"
  "logs l e a \<Longrightarrow> logs (l @ [A_write fd p]) e (responses3 k (snd (sys_write fd p a)))"
  by (simp_all add: logs_then_ask listening.inspect_responses_R listening.inspect_responses2_R
      listening.inspect_responses3_R)



end
