(* ===== verification/Start_Up.thy ===== *)
theory Start_Up
  imports Bt_Daemon
begin

text \<open>
  How the other programs start: the set-up of BTstack by the bridge and the two versions of
  the HID host, as the calls it makes, and the command line of \<^verbatim>\<open>switch2-bt.c\<close>, read by
  the C library's \<^verbatim>\<open>getopt\<close>.
\<close>

section \<open>The set-up of BTstack\<close>

datatype setup_call =
    C_transport_linux nat \<comment> \<open>the index of the controller\<close>
  | C_add_hci_handler
  | C_add_sm_handler
  | C_l2cap_init
  | C_sm_init
  | C_no_input_no_output
  | C_bonding bool
  | C_secure_connections_only bool
  | C_gatt_client_init
  | C_power_on
  | C_run_loop

definition bridge_setup :: "setup_call list" where
  "bridge_setup =
     [C_l2cap_init, C_sm_init, C_no_input_no_output, C_bonding False, C_secure_connections_only False,
      C_gatt_client_init, C_add_hci_handler, C_add_sm_handler, C_power_on]"

definition host_setup :: "setup_call list" where
  "host_setup =
     [C_transport_linux 0, C_add_hci_handler, C_l2cap_init, C_sm_init, C_no_input_no_output,
      C_bonding True, C_gatt_client_init, C_power_on]"

definition host_main :: "setup_call list" where
  "host_main = host_setup @ [C_run_loop]"

definition build_setup :: "setup_call list" where
  "build_setup = [C_add_hci_handler, C_l2cap_init, C_sm_init, C_gatt_client_init, C_power_on]"

text \<open>
  The order BTstack documents: a layer is initialised before it is configured, and all of it,
  the handler of the events included, before the controller is powered on.
\<close>

fun set_up_before :: "setup_call \<Rightarrow> setup_call list" where
  "set_up_before C_power_on = [C_add_hci_handler, C_l2cap_init, C_sm_init, C_gatt_client_init]"
| "set_up_before C_run_loop = [C_power_on]"
| "set_up_before C_no_input_no_output = [C_sm_init]"
| "set_up_before (C_bonding b) = [C_sm_init]"
| "set_up_before (C_secure_connections_only b) = [C_sm_init]"
| "set_up_before C_add_sm_handler = [C_sm_init]"
| "set_up_before c = []"

fun in_order :: "setup_call list \<Rightarrow> setup_call list \<Rightarrow> bool" where
  "in_order done_c [] = True"
| "in_order done_c (c # cs) = (set (set_up_before c) \<subseteq> set done_c \<and> c \<notin> set done_c \<and> in_order (c # done_c) cs)"

text \<open>All three keep the order; only the bridge answers the security manager's events itself.\<close>

lemma setups_in_order: "in_order [] bridge_setup \<and> in_order [] host_main \<and> in_order [] build_setup"
  by (simp add: bridge_setup_def host_main_def host_setup_def build_setup_def)

section \<open>The command line of switch2-bt\<close>

text \<open>
  The address and the flag of verbose output. One word of options: \<open>Inl\<close> where \<^verbatim>\<open>main\<close>
  returns; an option that takes a value finds it in the rest of its word or in the next one.
\<close>

type_synonym bt_options = "string option \<times> bool"

fun option_word :: "string \<Rightarrow> string list \<Rightarrow> bt_options \<Rightarrow> (int + bt_options) \<times> string list" where
  "option_word [] rest opts = (Inr opts, rest)"
| "option_word (c # cs) rest (addr, verb) =
     (if c = CHR ''a'' then
        (if cs \<noteq> [] then (Inr (Some cs, verb), rest)
         else (case rest of [] \<Rightarrow> (Inl 1, []) | v # rest' \<Rightarrow> (Inr (Some v, verb), rest')))
      else if c = CHR ''v'' then option_word cs rest (addr, True)
      else if c = CHR ''h'' then (Inl 0, rest)
      else (Inl 1, rest))"

lemma option_word_rest: "option_word cs rest opts = (r, rest') \<Longrightarrow> length rest' \<le> length rest"
  by (induction cs rest opts rule: option_word.induct) (auto split: if_splits list.splits)

text \<open>The loop of \<^verbatim>\<open>getopt\<close>: words that are no options are passed over.\<close>

function bt_getopt :: "string list \<Rightarrow> bt_options \<Rightarrow> int + bt_options" where
  "bt_getopt [] opts = Inr opts"
| "bt_getopt (w # ws) opts =
     (if w = ''--'' then Inr opts
      else if take 1 w \<noteq> ''-'' \<or> w = ''-'' then bt_getopt ws opts
      else case option_word (drop 1 w) ws opts of
             (Inl r, ws') \<Rightarrow> Inl r
           | (Inr opts', ws') \<Rightarrow> bt_getopt ws' opts')"
  by pat_completeness auto
termination
  by (relation "measure (\<lambda>(ws, opts). length ws)") (auto dest: option_word_rest [OF sym])

text \<open>
  \<^verbatim>\<open>main\<close> with its command line; \<open>bus\<close> is the answer of \<^verbatim>\<open>sd_bus_open_system\<close>.
\<close>

definition bt_program ::
  "nat \<Rightarrow> (uhid_event \<Rightarrow> bytes) \<Rightarrow> bytes \<Rightarrow> int \<Rightarrow> string list \<Rightarrow> world \<Rightarrow> (int \<times> world) option" where
  "bt_program fuel ub rdesc bus args w =
     (case bt_getopt args (None, False) of
        Inl code \<Rightarrow> Some (code, w)
      | Inr (None, verb) \<Rightarrow> Some (1, w)
      | Inr (Some addr, verb) \<Rightarrow> if bus < 0 then Some (1, w) else bt_main fuel ub rdesc addr w)"

text \<open>
  The program goes on exactly if an address was given and no option ends it: then with the
  last address, whether it stands in a word of its own or behind the option letter.
\<close>

lemma bt_getopt_address:
  "bt_getopt (words @ [''-a'', addr]) opts =
     (case bt_getopt words opts of Inl r \<Rightarrow> Inl r | Inr (a, verb) \<Rightarrow> Inr (Some addr, verb))"
  if "\<forall>w \<in> set words. w \<in> {''-v'', ''-h''}"
  using that
  by (induction words arbitrary: opts) (auto split: prod.splits)

end
