(* ===== verification/Spec2Isabelle.thy ===== *)
theory Spec2Isabelle
  imports Whole_Daemon Lost_Link Address_Text Sw2d_Served Bt_Forwarding Sw2d_Props Hid_Descriptor Rumble Protocol
    Bridge_Life Host_Life Two_Socket Probes Usb_Inspect Start_Up
begin

text \<open>
  A verification development of switch2-bt, a collection of C programs that connect the
  Nintendo Switch 2 Pro Controller to a Linux machine over Bluetooth Low Energy.


  PARTS OF THE PROGRAM

  The repository holds several ways to the same end, each a program of its own:

    \<^item> \<^verbatim>\<open>sw2d_final.c\<close> on \<^verbatim>\<open>hci_transport_user.c\<close>: a daemon that takes the Bluetooth
      controller for itself (HCI user channel), scans, connects, pairs by legacy SMP, encrypts
      the link, enables notifications over ATT, prints input reports and reconnects.
    \<^item> \<^verbatim>\<open>sw2d.c\<close>: an earlier daemon on the raw HCI channel that does without pairing and
      offers the reports as a virtual gamepad (uhid).
    \<^item> \<^verbatim>\<open>switch2-bt.c\<close> with \<^verbatim>\<open>hid_report_descriptor.h\<close>: a daemon that lets BlueZ do
      the Bluetooth part over D-Bus; \<^verbatim>\<open>switch2-bt-ff.c\<close> is a kernel module that is to add
      rumble to its virtual gamepad.
    \<^item> \<^verbatim>\<open>switch2_btstack_bridge.c\<close> and its copy under \<^verbatim>\<open>btstack-upstream\<close>: a bridge on
      the BTstack library that pairs by vendor commands over GATT; the commands are also in the
      library \<^verbatim>\<open>src/switch2_protocol.c\<close>.
    \<^item> \<^verbatim>\<open>sw2d_btstack.c\<close> and an earlier version in \<^verbatim>\<open>btstack_build\<close>: a HID host on BTstack.
    \<^item> \<^verbatim>\<open>two_socket_test.c\<close>, \<^verbatim>\<open>hciletest.c\<close>, \<^verbatim>\<open>sw2d_lib.c\<close>, \<^verbatim>\<open>acltest.c\<close>: test
      programs; \<^verbatim>\<open>usb_inspect.c\<close> and its two siblings look at the controller over USB.

  The daemons share no code but the transport; what they share in the model are the
  environment, the byte accessors and the interfaces below.


  THEORIES

  Basis:
    \<^item> \<open>Prelude\<close>: machine types (\<open>byte\<close>, \<open>u16\<close>, \<open>u32\<close>), buffers as lists of bytes, results
      that may leave early (\<open>and_then\<close>), collections of hints.
    \<^item> \<open>Posix_Env\<close>: the operating system. The answers of \<^verbatim>\<open>poll\<close>, \<^verbatim>\<open>read\<close>,
      \<^verbatim>\<open>write\<close>, \<^verbatim>\<open>socket\<close> and so on are data of the record \<open>env\<close>, every theorem
      holds for all of them; what a program does is the list \<open>acts\<close>. A signal is delivered
      during a blocking call and clears \<open>running\<close>.
    \<^item> \<open>Le_Bytes\<close>: \<^verbatim>\<open>get_le16\<close> and \<^verbatim>\<open>put_le16\<close>. \<open>C_Strings\<close>: the functions of the C
      library on strings. \<open>Uhid\<close>: events of the virtual HID device (a kernel layout, so a
      parameter). \<open>Lifecycle\<close>: runs of a step relation and the abstract life cycle of a host.

  \<^verbatim>\<open>sw2d_final.c\<close>:
    \<^item> \<open>Hci_Transport\<close>: \<^verbatim>\<open>hci_transport_user.c\<close>; \<^verbatim>\<open>hci_user_frame_t\<close> is the record
      \<open>frame\<close>. \<open>Advertising\<close>: the parser of advertising data and the scan. \<open>Smp\<close>: \<^verbatim>\<open>smp_c1\<close>,
      \<^verbatim>\<open>smp_s1\<close> over a block cipher.
    \<^item> \<open>Session\<close>: \<^verbatim>\<open>session_t\<close> as the record \<open>session\<close>, the two receive loops. \<open>Await\<close>: what
      both loops have in common. \<open>Pairing\<close>: phases 1 to 3 (connect, SMP, encryption). \<open>Gatt\<close>:
      phases 4 and 5 and the reconnect loop. \<open>Daemon\<close>, \<open>Daemon_Main\<close>: checks, USB preparation,
      options and \<^verbatim>\<open>main\<close>.
    \<^item> \<open>Effects\<close>, \<open>Exchange\<close>, \<open>Session_Props\<close>, \<open>Liveness\<close>, \<open>Descriptors\<close>, \<open>Daemon_Props\<close>:
      its properties. \<open>Gatt_Exchange\<close>: the discovery and the report loop against a controller
      that answers or is silent; on it \<open>Served\<close> (whole sessions), \<open>Lost_Link\<close> (a link lost
      during the discovery), \<open>Discovery\<close> (the scan) and \<open>Whole_Daemon\<close> (a run from the command line
      to the exit).

  The other programs:
    \<^item> \<open>Sw2d_Io\<close>, \<open>Sw2d_Session\<close>, \<open>Sw2d_Gamepad\<close>: \<^verbatim>\<open>sw2d.c\<close>; \<open>Sw2d_Props\<close>,
      \<open>Sw2d_Packets\<close>, \<open>Forwarding\<close>, \<open>Sw2d_Served\<close>: its properties.
    \<^item> \<open>Bt_Protocol\<close>, \<open>Bt_Daemon\<close>: \<^verbatim>\<open>switch2-bt.c\<close>; \<open>Bt_Props\<close>, \<open>Bt_Reports\<close>,
      \<open>Bt_Forwarding\<close>: its properties. \<open>Hid_Descriptor\<close>: both report descriptors and how a host reads a report by
      them. \<open>Rumble\<close>: \<^verbatim>\<open>switch2-bt-ff.c\<close>.
    \<^item> \<open>Bridge\<close>, \<open>Bridge_Life\<close>: \<^verbatim>\<open>switch2_btstack_bridge.c\<close>, both copies. \<open>Protocol\<close>:
      \<^verbatim>\<open>src/switch2_protocol.c\<close>. \<open>Btstack_Host\<close>, \<open>Host_Life\<close>: both versions of
      \<^verbatim>\<open>sw2d_btstack.c\<close>.
    \<^item> \<open>Two_Socket\<close>, \<open>Probes\<close>: the test programs. \<open>Usb_Inspect\<close>: the USB inspection
      programs of \<^verbatim>\<open>legacy/raw-hci\<close>. \<open>Unit_Tests\<close>: three of the C tests in \<^verbatim>\<open>tests\<close>, run
      on the model, and the agreement of the functions they copy. \<open>Address_Text\<close>: addresses as
      text, for the parsers of both daemons and of the fourth test, \<^verbatim>\<open>test_bdaddr.c\<close>.
    \<^item> \<open>Start_Up\<close>: the set-up of BTstack by the bridge and the HID host, and the command line of
      \<^verbatim>\<open>switch2-bt.c\<close>.

  A definition has the name of the C function where there is one. Mutable state is passed and
  returned; an early \<^verbatim>\<open>return\<close> or \<^verbatim>\<open>goto\<close> is \<open>Inl\<close>. Callbacks of BTstack are
  functions from an event (with the fields the code reads) and the state to the state, which
  logs what the program asks BTstack for. Progress messages are left out everywhere.


  INTERFACES

    \<^item> \<open>env_effect\<close> and its extensions \<open>smp_effect\<close>, \<open>link_effect\<close>, \<open>gatt_effect\<close>,
      \<open>daemon_effect\<close>, \<open>setup_effect\<close>: a relation on environments that every system call
      respects is respected by every operation. Its interpretations are the facts that nothing
      is opened or closed, that no ATT data or encryption request is written, which pauses are
      made, and that a signal is not lost.
    \<^item> \<open>codec\<close>, \<open>fixed_codec\<close>: a packet format and its reader; interpreted for 16-bit numbers,
      ACL packets of both daemons, packed sticks and command frames.
    \<^item> \<open>frame_handler\<close>: a receive loop with a deadline; interpreted for the event and the ACL
      loop.
    \<^item> \<open>lifecycle\<close>: a machine whose steps follow the abstract life cycle; interpreted for the
      bridge and the HID host.


  WHAT IS SHOWN

    \<^item> Safety of the session (\<open>Session_Props\<close>): encryption is started only after a matching
      confirm value, ATT data is sent only on an encrypted link. The pauses, and that a wrong role order rejects the confirm value of the
      specification while encryption that is off is accepted (\<open>Daemon_Props\<close>).
    \<^item> Service (\<open>Served\<close>, \<open>Discovery\<close>, \<open>Whole_Daemon\<close>, \<open>Sw2d_Served\<close>, \<open>Bt_Forwarding\<close>): a controller
      that answers is found, paired, discovered and its reports are counted, session after session,
      and a whole run of \<^verbatim>\<open>main\<close> does exactly the listed actions; the two daemons with a virtual
      gamepad forward exactly the input reports, in order.
    \<^item> Termination: the daemons stop once a signal is due (\<open>Liveness\<close>, \<open>Sw2d_Props\<close>).
    \<^item> Descriptors: what was opened is closed, on every path of \<^verbatim>\<open>main\<close> (\<open>Descriptors\<close>,
      \<open>Sw2d_Props\<close>, \<open>Probes\<close>).
    \<^item> Wire formats: round trips, equality of two builders, which fields a frame has after a
      read (\<open>Hci_Transport\<close>, \<open>Sw2d_Packets\<close>, \<open>Bt_Reports\<close>, \<open>Protocol\<close>, \<open>Probes\<close>); texts of addresses
      (\<open>Address_Text\<close>).
    \<^item> Parsers against a specification on elements (\<open>Advertising\<close>), reports against their
      descriptor (\<open>Hid_Descriptor\<close>), ranges of everything the event loop writes (\<open>Bt_Reports\<close>).
    \<^item> State machines: invariants of all reachable states (\<open>Bridge\<close>), refinement of the abstract
      life cycle and the way to ready (\<open>Bridge_Life\<close>, \<open>Btstack_Host\<close>, \<open>Host_Life\<close>), agreement of two
      versions.
    \<^item> Errors the model brought to light: \<^verbatim>\<open>switch2-bt.c\<close> never finds its characteristics
      (\<open>Bt_Props\<close>), packets read in three parts (\<open>Sw2d_Packets\<close>), rumble that is never
      registered (\<open>Rumble\<close>), a rejection that is never noticed (\<open>Two_Socket\<close>), a disconnection
      that is forgotten (\<open>Lost_Link\<close>), queries without results that go unnoticed (\<open>Host_Life\<close>), scan parameters in the wrong layout (\<open>Discovery\<close>).


  BOUNDS AND FUEL

  Loops with a deadline or a count are total functions: each round consumes an answer of the
  environment or lets time pass. The loops that may run for ever (\<open>report_loop\<close>,
  \<open>reconnect_loop\<close> of \<^verbatim>\<open>sw2d_final.c\<close>, \<open>notify_loop\<close> and the outer loop of \<^verbatim>\<open>sw2d.c\<close>)
  and the reconnect loop of \<^verbatim>\<open>switch2-bt.c\<close> have fuel and answer \<open>None\<close> when it is used
  up; the termination theorems give the fuel that is enough: more than the number of answers
  left once a signal is due, and for a session that is served more than the number of its messages.
  Statements about what was done hold for every fuel that gives a
  result. Integers are words of their width where the C type is unsigned and fixed, \<open>int\<close>
  for return codes and times.


  NOT MODELLED

    \<^item> Third-party code: AES, the Bluetooth library, BlueZ, D-Bus, BTstack, the HID core. Where a
      program depends on their answers, these are parameters or data.
    \<^item> The other C files of \<^verbatim>\<open>legacy/raw-hci\<close> are byte for byte the root files, and the
      functions of the upstream bridge other than its main handler are those of the root bridge:
      the same definitions model them.
    \<^item> Messages and usage texts; signal handlers, which only clear a flag (\<open>running\<close>).
    \<^item> The constants of the build configuration; the Python tests, host and tools, scripts,
      services and documents.
\<close>

end
